(* ===== verification/Prelude.thy ===== *)
theory Prelude
  imports Main "HOL-Library.Word"
begin

text \<open>
  What every component of the model shares: the Go byte and the byte slice, big-endian
  integers, a Go string against its bytes, results that are an error or a value
  (\<open>'e + 'a\<close>, \<open>Inl\<close> the error), computations that also thread a device state, and
  the list facts the codec proofs rest on.  The \<open>named_theorems\<close> collections hold
  the inversion rules of the result combinators and the rules that carry an invariant
  through a computation.
\<close>

named_theorems result_simps \<open>evaluation of the result combinators\<close>
named_theorems result_inv \<open>when a result combinator succeeds\<close>
named_theorems keeps_intros \<open>computations that keep an invariant of the state\<close>

type_synonym byte = "8 word"
type_synonym bytes = "8 word list"

subsection \<open>Results\<close>

definition bindE :: "'e + 'a \<Rightarrow> ('a \<Rightarrow> 'e + 'b) \<Rightarrow> 'e + 'b" where
  "bindE m f = (case m of Inl e \<Rightarrow> Inl e | Inr x \<Rightarrow> f x)"

definition failIf :: "bool \<Rightarrow> 'e \<Rightarrow> 'e + unit" where
  "failIf b e = (if b then Inl e else Inr ())"

definition mapErr :: "('e \<Rightarrow> 'f) \<Rightarrow> 'e + 'a \<Rightarrow> 'f + 'a" where
  "mapErr g m = (case m of Inl e \<Rightarrow> Inl (g e) | Inr x \<Rightarrow> Inr x)"

fun isOk :: "'e + 'a \<Rightarrow> bool" where
  "isOk (Inl e) = False"
| "isOk (Inr x) = True"

lemma bindE_simps [simp, result_simps]:
  "bindE (Inl e) f = Inl e" "bindE (Inr x) f = f x"
  by (simp_all add: bindE_def)

lemma bindE_eq_Inr [result_inv]:
  "bindE m f = Inr y \<longleftrightarrow> (\<exists>x. m = Inr x \<and> f x = Inr y)"
  by (cases m) auto

lemma bindE_eq_Inl [result_inv]:
  "bindE m f = Inl e \<longleftrightarrow> m = Inl e \<or> (\<exists>x. m = Inr x \<and> f x = Inl e)"
  by (cases m) auto

lemma bindE_assoc: "bindE (bindE m f) g = bindE m (\<lambda>x. bindE (f x) g)"
  by (cases m) simp_all

lemma failIf_eq_Inr [result_inv]: "failIf b e = Inr u \<longleftrightarrow> \<not> b"
  by (simp add: failIf_def)

lemma failIf_eq_Inl [result_inv]: "failIf b e = Inl e' \<longleftrightarrow> b \<and> e' = e"
  by (auto simp: failIf_def)

lemma failIf_simps [simp, result_simps]: "failIf False e = Inr ()" "failIf True e = Inl e"
  by (simp_all add: failIf_def)

lemma mapErr_simps [simp, result_simps]:
  "mapErr g (Inl e) = Inl (g e)" "mapErr g (Inr x) = Inr x"
  by (simp_all add: mapErr_def)

lemma mapErr_eq_Inr [result_inv]: "mapErr g m = Inr x \<longleftrightarrow> m = Inr x"
  by (cases m) simp_all

lemma mapErr_eq_Inl [result_inv]: "mapErr g m = Inl e \<longleftrightarrow> (\<exists>e'. m = Inl e' \<and> e = g e')"
  by (cases m) auto

lemma isOk_iff: "isOk m \<longleftrightarrow> (\<exists>x. m = Inr x)"
  by (cases m) auto

subsection \<open>Computations on a device\<close>

text \<open>
  A call into the device may change it (a key is created, an audit entry is written) and
  may fail; the state it leaves is kept on both ways out.
\<close>

type_synonym ('d, 'e, 'a) io = "'d \<Rightarrow> ('e + 'a) \<times> 'd"

definition bindS :: "('d, 'e, 'a) io \<Rightarrow> ('a \<Rightarrow> ('d, 'e, 'b) io) \<Rightarrow> ('d, 'e, 'b) io" where
  "bindS m f = (\<lambda>d. case m d of (Inl e, d') \<Rightarrow> (Inl e, d') | (Inr x, d') \<Rightarrow> f x d')"

definition returnS :: "'a \<Rightarrow> ('d, 'e, 'a) io" where
  "returnS x = (\<lambda>d. (Inr x, d))"

definition failS :: "'e \<Rightarrow> ('d, 'e, 'a) io" where
  "failS e = (\<lambda>d. (Inl e, d))"

definition liftE :: "'e + 'a \<Rightarrow> ('d, 'e, 'a) io" where
  "liftE m = (\<lambda>d. (m, d))"

definition mapErrS :: "('e \<Rightarrow> 'f) \<Rightarrow> ('d, 'e, 'a) io \<Rightarrow> ('d, 'f, 'a) io" where
  "mapErrS g m = (\<lambda>d. case m d of (r, d') \<Rightarrow> (mapErr g r, d'))"

lemma bindS_apply: "bindS m f d = (case m d of (Inl e, d') \<Rightarrow> (Inl e, d') | (Inr x, d') \<Rightarrow> f x d')"
  by (simp add: bindS_def)

lemma bindS_eq_Inr [result_inv]:
  "bindS m f d = (Inr y, d'') \<longleftrightarrow> (\<exists>x d'. m d = (Inr x, d') \<and> f x d' = (Inr y, d''))"
  by (auto simp: bindS_def split: prod.splits sum.splits)

lemma bindS_eq_Inl [result_inv]:
  "bindS m f d = (Inl e, d'') \<longleftrightarrow>
     m d = (Inl e, d'') \<or> (\<exists>x d'. m d = (Inr x, d') \<and> f x d' = (Inl e, d''))"
  by (auto simp: bindS_def split: prod.splits sum.splits)

lemma returnS_apply [simp, result_simps]: "returnS x d = (Inr x, d)"
  by (simp add: returnS_def)

lemma failS_apply [simp, result_simps]: "failS e d = (Inl e, d)"
  by (simp add: failS_def)

lemma liftE_apply [simp, result_simps]: "liftE m d = (m, d)"
  by (simp add: liftE_def)

lemma mapErrS_eq_Inr [result_inv]: "mapErrS g m d = (Inr x, d') \<longleftrightarrow> m d = (Inr x, d')"
  by (auto simp: mapErrS_def result_inv split: prod.splits)

lemma mapErrS_eq_Inl [result_inv]:
  "mapErrS g m d = (Inl e, d') \<longleftrightarrow> (\<exists>e'. m d = (Inl e', d') \<and> e = g e')"
  by (auto simp: mapErrS_def result_inv split: prod.splits)

lemma bindS_returnS [simp]: "bindS (returnS x) f = f x"
  by (simp add: bindS_def returnS_def)

lemma bindS_failS [simp]: "bindS (failS e) f = failS e"
  by (simp add: bindS_def failS_def)

lemma bindS_liftE_Inr [simp]: "bindS (liftE (Inr x)) f = f x"
  by (simp add: bindS_def liftE_def)

text \<open>A computation keeps an invariant when it holds afterwards on both ways out.\<close>

definition keeps :: "('s \<Rightarrow> bool) \<Rightarrow> ('s, 'e, 'a) io \<Rightarrow> bool" where
  "keeps I m \<longleftrightarrow> (\<forall>s. I s \<longrightarrow> I (snd (m s)))"

lemma keeps_bindS [keeps_intros]: "keeps I m \<Longrightarrow> (\<And>x. keeps I (f x)) \<Longrightarrow> keeps I (bindS m f)"
  unfolding keeps_def bindS_def by (fastforce split: prod.splits sum.splits)

lemma keeps_leaf [keeps_intros]: "keeps I (returnS x)" "keeps I (failS e)" "keeps I (liftE r)"
  by (simp_all add: keeps_def)

lemma keeps_mapErrS [keeps_intros]: "keeps I m \<Longrightarrow> keeps I (mapErrS g m)"
  unfolding keeps_def mapErrS_def by (auto split: prod.splits)

lemma keeps_if [keeps_intros]: "(b \<Longrightarrow> keeps I m) \<Longrightarrow> (\<not> b \<Longrightarrow> keeps I m') \<Longrightarrow> keeps I (if b then m else m')"
  by simp

lemma keeps_prod [keeps_intros]: "(\<And>a b. keeps I (f a b)) \<Longrightarrow> keeps I (case p of (a, b) \<Rightarrow> f a b)"
  by (cases p) simp

lemma keeps_option [keeps_intros]:
  "keeps I m \<Longrightarrow> (\<And>x. keeps I (f x)) \<Longrightarrow> keeps I (case v of None \<Rightarrow> m | Some x \<Rightarrow> f x)"
  by (cases v) simp_all

lemma keepsD: "keeps I m \<Longrightarrow> I s \<Longrightarrow> m s = (r, s') \<Longrightarrow> I s'"
  unfolding keeps_def by (metis snd_conv)

subsection \<open>Integers as big-endian bytes\<close>

fun le_bytes :: "nat \<Rightarrow> nat \<Rightarrow> bytes" where
  "le_bytes 0 k = []"
| "le_bytes (Suc n) k = word_of_nat (k mod 256) # le_bytes n (k div 256)"

fun le_nat :: "bytes \<Rightarrow> nat" where
  "le_nat [] = 0"
| "le_nat (b # bs) = unat b + 256 * le_nat bs"

definition be_bytes :: "nat \<Rightarrow> nat \<Rightarrow> bytes" where
  "be_bytes n k = rev (le_bytes n k)"

definition be_nat :: "bytes \<Rightarrow> nat" where
  "be_nat bs = le_nat (rev bs)"

lemma le_bytes_numeral:
  "le_bytes (numeral n) k = word_of_nat (k mod 256) # le_bytes (pred_numeral n) (k div 256)"
  by (subst numeral_eq_Suc) (rule le_bytes.simps(2))

lemma unat_byte_less [simp]: "unat (b :: byte) < 256"
  using unsigned_less [of b, where 'a = nat] by simp

lemma unat_byte_div [simp]:
  "unat (b :: byte) div 4 < 64" "unat b div 16 < 16" "unat b div 64 < 4"
  using unat_byte_less [of b] by linarith+

lemma unat_byte_of_nat: "unat (word_of_nat k :: byte) = k mod 256"
  by (simp add: unat_of_nat)

lemma length_le_bytes [simp]: "length (le_bytes n k) = n"
  by (induction n arbitrary: k) auto

lemma length_be_bytes [simp]: "length (be_bytes n k) = n"
  by (simp add: be_bytes_def)

lemma le_nat_less: "le_nat bs < 256 ^ length bs"
proof (induction bs)
  case (Cons b bs)
  have "unat b + 256 * le_nat bs < 256 * (le_nat bs + 1)"
    using unat_byte_less [of b] by simp
  also have "\<dots> \<le> 256 * 256 ^ length bs"
    using Cons by (intro mult_le_mono) simp_all
  finally show ?case by simp
qed simp

lemma le_nat_le_bytes: "le_nat (le_bytes n k) = k mod 256 ^ n"
proof (induction n arbitrary: k)
  case (Suc n)
  have "k mod 256 ^ Suc n = k mod 256 + 256 * (k div 256 mod 256 ^ n)"
    by (simp add: mod_mult2_eq)
  then show ?case by (simp add: Suc unat_byte_of_nat)
qed simp

lemma le_bytes_le_nat: "n = length bs \<Longrightarrow> le_bytes n (le_nat bs) = bs"
proof (induction bs arbitrary: n)
  case (Cons b bs)
  have "(unat b + 256 * le_nat bs) mod 256 = unat b"
    using unat_byte_less [of b] by simp
  moreover have "(unat b + 256 * le_nat bs) div 256 = le_nat bs"
    using unat_byte_less [of b] by simp
  ultimately show ?case using Cons by simp
qed simp

lemma be_nat_less: "be_nat bs < 256 ^ length bs"
  using le_nat_less [of "rev bs"] by (simp add: be_nat_def)

lemma be_nat_be_bytes [simp]: "be_nat (be_bytes n k) = k mod 256 ^ n"
  by (simp add: be_nat_def be_bytes_def le_nat_le_bytes)

lemma be_bytes_be_nat: "n = length bs \<Longrightarrow> be_bytes n (be_nat bs) = bs"
  by (simp add: be_nat_def be_bytes_def le_bytes_le_nat)

subsection \<open>Go strings and their bytes\<close>

text \<open>
  A Go string is a sequence of bytes.  Text is a HOL \<open>string\<close>; \<open>bytes_of\<close> is the
  conversion \<open>[]byte(s)\<close> and \<open>string_of\<close> is \<open>string(b)\<close>.
\<close>

definition bytes_of :: "string \<Rightarrow> bytes" where
  "bytes_of s = map (\<lambda>c. word_of_nat (of_char c)) s"

definition string_of :: "bytes \<Rightarrow> string" where
  "string_of bs = map (\<lambda>b. char_of (unat b)) bs"

lemma string_of_bytes_of [simp]: "string_of (bytes_of s) = s"
proof -
  have "char_of (unat (word_of_nat (of_char c) :: byte)) = c" for c
    by (simp add: unat_byte_of_nat)
  then show ?thesis by (simp add: bytes_of_def string_of_def o_def)
qed

lemma bytes_of_string_of [simp]: "bytes_of (string_of bs) = bs"
proof -
  have "word_of_nat (of_char (char_of (unat b))) = b" for b :: byte
    by simp
  then show ?thesis by (simp add: bytes_of_def string_of_def o_def map_idI)
qed

lemma length_bytes_of [simp]: "length (bytes_of s) = length s"
  by (simp add: bytes_of_def)

lemma length_string_of [simp]: "length (string_of bs) = length bs"
  by (simp add: string_of_def)

lemma bytes_of_Nil [simp]: "bytes_of s = [] \<longleftrightarrow> s = []"
  by (simp add: bytes_of_def)

lemma bytes_of_inject [simp]: "bytes_of s = bytes_of t \<longleftrightarrow> s = t"
  by (metis string_of_bytes_of)

subsection \<open>Lists grouped by a key\<close>

lemma find_SomeD: "find P xs = Some x \<Longrightarrow> x \<in> set xs \<and> P x"
  by (induction xs) (auto split: if_splits)

text \<open>
  A list that is sorted by a key, and whose keys come from an ascending list, is the
  concatenation of its groups in that order.
\<close>

lemma filter_key_Cons_sorted:
  assumes "sorted (map key xs)" and "sorted (t # ts)" and "distinct (t # ts)"
    and "key ` set xs \<subseteq> set (t # ts)"
  shows "xs = filter (\<lambda>x. key x = t) xs @ filter (\<lambda>x. key x \<noteq> t) xs"
  using assms
proof (induction xs)
  case (Cons x xs)
  show ?case
  proof (cases "key x = t")
    case True
    with Cons show ?thesis by simp
  next
    case False
    with Cons.prems have "t < key x"
      by (auto simp: less_le)
    then have "key y \<noteq> t" if "y \<in> set xs" for y
      using Cons.prems(1) that by auto
    with False show ?thesis
      by (simp add: filter_empty_conv)
  qed
qed simp

lemma sorted_groups:
  assumes "sorted (map key xs)" and "sorted ts" and "distinct ts" and "key ` set xs \<subseteq> set ts"
  shows "xs = concat (map (\<lambda>t. filter (\<lambda>x. key x = t) xs) ts)"
  using assms
proof (induction ts arbitrary: xs)
  case (Cons t ts)
  let ?r = "filter (\<lambda>x. key x \<noteq> t) xs"
  have xs: "xs = filter (\<lambda>x. key x = t) xs @ ?r"
    by (rule filter_key_Cons_sorted [OF Cons.prems])
  have "sorted (map key ?r)"
    using Cons.prems(1) by (rule sorted_filter)
  moreover have "key ` set ?r \<subseteq> set ts"
    using Cons.prems(4) by auto
  ultimately have "?r = concat (map (\<lambda>s. filter (\<lambda>x. key x = s) ?r) ts)"
    using Cons by (intro Cons.IH) auto
  also have "\<dots> = concat (map (\<lambda>s. filter (\<lambda>x. key x = s) xs) ts)"
    using Cons.prems(3) by (intro arg_cong [where f = concat] map_cong refl)
      (auto simp: filter_filter intro!: filter_cong)
  finally show ?case using xs by simp
qed simp

text \<open>Go's \<open>int\<close> is 64 bits wide.\<close>

definition wrap64 :: "int \<Rightarrow> int" where
  "wrap64 n = (n + 2 ^ 63) mod 2 ^ 64 - 2 ^ 63"

end
