(* ===== verification/Netip.thy ===== *)
theory Netip
  imports Prelude
begin

unbundle bit_operations_syntax

text \<open>
  The values of Go's \<open>net/netip\<close> package that the program stores and compares: an
  address (the zero value, IPv4, or IPv6 with its zone) and a prefix, with the operations
  the source calls on them.  A prefix never carries a zone, because \<open>PrefixFrom\<close> and
  \<open>ParsePrefix\<close> do not keep one, and an invalid prefix has the length \<open>-1\<close>.
\<close>

subsection \<open>Addresses\<close>

datatype Addr = AddrZero | Addr4 "32 word" | Addr6 "128 word" string

fun Is4 :: "Addr \<Rightarrow> bool" where
  "Is4 (Addr4 w) = True"
| "Is4 a = False"

fun Is6 :: "Addr \<Rightarrow> bool" where
  "Is6 (Addr6 w z) = True"
| "Is6 a = False"

fun AddrIsValid :: "Addr \<Rightarrow> bool" where
  "AddrIsValid AddrZero = False"
| "AddrIsValid a = True"

fun BitLen :: "Addr \<Rightarrow> nat" where
  "BitLen AddrZero = 0"
| "BitLen (Addr4 w) = 32"
| "BitLen (Addr6 w z) = 128"

fun Zone :: "Addr \<Rightarrow> string" where
  "Zone (Addr6 w z) = z"
| "Zone a = []"

fun WithoutZone :: "Addr \<Rightarrow> Addr" where
  "WithoutZone (Addr6 w z) = Addr6 w []"
| "WithoutZone a = a"

text \<open>
  \<open>As4\<close> panics on anything that is neither IPv4 nor IPv4-mapped; every call in the
  source is guarded by \<open>Is4\<close>, and the model is the empty slice there.
  \<open>As16\<close> maps an IPv4 address into \<open>::ffff:0:0/96\<close> and gives zeros for the zero
  address; both drop the zone.
\<close>

definition mapped_prefix :: "nat" where
  "mapped_prefix = 0xffff * 2 ^ 32"

definition Is4In6 :: "Addr \<Rightarrow> bool" where
  "Is4In6 a = (case a of Addr6 w z \<Rightarrow> drop_bit 32 (unat w) = 0xffff | _ \<Rightarrow> False)"

fun As4 :: "Addr \<Rightarrow> bytes" where
  "As4 (Addr4 w) = be_bytes 4 (unat w)"
| "As4 (Addr6 w z) = (if Is4In6 (Addr6 w z) then drop 12 (be_bytes 16 (unat w)) else [])"
| "As4 AddrZero = []"

fun As16 :: "Addr \<Rightarrow> bytes" where
  "As16 (Addr4 w) = be_bytes 16 (mapped_prefix + unat w)"
| "As16 (Addr6 w z) = be_bytes 16 (unat w)"
| "As16 AddrZero = replicate 16 0"

definition AddrFromSlice :: "bytes \<Rightarrow> Addr option" where
  "AddrFromSlice b =
     (if length b = 4 then Some (Addr4 (word_of_nat (be_nat b)))
      else if length b = 16 then Some (Addr6 (word_of_nat (be_nat b)) [])
      else None)"

definition Unmap :: "Addr \<Rightarrow> Addr" where
  "Unmap a = (if Is4In6 a then (case a of Addr6 w z \<Rightarrow> Addr4 (ucast w) | _ \<Rightarrow> a) else a)"

lemma length_As4 [simp]: "Is4 a \<Longrightarrow> length (As4 a) = 4"
  by (cases a) auto

lemma length_As16 [simp]: "length (As16 a) = 16"
  by (cases a) auto

lemma unat_word_be_nat:
  "256 ^ length b \<le> (2 :: nat) ^ LENGTH('a::len) \<Longrightarrow> unat (word_of_nat (be_nat b) :: 'a word) = be_nat b"
  using be_nat_less [of b] by (simp add: unat_of_nat)

lemma AddrFromSlice_As4 [simp]: "Is4 a \<Longrightarrow> AddrFromSlice (As4 a) = Some a"
proof (cases a)
  case (Addr4 w)
  have "unat w < 2 ^ 32" using unsigned_less [of w, where 'a = nat] by simp
  with Addr4 show ?thesis by (simp add: AddrFromSlice_def)
qed simp_all

lemma AddrFromSlice_As16 [simp]:
  "AddrIsValid a \<Longrightarrow> \<not> Is4 a \<Longrightarrow> AddrFromSlice (As16 a) = Some (WithoutZone a)"
proof (cases a)
  case (Addr6 w z)
  have "unat w < 2 ^ 128" using unsigned_less [of w, where 'a = nat] by simp
  with Addr6 show ?thesis by (simp add: AddrFromSlice_def)
qed simp_all

lemma AddrFromSlice_4:
  "length b = 4 \<Longrightarrow> AddrFromSlice b = Some a \<Longrightarrow> Is4 a \<and> As4 a = b \<and> WithoutZone a = a \<and> AddrIsValid a"
  using unat_word_be_nat [of b, where 'a = 32]
  by (auto simp: AddrFromSlice_def be_bytes_be_nat)

lemma AddrFromSlice_16:
  "length b = 16 \<Longrightarrow> AddrFromSlice b = Some a \<Longrightarrow>
     \<not> Is4 a \<and> As16 a = b \<and> WithoutZone a = a \<and> AddrIsValid a"
  using unat_word_be_nat [of b, where 'a = 128]
  by (auto simp: AddrFromSlice_def be_bytes_be_nat)

lemma Is4_valid [simp]: "Is4 a \<Longrightarrow> AddrIsValid a"
  by (cases a) auto

lemma Is4_WithoutZone [simp]: "Is4 (WithoutZone a) = Is4 a"
  by (cases a) auto

lemma Is4_WithoutZone_id: "Is4 a \<Longrightarrow> WithoutZone a = a"
  by (cases a) auto

lemma WithoutZone_idem [simp]: "WithoutZone (WithoutZone a) = WithoutZone a"
  by (cases a) auto

lemma valid_WithoutZone [simp]: "AddrIsValid (WithoutZone a) = AddrIsValid a"
  by (cases a) auto

lemma As16_WithoutZone [simp]: "As16 (WithoutZone a) = As16 a"
  by (cases a) auto

lemma BitLen_Is4: "AddrIsValid a \<Longrightarrow> BitLen a = (if Is4 a then 32 else 128)"
  by (cases a) auto

subsection \<open>Prefixes\<close>

record Prefix =
  pfxAddr :: Addr
  pfxBits :: int

definition PrefixFrom :: "Addr \<Rightarrow> int \<Rightarrow> Prefix" where
  "PrefixFrom a bits =
     \<lparr>pfxAddr = WithoutZone a,
      pfxBits = (if AddrIsValid a \<and> 0 \<le> bits \<and> bits \<le> int (BitLen a) then bits else -1)\<rparr>"

definition PrefixIsValid :: "Prefix \<Rightarrow> bool" where
  "PrefixIsValid p \<longleftrightarrow> 0 \<le> pfxBits p"

text \<open>What every prefix value of the package satisfies: built by \<open>PrefixFrom\<close> or zero.\<close>

definition wf_Prefix :: "Prefix \<Rightarrow> bool" where
  "wf_Prefix p \<longleftrightarrow> WithoutZone (pfxAddr p) = pfxAddr p \<and>
     (0 \<le> pfxBits p \<longrightarrow> AddrIsValid (pfxAddr p) \<and> pfxBits p \<le> int (BitLen (pfxAddr p))) \<and>
     -1 \<le> pfxBits p"

lemma wf_PrefixFrom [simp]: "wf_Prefix (PrefixFrom a n)"
  by (cases a) (auto simp: wf_Prefix_def PrefixFrom_def)

lemma PrefixFrom_self: "wf_Prefix p \<Longrightarrow> PrefixIsValid p \<Longrightarrow> PrefixFrom (pfxAddr p) (pfxBits p) = p"
  by (auto simp: wf_Prefix_def PrefixIsValid_def PrefixFrom_def)

definition addr_bits :: "Addr \<Rightarrow> nat" where
  "addr_bits a = (case a of AddrZero \<Rightarrow> 0 | Addr4 w \<Rightarrow> unat w | Addr6 w z \<Rightarrow> unat w)"

text \<open>
  \<open>Contains\<close> refuses an address with a zone and one of the other family, then compares
  the leading bits; \<open>Masked\<close> clears the others.
\<close>

definition Contains :: "Prefix \<Rightarrow> Addr \<Rightarrow> bool" where
  "Contains p a \<longleftrightarrow>
     PrefixIsValid p \<and> Zone a = [] \<and> BitLen (pfxAddr p) \<noteq> 0 \<and> BitLen a = BitLen (pfxAddr p) \<and>
     drop_bit (BitLen a - nat (pfxBits p)) (addr_bits a) =
     drop_bit (BitLen a - nat (pfxBits p)) (addr_bits (pfxAddr p))"

definition Masked :: "Prefix \<Rightarrow> Prefix" where
  "Masked p =
     (if \<not> PrefixIsValid p then \<lparr>pfxAddr = AddrZero, pfxBits = -1\<rparr>
      else (let n = BitLen (pfxAddr p) - nat (pfxBits p) in
        p\<lparr>pfxAddr := (case pfxAddr p of
             AddrZero \<Rightarrow> AddrZero
           | Addr4 w \<Rightarrow> Addr4 (push_bit n (drop_bit n w))
           | Addr6 w z \<Rightarrow> Addr6 (push_bit n (drop_bit n w)) [])\<rparr>))"

definition IsSingleIP :: "Prefix \<Rightarrow> bool" where
  "IsSingleIP p \<longleftrightarrow> PrefixIsValid p \<and> pfxBits p = int (BitLen (pfxAddr p))"

lemma Contains_host: "AddrIsValid a \<Longrightarrow> Zone a = [] \<Longrightarrow> Contains (PrefixFrom a (int (BitLen a))) a"
  by (cases a) (auto simp: Contains_def PrefixFrom_def PrefixIsValid_def addr_bits_def)

lemma Contains_family: "Contains p a \<Longrightarrow> Is4 a \<longleftrightarrow> Is4 (pfxAddr p)"
  by (cases a; cases "pfxAddr p") (auto simp: Contains_def)

lemma Contains_default:
  "pfxBits p = 0 \<Longrightarrow> BitLen (pfxAddr p) = BitLen a \<Longrightarrow> BitLen a \<noteq> 0 \<Longrightarrow> Zone a = [] \<Longrightarrow> Contains p a"
proof -
  assume h: "pfxBits p = 0" "BitLen (pfxAddr p) = BitLen a" "BitLen a \<noteq> 0" "Zone a = []"
  have top: "drop_bit (BitLen x) (addr_bits x) = 0" for x
  proof -
    have "addr_bits x < 2 ^ BitLen x"
    proof (cases x)
      case (Addr4 w)
      then show ?thesis using unsigned_less [of w, where 'a = nat] by (simp add: addr_bits_def)
    next
      case (Addr6 w z)
      then show ?thesis using unsigned_less [of w, where 'a = nat] by (simp add: addr_bits_def)
    qed (simp add: addr_bits_def)
    then show ?thesis by (simp add: drop_bit_eq_div)
  qed
  from h top [of a] top [of "pfxAddr p"] show ?thesis
    by (simp add: Contains_def PrefixIsValid_def)
qed

end
