(* ===== verification/NetText.thy ===== *)
theory NetText
  imports Netip GoText
begin

text \<open>
  The textual forms of \<open>net/netip\<close> and \<open>net\<close> that the program reads and prints:
  \<open>ParseAddr\<close>, \<open>ParsePrefix\<close>, \<open>ParseAddrPort\<close>, \<open>SplitHostPort\<close> and the \<open>String\<close>
  methods.  A failed parse is \<open>None\<close>; the standard library's error text is not kept.
\<close>

subsection \<open>Printing\<close>

definition octets :: "nat \<Rightarrow> nat list" where
  "octets n = [n div 16777216 mod 256, n div 65536 mod 256, n div 256 mod 256, n mod 256]"

definition String4 :: "nat \<Rightarrow> string" where
  "String4 n = Join ''.'' (map FormatUint (octets n))"

definition hextets :: "nat \<Rightarrow> nat list" where
  "hextets n = map (\<lambda>i. n div 2 ^ (16 * (7 - i)) mod 65536) [0..<8]"

text \<open>Hexadecimal without leading zeros.\<close>

definition hex_group :: "nat \<Rightarrow> string" where
  "hex_group n =
     (let ds = map (\<lambda>i. n div 16 ^ (3 - i) mod 16) [0..<4]; s = dropWhile (\<lambda>d. d = 0) ds
      in if s = [] then ''0'' else map hex_char s)"

text \<open>
  The run of zero groups that \<open>::\<close> stands for: the first of the longest ones, of at least two
  groups.
\<close>

definition zero_run :: "nat list \<Rightarrow> nat \<Rightarrow> nat" where
  "zero_run gs i = length (takeWhile (\<lambda>g. g = 0) (drop i gs))"

definition best_run :: "nat list \<Rightarrow> nat \<times> nat" where
  "best_run gs = fold (\<lambda>i (s, n). if zero_run gs i \<ge> 2 \<and> zero_run gs i > n then (i, zero_run gs i) else (s, n))
                   [0..<length gs] (0, 0)"

definition String6 :: "nat \<Rightarrow> string" where
  "String6 n =
     (let gs = hextets n; (s, k) = best_run gs in
      if k = 0 then Join '':'' (map hex_group gs)
      else Join '':'' (map hex_group (take s gs)) @ ''::'' @ Join '':'' (map hex_group (drop (s + k) gs)))"

definition zoneSuffix :: "string \<Rightarrow> string" where
  "zoneSuffix z = (if z = [] then [] else CHR ''%'' # z)"

definition AddrString :: "Addr \<Rightarrow> string" where
  "AddrString a =
     (case a of
        AddrZero \<Rightarrow> ''invalid IP''
      | Addr4 w \<Rightarrow> String4 (unat w)
      | Addr6 w z \<Rightarrow>
          (if Is4In6 a then ''::ffff:'' @ String4 (unat w mod 2 ^ 32) else String6 (unat w)) @ zoneSuffix z)"

definition PrefixString :: "Prefix \<Rightarrow> string" where
  "PrefixString p = (if \<not> PrefixIsValid p then ''invalid Prefix''
     else AddrString (pfxAddr p) @ ''/'' @ Itoa (pfxBits p))"

definition AddrPortString :: "Addr \<Rightarrow> 16 word \<Rightarrow> string" where
  "AddrPortString a port =
     (case a of
        AddrZero \<Rightarrow> ''invalid AddrPort''
      | Addr4 w \<Rightarrow> AddrString a @ '':'' @ FormatUint (unat port)
      | Addr6 w z \<Rightarrow> ''['' @ AddrString a @ '']:'' @ FormatUint (unat port))"

subsection \<open>Parsing addresses\<close>

text \<open>A decimal octet: one to three digits, no leading zero, at most 255.\<close>

definition octet :: "string \<Rightarrow> nat option" where
  "octet s =
     (if s = [] \<or> (length s > 1 \<and> hd s = CHR ''0'') then None
      else case dec_digits 0 s of Some n \<Rightarrow> (if n \<le> 255 then Some n else None) | None \<Rightarrow> None)"

definition parse4 :: "string \<Rightarrow> nat option" where
  "parse4 s =
     (case map octet (Split (CHR ''.'') s) of
        [Some a, Some b, Some c, Some d] \<Rightarrow> Some (((a * 256 + b) * 256 + c) * 256 + d)
      | _ \<Rightarrow> None)"

fun hex_field :: "nat \<Rightarrow> nat \<Rightarrow> string \<Rightarrow> (nat \<times> nat \<times> string) option" where
  "hex_field n k [] = Some (n, k, [])"
| "hex_field n k (c # s) =
     (case hex_val c of
        None \<Rightarrow> Some (n, k, c # s)
      | Some v \<Rightarrow> if k > 3 then None else hex_field (16 * n + v) (Suc k) s)"

text \<open>
  The loop over the groups of an IPv6 address: \<open>ip\<close> holds the 16-bit groups read so far,
  \<open>ell\<close> the position of \<open>::\<close>.  \<open>fuel\<close> is the number of groups still allowed; the
  result is what is left of the text.
\<close>

fun groups6 :: "nat \<Rightarrow> nat list \<Rightarrow> nat option \<Rightarrow> string \<Rightarrow> (nat list \<times> nat option \<times> string) option" where
  "groups6 0 ip ell s = Some (ip, ell, s)"
| "groups6 (Suc k) ip ell s =
     (case hex_field 0 0 s of
        None \<Rightarrow> None
      | Some (acc, off, rest) \<Rightarrow>
          if off = 0 then None
          else if rest \<noteq> [] \<and> hd rest = CHR ''.'' then
            (if (ell = None \<and> length ip \<noteq> 6) \<or> length ip + 2 > 8 then None
             else case parse4 s of
                 None \<Rightarrow> None
               | Some v \<Rightarrow> Some (ip @ [v div 65536, v mod 65536], ell, []))
          else
            (let ip = ip @ [acc] in
             case rest of
               [] \<Rightarrow> Some (ip, ell, [])
             | c # s \<Rightarrow>
                 if c \<noteq> CHR '':'' then None
                 else if s = [] then None
                 else if hd s = CHR '':'' then
                   (if ell \<noteq> None then None
                    else if tl s = [] then Some (ip, Some (length ip), [])
                    else groups6 k ip (Some (length ip)) (tl s))
                 else groups6 k ip ell s))"

definition of_groups :: "nat list \<Rightarrow> nat" where
  "of_groups gs = foldl (\<lambda>n g. n * 65536 + g) 0 gs"

definition parse6 :: "string \<Rightarrow> Addr option" where
  "parse6 s =
     (let body = takeWhile (\<lambda>c. c \<noteq> CHR ''%'') s; tail = dropWhile (\<lambda>c. c \<noteq> CHR ''%'') s;
          zone = tl tail
      in if tail \<noteq> [] \<and> zone = [] then None
         else
           (let lead = HasPrefix body ''::''; body' = (if lead then drop 2 body else body) in
            if lead \<and> body' = [] then Some (Addr6 0 zone)
            else case groups6 8 [] (if lead then Some 0 else None) body' of
                Some (ip, ell, []) \<Rightarrow>
                  (if length ip < 8 then
                     (case ell of
                        None \<Rightarrow> None
                      | Some e \<Rightarrow> Some (Addr6 (word_of_nat (of_groups
                          (take e ip @ replicate (8 - length ip) 0 @ drop e ip))) zone))
                   else if ell \<noteq> None then None
                   else Some (Addr6 (word_of_nat (of_groups ip)) zone))
              | _ \<Rightarrow> None))"

definition ParseAddr :: "string \<Rightarrow> Addr option" where
  "ParseAddr s =
     (case dropWhile (\<lambda>c. c \<notin> {CHR ''.'', CHR '':'', CHR ''%''}) s of
        [] \<Rightarrow> None
      | c # _ \<Rightarrow>
          if c = CHR ''.'' then map_option (\<lambda>n. Addr4 (word_of_nat n)) (parse4 s)
          else if c = CHR '':'' then parse6 s else None)"

lemma ParseAddr_valid: "ParseAddr s = Some a \<Longrightarrow> AddrIsValid a"
  by (auto simp: ParseAddr_def parse6_def Let_def split: list.splits if_splits option.splits)

subsection \<open>Prefixes, endpoints, host and port\<close>

text \<open>The text before and after the last separator.\<close>

definition CutLast :: "string \<Rightarrow> char \<Rightarrow> (string \<times> string) option" where
  "CutLast s c = (case Cut (rev s) c of None \<Rightarrow> None | Some (a, b) \<Rightarrow> Some (rev b, rev a))"

definition ParsePrefix :: "string \<Rightarrow> Prefix option" where
  "ParsePrefix s =
     (case CutLast s (CHR ''/'') of
        None \<Rightarrow> None
      | Some (ipStr, bitsStr) \<Rightarrow>
          (case ParseAddr ipStr of
             None \<Rightarrow> None
           | Some ip \<Rightarrow>
               if Zone ip \<noteq> [] then None
               else if length bitsStr > 1 \<and> (hd bitsStr < CHR ''1'' \<or> hd bitsStr > CHR ''9'') then None
               else case Atoi bitsStr of
                   None \<Rightarrow> None
                 | Some n \<Rightarrow> if n < 0 \<or> n > int (BitLen ip) then None else Some (PrefixFrom ip n)))"

definition ParseAddrPort :: "string \<Rightarrow> (Addr \<times> 16 word) option" where
  "ParseAddrPort s =
     (case CutLast s (CHR '':'') of
        None \<Rightarrow> None
      | Some (ip, port) \<Rightarrow>
          if ip = [] \<or> port = [] then None
          else
            (let br = (hd ip = CHR ''['') in
             if br \<and> (length ip < 2 \<or> last ip \<noteq> CHR '']'') then None
             else
               (let ip = (if br then butlast (tl ip) else ip) in
                case (ParseUint port 16, ParseAddr ip) of
                  (Some p, Some a) \<Rightarrow>
                    if (br \<and> Is4 a) \<or> (\<not> br \<and> Is6 a) then None else Some (a, word_of_nat p)
                | _ \<Rightarrow> None)))"

definition SplitHostPort :: "string \<Rightarrow> (string \<times> string) option" where
  "SplitHostPort s =
     (case CutLast s (CHR '':'') of
        None \<Rightarrow> None
      | Some (hostPart, port) \<Rightarrow>
          if s \<noteq> [] \<and> hd s = CHR ''['' then
            (case Cut s (CHR '']'') of
               None \<Rightarrow> None
             | Some (open_host, after) \<Rightarrow>
                 if after \<noteq> CHR '':'' # port then None
                 else if CHR ''['' \<in> set (tl s) \<or> CHR '']'' \<in> set after then None
                 else Some (tl open_host, port))
          else if CHR '':'' \<in> set hostPart then None
          else if CHR ''['' \<in> set s \<or> CHR '']'' \<in> set s then None
          else Some (hostPart, port))"

subsection \<open>IPv4 round trips\<close>

lemma digit_not_special [simp]:
  "d < 10 \<Longrightarrow> digit_char d \<noteq> CHR ''.''" "d < 10 \<Longrightarrow> digit_char d \<noteq> CHR ''/''"
  "d < 10 \<Longrightarrow> digit_char d \<noteq> CHR '':''" "d < 10 \<Longrightarrow> digit_char d \<noteq> CHR ''%''"
  "d < 10 \<Longrightarrow> digit_char d \<noteq> CHR '',''" "d < 10 \<Longrightarrow> digit_char d \<noteq> CHR ''-''" "d < 10 \<Longrightarrow> digit_char d \<noteq> CHR ''+''"
  by (auto simp: digit_char_def char_of_eq_iff take_bit_nat_eq_self)

lemma FormatUint_notin [simp]:
  "CHR ''.'' \<notin> set (FormatUint n)" "CHR ''/'' \<notin> set (FormatUint n)" "CHR '':'' \<notin> set (FormatUint n)"
  "CHR ''%'' \<notin> set (FormatUint n)" "CHR '','' \<notin> set (FormatUint n)"
  "CHR ''-'' \<notin> set (FormatUint n)" "CHR ''+'' \<notin> set (FormatUint n)"
  by (auto dest!: FormatUint_digits simp: digit_not_special [symmetric])

lemma digit_char_inject: "d < 10 \<Longrightarrow> e < 10 \<Longrightarrow> digit_char d = digit_char e \<longleftrightarrow> d = e"
  by (metis digit_val_char option.inject)

lemma FormatUint_hd: "n \<noteq> 0 \<Longrightarrow> hd (FormatUint n) \<noteq> digit_char 0"
proof (induction n rule: FormatUint.induct)
  case (1 n)
  show ?case
  proof (cases "n < 10")
    case True
    with 1(2) show ?thesis
      by (simp add: FormatUint.simps [of n] digit_char_inject)
  next
    case False
    then have "n div 10 \<noteq> 0" by simp
    with 1(1) [OF False] have "hd (FormatUint (n div 10)) \<noteq> digit_char 0" .
    with False show ?thesis by (simp add: FormatUint.simps [of n] hd_append)
  qed
qed

lemma length_FormatUint_small: "n < 10 \<Longrightarrow> length (FormatUint n) = 1"
  by (simp add: FormatUint.simps [of n])

lemma octet_FormatUint [simp]: "n \<le> 255 \<Longrightarrow> octet (FormatUint n) = Some n"
proof -
  assume n: "n \<le> 255"
  have "digit_char 0 = CHR ''0''" by (simp add: digit_char_def char_of_eq_iff)
  then have "\<not> (length (FormatUint n) > 1 \<and> hd (FormatUint n) = CHR ''0'')"
    using FormatUint_hd [of n] length_FormatUint_small [of n] by (cases "n = 0") auto
  with n show ?thesis by (simp add: octet_def dec_digits_FormatUint)
qed

lemma octets_le: "x \<in> set (octets n) \<Longrightarrow> x \<le> 255"
proof -
  have "k mod 256 \<le> 255" for k :: nat using mod_less_divisor [of 256 k] by linarith
  then show "x \<in> set (octets n) \<Longrightarrow> x \<le> 255" by (auto simp: octets_def)
qed

lemma octets_value:
  fixes n :: nat
  assumes "n < 2 ^ 32"
  shows "((n div 16777216 mod 256 * 256 + n div 65536 mod 256) * 256 + n div 256 mod 256) * 256 + n mod 256 = n"
proof -
  have "n div 16777216 mod 256 = n div 65536 div 256" using assms by (simp add: div_mult2_eq [symmetric])
  moreover have "n div 65536 = n div 256 div 256" by (simp add: div_mult2_eq [symmetric])
  ultimately show ?thesis by (simp add: div_mult_mod_eq)
qed

lemma String4_dot: "dropWhile (\<lambda>c. c \<notin> {CHR ''.'', CHR '':'', CHR ''%''}) (String4 n) \<noteq> [] \<and>
  hd (dropWhile (\<lambda>c. c \<notin> {CHR ''.'', CHR '':'', CHR ''%''}) (String4 n)) = CHR ''.''"
proof -
  obtain b where s: "String4 n = FormatUint (n div 16777216 mod 256) @ CHR ''.'' # b"
    by (simp add: String4_def octets_def)
  have "c \<in> set (FormatUint (n div 16777216 mod 256)) \<Longrightarrow> c \<notin> {CHR ''.'', CHR '':'', CHR ''%''}" for c
    by auto
  then have "dropWhile (\<lambda>c. c \<notin> {CHR ''.'', CHR '':'', CHR ''%''}) (String4 n) = CHR ''.'' # b"
    unfolding s by (subst dropWhile_append2) auto
  then show ?thesis by simp
qed

lemma parse4_String4: "n < 2 ^ 32 \<Longrightarrow> parse4 (String4 n) = Some n"
proof -
  assume n: "n < 2 ^ 32"
  obtain a b c d where os: "octets n = [a, b, c, d]" and v: "((a * 256 + b) * 256 + c) * 256 + d = n"
    using octets_value [OF n] unfolding octets_def by blast
  have "Split (CHR ''.'') (String4 n) = map FormatUint (octets n)"
    unfolding String4_def by (rule Split_Join) (auto simp: os)
  moreover have "octet (FormatUint x) = Some x" if "x \<in> {a, b, c, d}" for x
    using octets_le [of x n] that by (simp add: os)
  ultimately show ?thesis using v by (simp add: parse4_def os)
qed

lemma ParseAddr_String4 [simp]: "ParseAddr (AddrString (Addr4 w)) = Some (Addr4 w)"
proof -
  have "unat w < 2 ^ 32" using unsigned_less [of w, where 'a = nat] by simp
  then show ?thesis
    using String4_dot [of "unat w"] by (auto simp: ParseAddr_def AddrString_def parse4_String4 split: list.splits)
qed

lemma CutLast_append: "c \<notin> set t \<Longrightarrow> CutLast (s @ c # t) c = Some (s, t)"
  by (simp add: CutLast_def Cut_append)

lemma Atoi_FormatUint: "n < 2 ^ 63 \<Longrightarrow> Atoi (FormatUint n) = Some (int n)"
proof -
  assume n: "n < 2 ^ 63"
  have "hd (FormatUint n) \<in> set (FormatUint n)" by simp
  then have "hd (FormatUint n) \<noteq> CHR ''-''" "hd (FormatUint n) \<noteq> CHR ''+''"
    by (metis FormatUint_notin(6), metis FormatUint_notin(7))
  with n show ?thesis by (simp add: Atoi_def dec_digits_FormatUint)
qed

lemma prefix_bits_text:
  "n \<le> 128 \<Longrightarrow> \<not> (length (FormatUint n) > 1 \<and> (hd (FormatUint n) < CHR ''1'' \<or> hd (FormatUint n) > CHR ''9''))"
proof -
  assume "n \<le> 128"
  have "hd (FormatUint n) \<in> set (FormatUint n)" by simp
  then obtain d where d: "d < 10" "hd (FormatUint n) = digit_char d" by (meson FormatUint_digits)
  have "1 < length (FormatUint n) \<Longrightarrow> d \<noteq> 0"
    using FormatUint_hd [of n] length_FormatUint_small [of n] d by (metis less_irrefl zero_less_numeral)
  then have "1 < length (FormatUint n) \<Longrightarrow> \<not> (digit_char d < CHR ''1'' \<or> digit_char d > CHR ''9'')"
    using d(1) by (auto simp: digit_char_def less_char_def)
  with d(2) show ?thesis by auto
qed

text \<open>An IPv4 prefix prints and parses back.\<close>

lemma ParsePrefix_String4:
  assumes "pfxAddr p = Addr4 w" and "0 \<le> pfxBits p" and "pfxBits p \<le> 32"
  shows "ParsePrefix (PrefixString p) = Some p"
proof -
  obtain n where n: "pfxBits p = int n" "n \<le> 32" using assms by (metis nonneg_int_cases nat_le_iff nat_int of_nat_le_numeral_iff)
  have "CutLast (AddrString (Addr4 w) @ CHR ''/'' # FormatUint n) (CHR ''/'') = Some (AddrString (Addr4 w), FormatUint n)"
    by (rule CutLast_append) simp
  moreover have "PrefixString p = AddrString (Addr4 w) @ CHR ''/'' # FormatUint n"
    using assms n by (simp add: PrefixString_def PrefixIsValid_def Itoa_def)
  moreover have "Atoi (FormatUint n) = Some (int n)" using n by (intro Atoi_FormatUint) simp
  ultimately show ?thesis
    using assms n prefix_bits_text [of n]
    by (cases p) (auto simp: ParsePrefix_def PrefixFrom_def)
qed

end
