(* ===== verification/Sha1.thy ===== *)
theory Sha1
  imports Prelude
begin

unbundle bit_operations_syntax

text \<open>
  \<open>crypto/sha1\<close>: the hash that names keys.  The message schedule is kept as a sliding
  window of sixteen words, and a round consumes the head of the window.  Nothing proved
  elsewhere depends on how the digest is computed, only on its length; the definition is
  here so that identifiers can be computed.
\<close>

type_synonym u32 = "32 word"
type_synonym sha1_state = "u32 \<times> u32 \<times> u32 \<times> u32 \<times> u32"

definition rotl :: "nat \<Rightarrow> u32 \<Rightarrow> u32" where
  "rotl n w = push_bit n w OR drop_bit (32 - n) w"

definition sha1_f :: "nat \<Rightarrow> u32 \<Rightarrow> u32 \<Rightarrow> u32 \<Rightarrow> u32" where
  "sha1_f t b c d =
     (if t < 20 then (b AND c) OR (NOT b AND d)
      else if t < 40 then b XOR c XOR d
      else if t < 60 then (b AND c) OR (b AND d) OR (c AND d)
      else b XOR c XOR d)"

definition sha1_k :: "nat \<Rightarrow> u32" where
  "sha1_k t = (if t < 20 then 0x5A827999 else if t < 40 then 0x6ED9EBA1
               else if t < 60 then 0x8F1BBCDC else 0xCA62C1D6)"

definition sha1_next :: "u32 list \<Rightarrow> u32" where
  "sha1_next ws = rotl 1 (ws ! 13 XOR ws ! 8 XOR ws ! 2 XOR ws ! 0)"

definition sha1_round :: "nat \<Rightarrow> u32 \<Rightarrow> sha1_state \<Rightarrow> sha1_state" where
  "sha1_round t w s = (case s of (a, b, c, d, e) \<Rightarrow>
     (rotl 5 a + sha1_f t b c d + e + sha1_k t + w, a, rotl 30 b, c, d))"

fun sha1_rounds :: "nat \<Rightarrow> nat \<Rightarrow> u32 list \<Rightarrow> sha1_state \<Rightarrow> sha1_state" where
  "sha1_rounds 0 t ws s = s"
| "sha1_rounds (Suc n) t ws s =
     sha1_rounds n (Suc t) (tl ws @ [sha1_next ws]) (sha1_round t (hd ws) s)"

fun be_words :: "bytes \<Rightarrow> u32 list" where
  "be_words (a # b # c # d # rest) =
     (push_bit 24 (ucast a) OR push_bit 16 (ucast b) OR push_bit 8 (ucast c) OR ucast d) # be_words rest"
| "be_words _ = []"

definition sha1_add :: "sha1_state \<Rightarrow> sha1_state \<Rightarrow> sha1_state" where
  "sha1_add s t = (case s of (a, b, c, d, e) \<Rightarrow> case t of (a', b', c', d', e') \<Rightarrow>
     (a + a', b + b', c + c', d + d', e + e'))"

fun sha1_blocks :: "nat \<Rightarrow> bytes \<Rightarrow> sha1_state \<Rightarrow> sha1_state" where
  "sha1_blocks 0 m s = s"
| "sha1_blocks (Suc n) m s =
     sha1_blocks n (drop 64 m) (sha1_add s (sha1_rounds 80 0 (be_words (take 64 m)) s))"

definition sha1_pad :: "bytes \<Rightarrow> bytes" where
  "sha1_pad m = m @ [0x80] @ replicate ((119 - length m mod 64) mod 64) 0 @ be_bytes 8 (8 * length m)"

definition sha1_init :: sha1_state where
  "sha1_init = (0x67452301, 0xEFCDAB89, 0x98BADCFE, 0x10325476, 0xC3D2E1F0)"

definition u32_bytes :: "u32 \<Rightarrow> bytes" where
  "u32_bytes w = [ucast (drop_bit 24 w), ucast (drop_bit 16 w), ucast (drop_bit 8 w), ucast w]"

definition sha1_Sum :: "bytes \<Rightarrow> bytes" where
  "sha1_Sum m = (let p = sha1_pad m in
     case sha1_blocks (length p div 64) p sha1_init of (a, b, c, d, e) \<Rightarrow>
       u32_bytes a @ u32_bytes b @ u32_bytes c @ u32_bytes d @ u32_bytes e)"

lemma length_sha1_Sum [simp]: "length (sha1_Sum m) = 20"
  by (simp add: sha1_Sum_def u32_bytes_def Let_def split: prod.split)

end
