(* ===== verification/Descr.thy ===== *)
theory Descr
  imports NetText Sha1
begin

text \<open>
  The record codec of \<open>internal/descr\<close>: the fixed-size binary record kept in a key's
  description field, a six-byte magic and a version byte followed by a tag-length-value
  stream and zero padding.  The record length is a build constant with two values, so every
  definition takes the build's \<open>tags\<close>.  A fixed-size array of the source is a list whose
  length the well-formedness predicates state.
\<close>

subsection \<open>Constants\<close>

datatype size_tags = size_default | size_descr64

fun Size :: "size_tags \<Rightarrow> nat" where
  "Size size_default = 128"
| "Size size_descr64 = 64"

definition MagicInterface :: string where "MagicInterface = ''WG:if:''"
definition MagicPeer :: string where "MagicPeer = ''WG:pr:''"
definition magicLen :: nat where "magicLen = 6"
definition Version :: byte where "Version = 2"
definition headerLen :: nat where "headerLen = magicLen + 1"
definition DefaultMTU :: "16 word" where "DefaultMTU = 1420"

definition tagEnd :: byte where "tagEnd = 0x00"
definition TagADDR4 :: byte where "TagADDR4 = 0x01"
definition TagADDR6 :: byte where "TagADDR6 = 0x02"
definition TagMTU :: byte where "TagMTU = 0x03"
definition TagDNS4 :: byte where "TagDNS4 = 0x04"
definition TagDNS6 :: byte where "TagDNS6 = 0x05"
definition TagPeerRef :: byte where "TagPeerRef = 0x06"
definition TagListenPort :: byte where "TagListenPort = 0x07"
definition TagMAC :: byte where "TagMAC = 0x7F"

definition TagEndpoint4 :: byte where "TagEndpoint4 = 0x10"
definition TagEndpoint6 :: byte where "TagEndpoint6 = 0x11"
definition TagEndpointHost :: byte where "TagEndpointHost = 0x12"
definition TagAIP4 :: byte where "TagAIP4 = 0x13"
definition TagAIP6 :: byte where "TagAIP6 = 0x14"
definition TagKeepalive :: byte where "TagKeepalive = 0x15"
definition TagPSKWrapped :: byte where "TagPSKWrapped = 0x16"

lemmas if_tag_defs = TagADDR4_def TagADDR6_def TagMTU_def TagDNS4_def TagDNS6_def
  TagPeerRef_def TagListenPort_def TagMAC_def tagEnd_def
lemmas peer_tag_defs = TagEndpoint4_def TagEndpoint6_def TagEndpointHost_def TagAIP4_def
  TagAIP6_def TagKeepalive_def TagPSKWrapped_def tagEnd_def

definition MACLen :: nat where "MACLen = 32"
definition PSKWrappedLen :: nat where "PSKWrappedLen = 40"

definition MaxHostname :: "size_tags \<Rightarrow> nat" where
  "MaxHostname sz = min 60 (Size sz - headerLen - 4)"

definition PeerRefLen :: nat where "PeerRefLen = 4"
definition KIDLen :: nat where "KIDLen = 16"

lemmas descr_lens = magicLen_def headerLen_def MACLen_def PSKWrappedLen_def PeerRefLen_def KIDLen_def

subsection \<open>Errors\<close>

text \<open>One constructor per failing return of the package, with the values its message carries.\<close>

datatype descr_error =
    ErrShort
  | ErrTooLong nat
  | ErrMagic bytes
  | ErrVersion byte
  | ErrPadding nat
  | ErrTagOrder byte byte
  | ErrNoLength byte nat
  | ErrLength byte nat nat nat
  | ErrExpect byte nat nat
  | ErrRepeated byte
  | ErrZero byte
  | ErrMalformedAddr
  | ErrPrefixLen nat
  | ErrFollowsMAC byte
  | ErrMACNotLast
  | ErrUnknownTag byte
  | ErrEndpoints nat
  | ErrHostLen nat
  | ErrNeedsEndpoint
  | ErrInvalidPrefix string
  | ErrInvalidDNS
  | ErrPSKLen nat
  | ErrValueLen byte nat
  | ErrOverflow string nat nat
  | ErrKIDHex
  | ErrKIDLen nat

subsection \<open>Identifiers and references\<close>

type_synonym PeerRef = bytes

definition KID :: "bytes \<Rightarrow> string" where
  "KID pubKey = hexEncodeToString (take KIDLen (sha1_Sum pubKey))"

definition MakePeerRef :: "bytes \<Rightarrow> PeerRef" where
  "MakePeerRef pubKey = take PeerRefLen (sha1_Sum pubKey)"

definition PeerRefFromKID :: "string \<Rightarrow> descr_error + PeerRef" where
  "PeerRefFromKID kid =
     (case hexDecodeString (TrimSpace kid) of
        None \<Rightarrow> Inl ErrKIDHex
      | Some raw \<Rightarrow> if length raw \<noteq> KIDLen then Inl (ErrKIDLen (length raw)) else Inr (take PeerRefLen raw))"

lemma length_MakePeerRef [simp]: "length (MakePeerRef k) = 4"
  by (simp add: MakePeerRef_def PeerRefLen_def)

lemma length_KID [simp]: "length (KID k) = 32"
  by (simp add: KID_def KIDLen_def)

lemma PeerRefFromKID_KID: "PeerRefFromKID (KID k) = Inr (MakePeerRef k)"
  by (simp add: PeerRefFromKID_def KID_def MakePeerRef_def KIDLen_def PeerRefLen_def min_def)

subsection \<open>Records\<close>

record Interface =
  Addrs :: "Prefix list"
  MTU :: "16 word"
  DNS :: "Addr list"
  PeerRefs :: "PeerRef list"
  ListenPort :: "16 word"
  MAC :: bytes
  HasMAC :: bool

definition zeroMAC :: bytes where "zeroMAC = replicate MACLen 0"

definition emptyInterface :: Interface where
  "emptyInterface = \<lparr>Addrs = [], MTU = 0, DNS = [], PeerRefs = [], ListenPort = 0, MAC = zeroMAC, HasMAC = False\<rparr>"

record Endpoint =
  IP :: Addr
  Host :: string
  Port :: "16 word"

definition emptyEndpoint :: Endpoint where
  "emptyEndpoint = \<lparr>IP = AddrZero, Host = [], Port = 0\<rparr>"

definition IsZero :: "Endpoint \<Rightarrow> bool" where
  "IsZero e \<longleftrightarrow> \<not> AddrIsValid (IP e) \<and> Host e = []"

definition Endpoint_String :: "Endpoint \<Rightarrow> string" where
  "Endpoint_String e =
     (if Host e \<noteq> [] then Host e @ '':'' @ FormatUint (unat (Port e))
      else if \<not> AddrIsValid (IP e) then [] else AddrPortString (IP e) (Port e))"

text \<open>\<open>PSKWrapped\<close> is a slice: nil and empty are both \<open>[]\<close>, and the source only asks for its length.\<close>

record Peer =
  peerEndpoint :: Endpoint
  AllowedIPs :: "Prefix list"
  Keepalive :: byte
  PSKWrapped :: bytes

definition emptyPeer :: Peer where
  "emptyPeer = \<lparr>peerEndpoint = emptyEndpoint, AllowedIPs = [], Keepalive = 0, PSKWrapped = []\<rparr>"

subsection \<open>Writing\<close>

record writer =
  buf :: bytes
  werr :: "descr_error option"

definition tlv :: "byte \<Rightarrow> bytes \<Rightarrow> writer \<Rightarrow> writer" where
  "tlv tag value w =
     (if werr w \<noteq> None then w
      else if length value > 255 then w\<lparr>werr := Some (ErrValueLen tag (length value))\<rparr>
      else w\<lparr>buf := buf w @ [tag, word_of_nat (length value)] @ value\<rparr>)"

text \<open>\<open>copy(out[:], buf)\<close> into a zeroed array of \<open>Size\<close> bytes.\<close>

definition pad :: "size_tags \<Rightarrow> bytes \<Rightarrow> bytes" where
  "pad sz b = take (Size sz) (b @ replicate (Size sz - length b) 0)"

definition finish :: "size_tags \<Rightarrow> string \<Rightarrow> writer \<Rightarrow> descr_error + bytes" where
  "finish sz kind w =
     (case werr w of Some e \<Rightarrow> Inl e | None \<Rightarrow>
        if length (buf w) > Size sz
        then Inl (ErrOverflow kind (length (buf w)) (length (buf w) - Size sz))
        else Inr (pad sz (buf w)))"

definition appendPrefix4 :: "byte \<Rightarrow> Prefix \<Rightarrow> writer \<Rightarrow> writer" where
  "appendPrefix4 tag p = tlv tag (As4 (pfxAddr p) @ [word_of_int (pfxBits p)])"

definition appendPrefix6 :: "byte \<Rightarrow> Prefix \<Rightarrow> writer \<Rightarrow> writer" where
  "appendPrefix6 tag p = tlv tag (As16 (pfxAddr p) @ [word_of_int (pfxBits p)])"

definition be16 :: "16 word \<Rightarrow> bytes" where
  "be16 v = be_bytes 2 (unat v)"

definition Uint16 :: "bytes \<Rightarrow> 16 word" where
  "Uint16 b = word_of_nat (be_nat (take 2 b))"

definition encodePrefixes ::
    "writer \<Rightarrow> Prefix list \<Rightarrow> byte \<Rightarrow> byte \<Rightarrow> string \<Rightarrow> descr_error + writer" where
  "encodePrefixes w prefixes tag4 tag6 what =
     (if \<exists>p \<in> set prefixes. \<not> PrefixIsValid p then Inl (ErrInvalidPrefix what)
      else Inr (fold (\<lambda>p w. if \<not> Is4 (pfxAddr p) then appendPrefix6 tag6 p w else w) prefixes
                 (fold (\<lambda>p w. if Is4 (pfxAddr p) then appendPrefix4 tag4 p w else w) prefixes w)))"

text \<open>The DNS loop: two passes, IPv4 then IPv6, each refusing an invalid address.\<close>

fun encodeDNS :: "bool \<Rightarrow> Addr list \<Rightarrow> writer \<Rightarrow> descr_error + writer" where
  "encodeDNS pass [] w = Inr w"
| "encodeDNS pass (d # ds) w =
     (if \<not> AddrIsValid d then Inl ErrInvalidDNS
      else if Is4 d \<noteq> pass then encodeDNS pass ds w
      else if pass then encodeDNS pass ds (tlv TagDNS4 (As4 d) w)
      else encodeDNS pass ds (tlv TagDNS6 (As16 d) w))"

definition startWriter :: "string \<Rightarrow> writer" where
  "startWriter magic = \<lparr>buf = bytes_of magic @ [Version], werr = None\<rparr>"

definition Interface_Encode :: "size_tags \<Rightarrow> Interface \<Rightarrow> descr_error + bytes" where
  "Interface_Encode sz i =
     bindE (encodePrefixes (startWriter MagicInterface) (Addrs i) TagADDR4 TagADDR6 ''interface address'')
       (\<lambda>w. let w = (if MTU i \<noteq> 0 then tlv TagMTU (be16 (MTU i)) w else w) in
     bindE (encodeDNS True (DNS i) w) (\<lambda>w.
     bindE (encodeDNS False (DNS i) w) (\<lambda>w.
       let w = fold (tlv TagPeerRef) (PeerRefs i) w;
           w = (if ListenPort i \<noteq> 0 then tlv TagListenPort (be16 (ListenPort i)) w else w);
           w = (if HasMAC i then tlv TagMAC (MAC i) w else w)
       in finish sz ''interface'' w)))"

definition Peer_Encode :: "size_tags \<Rightarrow> Peer \<Rightarrow> descr_error + bytes" where
  "Peer_Encode sz p =
     (let w = startWriter MagicPeer; e = peerEndpoint p in
      bindE (if Host e \<noteq> [] then
               (if length (Host e) > MaxHostname sz then Inl (ErrHostLen (length (Host e)))
                else Inr (tlv TagEndpointHost (be16 (Port e) @ bytes_of (Host e)) w))
             else if Is4 (IP e) then Inr (tlv TagEndpoint4 (As4 (IP e) @ be16 (Port e)) w)
             else if AddrIsValid (IP e) then Inr (tlv TagEndpoint6 (As16 (IP e) @ be16 (Port e)) w)
             else Inl ErrNeedsEndpoint) (\<lambda>w.
      bindE (encodePrefixes w (AllowedIPs p) TagAIP4 TagAIP6 ''allowed-ip'') (\<lambda>w.
      let w = (if Keepalive p \<noteq> 0 then tlv TagKeepalive [Keepalive p] w else w) in
      bindE (if length (PSKWrapped p) > 0 then
               (if length (PSKWrapped p) \<noteq> PSKWrappedLen then Inl (ErrPSKLen (length (PSKWrapped p)))
                else Inr (tlv TagPSKWrapped (PSKWrapped p) w))
             else Inr w) (\<lambda>w. finish sz ''peer'' w))))"

subsection \<open>Reading\<close>

type_synonym tlvItem = "byte \<times> bytes"

text \<open>The offset of the first non-zero byte, counting from \<open>j\<close>.\<close>

fun firstNonZero :: "nat \<Rightarrow> bytes \<Rightarrow> nat option" where
  "firstNonZero j [] = None"
| "firstNonZero j (x # xs) = (if x \<noteq> 0 then Some j else firstNonZero (Suc j) xs)"

text \<open>The loop of \<open>parse\<close>: \<open>i\<close> is the offset, the list is \<open>b[i:]\<close>.\<close>

function parseLoop :: "nat \<Rightarrow> byte \<Rightarrow> bytes \<Rightarrow> descr_error + tlvItem list" where
  "parseLoop i lastTag [] = Inr []"
| "parseLoop i lastTag (tag # rest) =
     (if tag = tagEnd then
        (case firstNonZero i (tag # rest) of Some j \<Rightarrow> Inl (ErrPadding j) | None \<Rightarrow> Inr [])
      else if tag < lastTag then Inl (ErrTagOrder tag lastTag)
      else (case rest of
          [] \<Rightarrow> Inl (ErrNoLength tag i)
        | l # body \<Rightarrow>
            (let n = unat l in
             if n > length body then Inl (ErrLength tag i n (length body))
             else bindE (parseLoop (i + 2 + n) tag (drop n body))
                    (\<lambda>items. Inr ((tag, take n body) # items)))))"
  by pat_completeness auto
termination
  by (relation "measure (\<lambda>(i, t, b). length b)") auto

definition parse :: "size_tags \<Rightarrow> bytes \<Rightarrow> string \<Rightarrow> descr_error + tlvItem list" where
  "parse sz b magic =
     (if length b < headerLen then Inl ErrShort
      else if length b > Size sz then Inl (ErrTooLong (length b))
      else if take magicLen b \<noteq> bytes_of magic then Inl (ErrMagic (take magicLen b))
      else if b ! magicLen \<noteq> Version then Inl (ErrVersion (b ! magicLen))
      else parseLoop headerLen 0 (drop headerLen b))"

definition expect :: "byte \<Rightarrow> bytes \<Rightarrow> nat \<Rightarrow> descr_error + unit" where
  "expect tag value n = failIf (length value \<noteq> n) (ErrExpect tag (length value) n)"

text \<open>\<open>once\<close> updates the map of seen tags it is handed.\<close>

definition once :: "(byte \<Rightarrow> bool) \<Rightarrow> byte \<Rightarrow> descr_error + (byte \<Rightarrow> bool)" where
  "once seen tag = (if seen tag then Inl (ErrRepeated tag) else Inr (seen(tag := True)))"

definition nonZero :: "byte \<Rightarrow> nat \<Rightarrow> descr_error + unit" where
  "nonZero tag v = failIf (v = 0) (ErrZero tag)"

definition prefixFrom :: "bytes \<Rightarrow> nat \<Rightarrow> descr_error + Prefix" where
  "prefixFrom value addrLen =
     (case AddrFromSlice (take addrLen value) of
        None \<Rightarrow> Inl ErrMalformedAddr
      | Some addr \<Rightarrow>
          (let bits = unat (value ! addrLen); p = PrefixFrom addr (int bits)
           in if \<not> PrefixIsValid p then Inl (ErrPrefixLen bits) else Inr p))"

text \<open>
  \<open>a, _ := netip.AddrFromSlice(b)\<close>: the zero address when the length is neither 4 nor 16,
  which the length check before every such call excludes.
\<close>

definition addrOf :: "bytes \<Rightarrow> Addr" where
  "addrOf b = (case AddrFromSlice b of None \<Rightarrow> AddrZero | Some a \<Rightarrow> a)"

definition ifItem :: "tlvItem list \<Rightarrow> byte \<Rightarrow> bytes \<Rightarrow> Interface \<Rightarrow> (byte \<Rightarrow> bool) \<Rightarrow>
    descr_error + Interface \<times> (byte \<Rightarrow> bool)" where
  "ifItem later tag value out seen =
     (if tag = TagADDR4 then
        bindE (expect tag value 5) (\<lambda>_. bindE (prefixFrom value 4) (\<lambda>p.
          Inr (out\<lparr>Addrs := Addrs out @ [p]\<rparr>, seen)))
      else if tag = TagADDR6 then
        bindE (expect tag value 17) (\<lambda>_. bindE (prefixFrom value 16) (\<lambda>p.
          Inr (out\<lparr>Addrs := Addrs out @ [p]\<rparr>, seen)))
      else if tag = TagMTU then
        bindE (once seen tag) (\<lambda>seen. bindE (expect tag value 2) (\<lambda>_.
          bindE (nonZero tag (unat (Uint16 value))) (\<lambda>_. Inr (out\<lparr>MTU := Uint16 value\<rparr>, seen))))
      else if tag = TagDNS4 then
        bindE (expect tag value 4) (\<lambda>_. Inr (out\<lparr>DNS := DNS out @ [addrOf value]\<rparr>, seen))
      else if tag = TagDNS6 then
        bindE (expect tag value 16) (\<lambda>_. Inr (out\<lparr>DNS := DNS out @ [addrOf value]\<rparr>, seen))
      else if tag = TagPeerRef then
        bindE (expect tag value PeerRefLen) (\<lambda>_. Inr (out\<lparr>PeerRefs := PeerRefs out @ [value]\<rparr>, seen))
      else if tag = TagListenPort then
        bindE (once seen tag) (\<lambda>seen. bindE (expect tag value 2) (\<lambda>_.
          bindE (nonZero tag (unat (Uint16 value))) (\<lambda>_. Inr (out\<lparr>ListenPort := Uint16 value\<rparr>, seen))))
      else if tag = TagMAC then
        bindE (once seen tag) (\<lambda>seen. bindE (expect tag value MACLen) (\<lambda>_.
          bindE (failIf (later \<noteq> []) ErrMACNotLast) (\<lambda>_.
            Inr (out\<lparr>MAC := value, HasMAC := True\<rparr>, seen))))
      else Inl (ErrUnknownTag tag))"

text \<open>\<open>n != len(items)-1\<close> is that items remain after this one.\<close>

fun ifItems :: "tlvItem list \<Rightarrow> Interface \<Rightarrow> (byte \<Rightarrow> bool) \<Rightarrow> descr_error + Interface" where
  "ifItems [] out seen = Inr out"
| "ifItems ((tag, value) # later) out seen =
     (if seen TagMAC then Inl (ErrFollowsMAC tag)
      else bindE (ifItem later tag value out seen) (\<lambda>(out, seen). ifItems later out seen))"

definition DecodeInterface :: "size_tags \<Rightarrow> bytes \<Rightarrow> descr_error + Interface" where
  "DecodeInterface sz b =
     bindE (parse sz b MagicInterface) (\<lambda>items. ifItems items emptyInterface (\<lambda>_. False))"

definition peerItem :: "size_tags \<Rightarrow> byte \<Rightarrow> bytes \<Rightarrow> Peer \<Rightarrow> (byte \<Rightarrow> bool) \<Rightarrow> nat \<Rightarrow>
    descr_error + Peer \<times> (byte \<Rightarrow> bool) \<times> nat" where
  "peerItem sz tag value out seen endpoints =
     (if tag = TagEndpoint4 then
        bindE (expect tag value 6) (\<lambda>_.
          Inr (out\<lparr>peerEndpoint := \<lparr>IP = addrOf (take 4 value), Host = [], Port = Uint16 (drop 4 value)\<rparr>\<rparr>,
               seen, Suc endpoints))
      else if tag = TagEndpoint6 then
        bindE (expect tag value 18) (\<lambda>_.
          Inr (out\<lparr>peerEndpoint := \<lparr>IP = addrOf (take 16 value), Host = [], Port = Uint16 (drop 16 value)\<rparr>\<rparr>,
               seen, Suc endpoints))
      else if tag = TagEndpointHost then
        bindE (failIf (length value < 3 \<or> length value > 2 + MaxHostname sz) (ErrHostLen (length value))) (\<lambda>_.
          Inr (out\<lparr>peerEndpoint := \<lparr>IP = AddrZero, Host = string_of (drop 2 value), Port = Uint16 (take 2 value)\<rparr>\<rparr>,
               seen, Suc endpoints))
      else if tag = TagAIP4 then
        bindE (expect tag value 5) (\<lambda>_. bindE (prefixFrom value 4) (\<lambda>p.
          Inr (out\<lparr>AllowedIPs := AllowedIPs out @ [p]\<rparr>, seen, endpoints)))
      else if tag = TagAIP6 then
        bindE (expect tag value 17) (\<lambda>_. bindE (prefixFrom value 16) (\<lambda>p.
          Inr (out\<lparr>AllowedIPs := AllowedIPs out @ [p]\<rparr>, seen, endpoints)))
      else if tag = TagKeepalive then
        bindE (once seen tag) (\<lambda>seen. bindE (expect tag value 1) (\<lambda>_.
          bindE (nonZero tag (unat (value ! 0))) (\<lambda>_. Inr (out\<lparr>Keepalive := value ! 0\<rparr>, seen, endpoints))))
      else if tag = TagPSKWrapped then
        bindE (once seen tag) (\<lambda>seen. bindE (expect tag value PSKWrappedLen) (\<lambda>_.
          Inr (out\<lparr>PSKWrapped := value\<rparr>, seen, endpoints)))
      else Inl (ErrUnknownTag tag))"

fun peerItems :: "size_tags \<Rightarrow> tlvItem list \<Rightarrow> Peer \<Rightarrow> (byte \<Rightarrow> bool) \<Rightarrow> nat \<Rightarrow> descr_error + Peer \<times> nat" where
  "peerItems sz [] out seen endpoints = Inr (out, endpoints)"
| "peerItems sz ((tag, value) # later) out seen endpoints =
     bindE (peerItem sz tag value out seen endpoints)
       (\<lambda>(out, seen, endpoints). peerItems sz later out seen endpoints)"

definition DecodePeer :: "size_tags \<Rightarrow> bytes \<Rightarrow> descr_error + Peer" where
  "DecodePeer sz b =
     bindE (parse sz b MagicPeer) (\<lambda>items.
     bindE (peerItems sz items emptyPeer (\<lambda>_. False) 0) (\<lambda>(out, endpoints).
       if endpoints \<noteq> 1 then Inl (ErrEndpoints endpoints) else Inr out))"

subsection \<open>Normalize, ZeroMAC, ExplainSize\<close>

definition Normalize :: "size_tags \<Rightarrow> bytes \<Rightarrow> descr_error + bytes" where
  "Normalize sz b =
     (if length b > Size sz then Inl (ErrTooLong (length b))
      else if length b < headerLen then Inl ErrShort
      else Inr (pad sz b))"

text \<open>\<open>ZeroMAC\<close> walks the parsed items again to recover the offset of the MAC's value.\<close>

fun zeroFrom :: "nat \<Rightarrow> tlvItem list \<Rightarrow> bytes \<Rightarrow> bytes" where
  "zeroFrom off [] out = out"
| "zeroFrom off ((tag, value) # items) out =
     (if tag = TagMAC
      then take (off + 2) out @ replicate (length value) 0 @ drop (off + 2 + length value) out
      else zeroFrom (off + 2 + length value) items out)"

definition ZeroMAC :: "size_tags \<Rightarrow> bytes \<Rightarrow> descr_error + bytes" where
  "ZeroMAC sz rec = bindE (parse sz rec MagicInterface) (\<lambda>items. Inr (zeroFrom headerLen items rec))"

definition ExplainSize :: "size_tags \<Rightarrow> int \<Rightarrow> string" where
  "ExplainSize sz observed =
     (if observed \<le> 0 \<or> observed = int (Size sz) then []
      else ''The device returned '' @ Itoa observed @ ''-byte configuration records and this build reads ''
           @ Itoa (int (Size sz)) @ ''-byte ones. ''
           @ ''That alone produces this, and it is not tampering: the record length is part of ''
           @ ''what the configuration MAC covers, so the two cannot read each other's records. ''
           @ ''`wg-hem version` reports the size this build was made for - install the build that ''
           @ ''matches the appliance's firmware.'')"

end
