(* ===== verification/Errors.thy ===== *)
theory Errors
  imports Descr
begin

text \<open>
  Errors as values.  An error is a tree: a leaf is what a component or the device reported, a
  node is a \<open>fmt.Errorf\<close> with \<open>%w\<close> verbs, a session error that carries a kind, or a
  command error that carries an exit code.  A message is represented by its format string;
  the values printed into it are not kept.  \<open>errors.Is\<close> and \<open>errors.As\<close> search the tree
  in pre-order, as the standard library does.  The theory then models
  \<open>internal/session/errors.go\<close> and the command's own numbering of it
  (\<open>cmd/wg-hem/auth.go\<close>, \<open>main.go\<close>, \<open>verify.go\<close>, and the daemon's
  \<open>classifyLoadKind\<close>).
\<close>

subsection \<open>The error tree\<close>

datatype Kind = KindDevice | KindNetwork | KindAuth | KindIntegrity | KindUsage

text \<open>
  \<open>OutOfFuel\<close> stands for a paging loop that has not ended within its fuel, and
  \<open>Panic\<close> for a run-time panic, which passes every handler.
\<close>

datatype error =
    HemError (heStatus: int) (heCode: string)
  | DescrError descr_error
  | ErrNotAuthentic
  | Msg string
  | Wrap string "error list"
  | SessionError (seKind: Kind) error
  | ExitError (eeCode: int) error
  | OutOfFuel
  | Panic

text \<open>The tree in the order \<open>errors.Is\<close> and \<open>errors.As\<close> visit it.\<close>

fun unwrapped :: "error \<Rightarrow> error list" where
  "unwrapped (Wrap m es) = Wrap m es # concat (map unwrapped es)"
| "unwrapped (SessionError k e) = SessionError k e # unwrapped e"
| "unwrapped (ExitError c e) = ExitError c e # unwrapped e"
| "unwrapped e = [e]"

definition IsNotAuthentic :: "error \<Rightarrow> bool" where
  "IsNotAuthentic e \<longleftrightarrow> ErrNotAuthentic \<in> set (unwrapped e)"

fun is_HemError :: "error \<Rightarrow> bool" where
  "is_HemError (HemError s c) = True"
| "is_HemError e = False"

fun is_SessionError :: "error \<Rightarrow> bool" where
  "is_SessionError (SessionError k e) = True"
| "is_SessionError e = False"

fun is_ExitError :: "error \<Rightarrow> bool" where
  "is_ExitError (ExitError c e) = True"
| "is_ExitError e = False"

definition AsHemError :: "error \<Rightarrow> error option" where
  "AsHemError e = find is_HemError (unwrapped e)"

definition AsSessionError :: "error \<Rightarrow> error option" where
  "AsSessionError e = find is_SessionError (unwrapped e)"

definition AsExitError :: "error \<Rightarrow> error option" where
  "AsExitError e = find is_ExitError (unwrapped e)"

lemma unwrapped_self [simp]: "e \<in> set (unwrapped e)"
  by (cases e) auto

lemma unwrapped_child: "e \<in> set es \<Longrightarrow> x \<in> set (unwrapped e) \<Longrightarrow> x \<in> set (unwrapped (Wrap m es))"
  by auto

lemma find_append: "find P (xs @ ys) = (case find P xs of None \<Rightarrow> find P ys | Some x \<Rightarrow> Some x)"
  by (induction xs) auto

lemma As_simps [simp]:
  "AsHemError (SessionError k e) = AsHemError e"
  "AsHemError (ExitError c e) = AsHemError e"
  "AsHemError (Wrap m [e]) = AsHemError e"
  "AsHemError (HemError s d) = Some (HemError s d)"
  "AsHemError (Msg m) = None" "AsHemError (DescrError de) = None" "AsHemError ErrNotAuthentic = None"
  "AsSessionError (SessionError k e) = Some (SessionError k e)"
  "AsSessionError (ExitError c e) = AsSessionError e"
  "AsSessionError (Wrap m [e]) = AsSessionError e"
  "AsSessionError (HemError s d) = None"
  "AsSessionError (Msg m) = None" "AsSessionError (DescrError de) = None"
  "AsSessionError ErrNotAuthentic = None"
  "AsExitError (ExitError c e) = Some (ExitError c e)"
  by (simp_all add: AsHemError_def AsSessionError_def AsExitError_def)

lemma AsHemError_Some: "AsHemError e = Some he \<Longrightarrow> \<exists>s c. he = HemError s c"
  unfolding AsHemError_def find_Some_iff by (metis is_HemError.elims(2))

subsection \<open>Session errors\<close>

fun Kind_String :: "Kind \<Rightarrow> string" where
  "Kind_String KindNetwork = ''network''"
| "Kind_String KindAuth = ''authentication''"
| "Kind_String KindIntegrity = ''integrity''"
| "Kind_String KindUsage = ''usage''"
| "Kind_String KindDevice = ''device''"

text \<open>\<open>Fail\<close> with a \<open>%w\<close> verb wraps its argument; without one it is a message.\<close>

definition Fail :: "Kind \<Rightarrow> string \<Rightarrow> error list \<Rightarrow> error" where
  "Fail kind fmt wrapped = SessionError kind (if wrapped = [] then Msg fmt else Wrap fmt wrapped)"

definition classifyKind :: "error \<Rightarrow> Kind \<Rightarrow> Kind" where
  "classifyKind e fallback =
     (case AsHemError e of
        Some (HemError status code) \<Rightarrow>
          if code = ''network'' \<or> code = ''timeout'' \<or> code = ''aborted'' then KindNetwork
          else if status = 401 \<or> status = 403 then KindAuth
          else fallback
      | _ \<Rightarrow> fallback)"

text \<open>On a nil error \<open>Classify\<close> is nil; every use in the model passes an error.\<close>

definition Classify :: "error \<Rightarrow> Kind \<Rightarrow> string \<Rightarrow> error" where
  "Classify e fallback fmt = SessionError (classifyKind e fallback) (Wrap fmt [e])"

definition KindOf :: "error \<Rightarrow> Kind" where
  "KindOf e = (case AsSessionError e of Some (SessionError k e') \<Rightarrow> k | _ \<Rightarrow> KindDevice)"

lemma KindOf_simps [simp]:
  "KindOf (SessionError k e) = k"
  "KindOf (ExitError c e) = KindOf e"
  "KindOf (Wrap m [e]) = KindOf e"
  "KindOf (Fail k m ws) = k"
  "KindOf (Classify e k m) = classifyKind e k"
  by (simp_all add: KindOf_def Fail_def Classify_def)

lemma classifyKind_cases: "classifyKind e k \<in> {k, KindAuth, KindNetwork}"
  by (auto simp: classifyKind_def split: option.splits error.splits)

subsection \<open>The command's exit codes\<close>

definition exitOK :: int where "exitOK = 0"
definition exitUsage :: int where "exitUsage = 1"
definition exitAuth :: int where "exitAuth = 2"
definition exitNetwork :: int where "exitNetwork = 3"
definition exitIntegrit :: int where "exitIntegrit = 4"
definition exitDevice :: int where "exitDevice = 5"

lemmas exit_defs = exitOK_def exitUsage_def exitAuth_def exitNetwork_def exitIntegrit_def exitDevice_def

definition kindFor :: "int \<Rightarrow> Kind" where
  "kindFor code =
     (if code = exitNetwork then KindNetwork else if code = exitAuth then KindAuth
      else if code = exitIntegrit then KindIntegrity else if code = exitUsage then KindUsage
      else KindDevice)"

fun exitFor :: "Kind \<Rightarrow> int" where
  "exitFor KindNetwork = exitNetwork"
| "exitFor KindAuth = exitAuth"
| "exitFor KindIntegrity = exitIntegrit"
| "exitFor KindUsage = exitUsage"
| "exitFor KindDevice = exitDevice"

definition failf :: "int \<Rightarrow> string \<Rightarrow> error list \<Rightarrow> error" where
  "failf code fmt wrapped = ExitError code (if wrapped = [] then Msg fmt else Wrap fmt wrapped)"

definition classify :: "error \<Rightarrow> int \<Rightarrow> string \<Rightarrow> error" where
  "classify e fallback fmt =
     (let s = Classify e (kindFor fallback) fmt in failf (exitFor (KindOf s)) ''%w'' [s])"

definition exitFrom :: "error \<Rightarrow> error" where
  "exitFrom e = failf (exitFor (KindOf e)) ''%w'' [e]"

text \<open>How the process ends: \<open>main\<close> looks for the code, and a failure without one is 5.\<close>

definition exitCode :: "error + 'a \<Rightarrow> int" where
  "exitCode r =
     (case r of Inr x \<Rightarrow> exitOK
      | Inl e \<Rightarrow> (case AsExitError e of Some (ExitError c e') \<Rightarrow> c | _ \<Rightarrow> exitDevice))"

definition classifyLoad :: "error \<Rightarrow> error" where
  "classifyLoad e =
     (if IsNotAuthentic e then failf exitIntegrit ''%w'' [e]
      else case AsHemError e of
          Some he \<Rightarrow> classify he exitDevice ''reading the configuration''
        | None \<Rightarrow> failf exitDevice ''reading the configuration: %w'' [e])"

definition classifyLoadKind :: "error \<Rightarrow> error" where
  "classifyLoadKind e =
     (if KindOf e \<noteq> KindDevice then e
      else Classify e KindIntegrity ''reading the configuration'')"

lemma exitFor_inject [simp]: "exitFor k = exitFor k' \<longleftrightarrow> k = k'"
  by (cases k; cases k') (simp_all add: exit_defs)

lemma kindFor_exitFor [simp]: "kindFor (exitFor k) = k"
  by (cases k) (simp_all add: kindFor_def exit_defs)

lemma exitCode_simps [simp]:
  "exitCode (Inl (failf c m ws)) = c"
  "exitCode (Inl (classify e c m)) = exitFor (classifyKind e (kindFor c))"
  "exitCode (Inl (exitFrom e)) = exitFor (KindOf e)"
  by (simp_all add: exitCode_def failf_def classify_def exitFrom_def Let_def)

text \<open>
  The two tables of \<open>auth.go\<close> are inverse to each other on the kinds, every failure code
  is one of 1 to 5 and never the code of success, and a failed command whose error knows
  its kind exits with that kind's number: \<open>exitFrom\<close> keeps the kind, and \<open>classify\<close>
  gives 3 for an unreachable device, 2 for a refused credential and the fallback otherwise.
\<close>

theorem exit_codes_follow_kinds:
  "kindFor (exitFor k) = k \<and> exitFor k \<in> {1..5} \<and> exitCode (Inl (exitFrom e)) = exitFor (KindOf e) \<and>
   KindOf (exitFrom e) = KindOf e \<and>
   exitCode (Inl (classify e (exitFor k) m)) =
     (case AsHemError e of
        Some (HemError status code) \<Rightarrow>
          if code \<in> {''network'', ''timeout'', ''aborted''} then 3
          else if status \<in> {401, 403} then 2 else exitFor k
      | _ \<Rightarrow> exitFor k)"
proof -
  have "exitFor k \<in> {1..5}" by (cases k) (simp_all add: exit_defs)
  moreover have "KindOf (exitFrom e) = KindOf e" by (simp add: exitFrom_def failf_def)
  moreover have "exitCode (Inl (classify e (exitFor k) m)) =
     (case AsHemError e of
        Some (HemError status code) \<Rightarrow>
          if code \<in> {''network'', ''timeout'', ''aborted''} then 3
          else if status \<in> {401, 403} then 2 else exitFor k
      | _ \<Rightarrow> exitFor k)"
    by (auto simp: classifyKind_def exit_defs split: option.splits error.splits)
  ultimately show ?thesis by simp
qed

end
