(* ===== verification/Hem.thy ===== *)
theory Hem
  imports Errors
begin

text \<open>
  The boundary to the hardware module.  The client library the program calls is not part of
  the repository, so it is a parameter: a record of its methods, each a computation on an
  abstract device state.  What a theorem needs of the device is a hypothesis of that
  theorem.  The theory also holds \<open>internal/session/device.go\<close>: connecting, and handing
  out one token per scope while asking for the passphrase at most once.
\<close>

subsection \<open>The client library\<close>

record KeyEntry =
  keKID :: string
  keLabel :: string
  keDescr :: bytes
  keCreated :: int

record Key =
  keyPubKey :: bytes
  keyTypeOf :: string

record CryptoOpts =
  optAlg :: string
  optExtKID :: string
  optCtx :: bytes
  optPubKey :: bytes

definition noOpts :: CryptoOpts where
  "noOpts = \<lparr>optAlg = [], optExtKID = [], optCtx = [], optPubKey = []\<rparr>"

record 'd Client =
  Checkin :: "('d, error, unit) io"
  GetVersion :: "('d, error, unit) io"
  SearchKeys :: "string \<Rightarrow> bytes \<Rightarrow> nat \<Rightarrow> nat \<Rightarrow> ('d, error, int \<times> KeyEntry list) io"
  GetPubKey :: "string \<Rightarrow> string \<Rightarrow> ('d, error, Key) io"
  CreateKey :: "string \<Rightarrow> string \<Rightarrow> string \<Rightarrow> ('d, error, string) io"
  ImportKey :: "string \<Rightarrow> string \<Rightarrow> string \<Rightarrow> bytes \<Rightarrow> bytes \<Rightarrow> ('d, error, string) io"
  UpdateKey :: "string \<Rightarrow> string \<Rightarrow> string \<Rightarrow> bytes \<Rightarrow> ('d, error, unit) io"
  DeleteKey :: "string \<Rightarrow> string \<Rightarrow> ('d, error, unit) io"
  HmacHash :: "string \<Rightarrow> string \<Rightarrow> bytes \<Rightarrow> CryptoOpts \<Rightarrow> ('d, error, bytes) io"
  HmacVerify :: "string \<Rightarrow> string \<Rightarrow> bytes \<Rightarrow> bytes \<Rightarrow> CryptoOpts \<Rightarrow> ('d, error, unit) io"
  CipherWrap :: "string \<Rightarrow> string \<Rightarrow> bytes \<Rightarrow> CryptoOpts \<Rightarrow> ('d, error, bytes) io"
  CipherUnwrap :: "string \<Rightarrow> string \<Rightarrow> bytes \<Rightarrow> CryptoOpts \<Rightarrow> ('d, error, bytes) io"
  ECDH :: "string \<Rightarrow> string \<Rightarrow> CryptoOpts \<Rightarrow> ('d, error, bytes) io"
  AuthPassword :: "bytes \<Rightarrow> string \<Rightarrow> int \<Rightarrow> ('d, error, string) io"
  AuthRemote :: "string \<Rightarrow> ('d, error, string) io"
  ClearKeys :: "'d \<Rightarrow> 'd"

text \<open>A token function: the scope in, the token or an error out.\<close>

type_synonym 'd TokenFunc = "string \<Rightarrow> ('d, error, string) io"

text \<open>\<open>isAuthError\<close> looks at the error itself, not at what it wraps.\<close>

definition isAuthError :: "error \<Rightarrow> bool" where
  "isAuthError e = (case e of HemError status code \<Rightarrow> status = 401 \<or> status = 403 | _ \<Rightarrow> False)"

subsection \<open>Reaching the device\<close>

text \<open>
  The reader of the passphrase is supplied by the front end: absent, or a computation that
  may fail.  Progress messages are not modelled.
\<close>

record 'd Device =
  devMobile :: bool
  devExpSecs :: int
  Passphrase :: "('d, error, bytes) io option"

record Auth =
  asked :: bool
  expSecs :: int

definition Connect :: "'d Client \<Rightarrow> 'd Device \<Rightarrow> ('d, error, Auth) io" where
  "Connect c dev =
     bindS (mapErrS (\<lambda>e. Classify e KindNetwork ''checkin'') (Checkin c))
       (\<lambda>_. returnS \<lparr>asked = False, expSecs = devExpSecs dev\<rparr>)"

text \<open>
  \<open>Token\<close> on the pair of device and authenticator.  \<open>asked\<close> is set once the passphrase
  has been read, before the device is asked, whatever the device then says.
\<close>

definition Token :: "'d Client \<Rightarrow> 'd Device \<Rightarrow> string \<Rightarrow> ('d \<times> Auth, error, string) io" where
  "Token c dev scope =
     (\<lambda>(d, a).
        if devMobile dev then
          (case AuthRemote c scope d of (r, d') \<Rightarrow>
             (mapErr (\<lambda>e. Classify e KindAuth ''authorizing %s'') r, (d', a)))
        else
          (case (if asked a then (Inr ([], a), d)
                 else case Passphrase dev of
                     None \<Rightarrow> (Inl (Fail KindAuth ''no way to ask for the passphrase'' []), d)
                   | Some read \<Rightarrow>
                       (case read d of
                          (Inl e, d') \<Rightarrow> (Inl (Fail KindAuth ''reading passphrase: %v'' []), d')
                        | (Inr p, d') \<Rightarrow> (Inr (p, a\<lparr>asked := True\<rparr>), d'))) of
             (Inl e, d') \<Rightarrow> (Inl e, (d', a))
           | (Inr (pass, a'), d') \<Rightarrow>
               (case AuthPassword c pass scope (expSecs a') d' of (r, d'') \<Rightarrow>
                  (mapErr (\<lambda>e. Classify e KindAuth ''authorizing %s'') r, (d'', a')))))"

definition Wipe :: "'d Client \<Rightarrow> 'd \<Rightarrow> 'd" where
  "Wipe c d = ClearKeys c d"

definition Zero :: "bytes \<Rightarrow> bytes" where
  "Zero b = replicate (length b) 0"

text \<open>Running device computations next to a state of the program, and changing that state.\<close>

definition onDevice :: "('d, 'e, 'a) io \<Rightarrow> ('d \<times> 's, 'e, 'a) io" where
  "onDevice m = (\<lambda>(d, s). case m d of (r, d') \<Rightarrow> (r, (d', s)))"

definition updS :: "('s \<Rightarrow> 's) \<Rightarrow> ('d \<times> 's, 'e, unit) io" where
  "updS f = (\<lambda>(d, s). (Inr (), (d, f s)))"

text \<open>The same device seen from a computation that carries more state.\<close>

definition liftClient :: "'d Client \<Rightarrow> ('d \<times> 's) Client" where
  "liftClient c =
     \<lparr>Checkin = onDevice (Checkin c), GetVersion = onDevice (GetVersion c),
      SearchKeys = (\<lambda>t pat off n. onDevice (SearchKeys c t pat off n)),
      GetPubKey = (\<lambda>t kid. onDevice (GetPubKey c t kid)),
      CreateKey = (\<lambda>t l ty. onDevice (CreateKey c t l ty)),
      ImportKey = (\<lambda>t l ty pk b. onDevice (ImportKey c t l ty pk b)),
      UpdateKey = (\<lambda>t kid l b. onDevice (UpdateKey c t kid l b)),
      DeleteKey = (\<lambda>t kid. onDevice (DeleteKey c t kid)),
      HmacHash = (\<lambda>t kid m opts. onDevice (HmacHash c t kid m opts)),
      HmacVerify = (\<lambda>t kid m tag opts. onDevice (HmacVerify c t kid m tag opts)),
      CipherWrap = (\<lambda>t kid b opts. onDevice (CipherWrap c t kid b opts)),
      CipherUnwrap = (\<lambda>t kid b opts. onDevice (CipherUnwrap c t kid b opts)),
      ECDH = (\<lambda>t kid opts. onDevice (ECDH c t kid opts)),
      AuthPassword = (\<lambda>p sc e. onDevice (AuthPassword c p sc e)),
      AuthRemote = (\<lambda>sc. onDevice (AuthRemote c sc)),
      ClearKeys = (\<lambda>(d, s). (ClearKeys c d, s))\<rparr>"

lemma onDevice_eq [result_inv]:
  "onDevice m s = (r, s') \<longleftrightarrow> (\<exists>d'. m (fst s) = (r, d') \<and> s' = (d', snd s))"
  by (auto simp: onDevice_def split: prod.splits)

lemma updS_eq [result_inv]: "updS f s = (r, s') \<longleftrightarrow> r = Inr () \<and> s' = (fst s, f (snd s))"
  by (auto simp: updS_def split: prod.splits)

lemma Token_error_kind:
  assumes "Token c dev scope s = (Inl e, s')"
  shows "KindOf e \<in> {KindAuth, KindNetwork}"
proof -
  have "\<forall>x. classifyKind x KindAuth \<in> {KindAuth, KindNetwork}"
    using classifyKind_cases [where k = KindAuth] by auto
  with assms show ?thesis
    by (fastforce simp: Token_def result_inv split: prod.splits if_splits option.splits sum.splits)
qed

lemma Token_asked:
  assumes "asked a" and "\<not> devMobile dev" and "Token c dev scope (d, a) = (r, (d', a'))"
  shows "a' = a \<and> (\<exists>r0. AuthPassword c [] scope (expSecs a) d = (r0, d') \<and>
     r = mapErr (\<lambda>e. Classify e KindAuth ''authorizing %s'') r0)"
  using assms by (auto simp: Token_def split: prod.splits)

lemma Token_success_asked:
  "Token c dev scope (d, a) = (Inr t, (d', a')) \<Longrightarrow> \<not> devMobile dev \<Longrightarrow> asked a'"
  by (auto simp: Token_def result_inv split: prod.splits if_splits option.splits sum.splits)

text \<open>
  A session asks for the passphrase at most once.  Once it has been read, every later
  token - of whatever scope, and whether the device granted the earlier ones or not - is
  one call to the device with no passphrase and leaves the authenticator as it is; and an
  error of \<open>Token\<close> is always one of authentication or of the network.
\<close>

theorem passphrase_asked_once:
  assumes "\<not> devMobile dev" and "Token c dev scope (d, a) = (r, (d1, a1))"
    and "isOk r \<or> a1 \<noteq> a"
  shows "asked a1 \<and>
     (\<forall>scope' r' d2 a2. Token c dev scope' (d1, a1) = (r', (d2, a2)) \<longrightarrow>
        a2 = a1 \<and> snd (AuthPassword c [] scope' (expSecs a1) d1) = d2 \<and>
        (\<forall>e. r' = Inl e \<longrightarrow> KindOf e \<in> {KindAuth, KindNetwork}))"
proof -
  have asked: "asked a1"
    using assms by (cases r) (auto simp: Token_def isOk_iff result_inv
        split: prod.splits if_splits option.splits sum.splits)
  moreover have "a2 = a1 \<and> snd (AuthPassword c [] scope' (expSecs a1) d1) = d2"
    if "Token c dev scope' (d1, a1) = (r', (d2, a2))" for scope' r' d2 a2
    using Token_asked [OF asked assms(1) that] by auto
  ultimately show ?thesis using Token_error_kind by blast
qed

text \<open>A device that refuses everything, for stand-ins that answer one call.\<close>

definition deafClient :: "'d Client" where
  "deafClient =
     \<lparr>Checkin = failS (HemError 0 ''network''),
      GetVersion = failS (HemError 0 ''network''),
      SearchKeys = (\<lambda>_ _ _ _. failS (HemError 403 ''forbidden'')),
      GetPubKey = (\<lambda>_ _. failS (HemError 403 ''forbidden'')),
      CreateKey = (\<lambda>_ _ _. failS (HemError 403 ''forbidden'')),
      ImportKey = (\<lambda>_ _ _ _ _. failS (HemError 403 ''forbidden'')),
      UpdateKey = (\<lambda>_ _ _ _. failS (HemError 403 ''forbidden'')),
      DeleteKey = (\<lambda>_ _. failS (HemError 403 ''forbidden'')),
      HmacHash = (\<lambda>_ _ _ _. failS (HemError 403 ''forbidden'')),
      HmacVerify = (\<lambda>_ _ _ _ _. failS (HemError 403 ''forbidden'')),
      CipherWrap = (\<lambda>_ _ _ _. failS (HemError 403 ''forbidden'')),
      CipherUnwrap = (\<lambda>_ _ _ _. failS (HemError 403 ''forbidden'')),
      ECDH = (\<lambda>_ _ _. failS (HemError 403 ''forbidden'')),
      AuthPassword = (\<lambda>_ _ _. failS (HemError 403 ''forbidden'')),
      AuthRemote = (\<lambda>_. failS (HemError 403 ''forbidden'')),
      ClearKeys = (\<lambda>d. d)\<rparr>"

text \<open>The witness: the first token is refused by the device, and the passphrase counts as asked.\<close>

theorem passphrase_asked_once_witness:
  "asked (snd (snd (Token (deafClient :: unit Client)
      \<lparr>devMobile = False, devExpSecs = 60, Passphrase = Some (returnS [1, 2, 3])\<rparr> ''keymgmt:get''
      ((), \<lparr>asked = False, expSecs = 60\<rparr>))))"
  using passphrase_asked_once [of "\<lparr>devMobile = False, devExpSecs = 60, Passphrase = Some (returnS [1, 2, 3])\<rparr>"
      "deafClient :: unit Client" "''keymgmt:get''" "()" "\<lparr>asked = False, expSecs = 60\<rparr>"
      "Inl (Classify (HemError 403 ''forbidden'') KindAuth ''authorizing %s'')" "()"
      "\<lparr>asked = True, expSecs = 60\<rparr>"]
  by (simp add: Token_def deafClient_def)

end
