(* ===== verification/GoUrl.thy ===== *)
theory GoUrl
  imports GoText
begin

text \<open>
  What the program uses of Go's \<open>net/url\<close>: \<open>url.Parse\<close> and \<open>URL.Hostname\<close>, as far as
  they decide which host a URL names and whether it parses at all.  The scheme, the user
  information, the path, the query and the fragment are checked the way the library checks
  them and not kept.  Strings are bytes, so a byte from 0x80 on is never escaped in a host.
\<close>

subsection \<open>Escapes\<close>

datatype url_mode = modeHost | modeZone | modeOther

definition is_alnum :: "char \<Rightarrow> bool" where
  "is_alnum c \<longleftrightarrow> (CHR ''a'' \<le> c \<and> c \<le> CHR ''z'') \<or> (CHR ''A'' \<le> c \<and> c \<le> CHR ''Z'') \<or>
     (CHR ''0'' \<le> c \<and> c \<le> CHR ''9'')"

text \<open>\<open>shouldEscape\<close> for the two host modes, which agree.\<close>

definition shouldEscape :: "char \<Rightarrow> bool" where
  "shouldEscape c \<longleftrightarrow> \<not> is_alnum c \<and> c \<notin> set ''!$&()*+,;=:[]<>-_.~'' \<and> c \<noteq> CHR 0x27 \<and> c \<noteq> CHR 0x22"

fun unescape :: "url_mode \<Rightarrow> string \<Rightarrow> string option" where
  "unescape m [] = Some []"
| "unescape m (c # s) =
     (if c = CHR ''%'' then
        (case s of
           a # b # rest \<Rightarrow>
             (case (hex_val a, hex_val b) of
                (Some x, Some y) \<Rightarrow>
                  (let esc = [a, b]; v = char_of (16 * x + y) in
                   if m = modeHost \<and> x < 8 \<and> esc \<noteq> ''25'' then None
                   else if m = modeZone \<and> esc \<noteq> ''25'' \<and> v \<noteq> CHR '' '' \<and> shouldEscape v then None
                   else map_option (\<lambda>t. v # t) (unescape m rest))
              | _ \<Rightarrow> None)
         | _ \<Rightarrow> None)
      else if m \<noteq> modeOther \<and> of_char c < (0x80 :: nat) \<and> shouldEscape c then None
      else map_option (\<lambda>t. c # t) (unescape m s))"

subsection \<open>The parts of a URL\<close>

text \<open>\<open>getScheme\<close>: the scheme and the rest, no scheme and the whole text, or an error.\<close>

fun schemeLoop :: "bool \<Rightarrow> string \<Rightarrow> string \<Rightarrow> string \<Rightarrow> (string \<times> string) option" where
  "schemeLoop start acc [] raw = Some ([], raw)"
| "schemeLoop start acc (c # s) raw =
     (if (CHR ''a'' \<le> c \<and> c \<le> CHR ''z'') \<or> (CHR ''A'' \<le> c \<and> c \<le> CHR ''Z'')
      then schemeLoop False (acc @ [c]) s raw
      else if (CHR ''0'' \<le> c \<and> c \<le> CHR ''9'') \<or> c \<in> set ''+-.''
      then if start then Some ([], raw) else schemeLoop False (acc @ [c]) s raw
      else if c = CHR '':'' then if start then None else Some (acc, s)
      else Some ([], raw))"

definition getScheme :: "string \<Rightarrow> (string \<times> string) option" where
  "getScheme raw = schemeLoop True [] raw raw"

definition validOptionalPort :: "string \<Rightarrow> bool" where
  "validOptionalPort p \<longleftrightarrow> p = [] \<or> (hd p = CHR '':'' \<and> list_all (\<lambda>c. CHR ''0'' \<le> c \<and> c \<le> CHR ''9'') (tl p))"

definition validUserinfo :: "string \<Rightarrow> bool" where
  "validUserinfo s \<longleftrightarrow> list_all (\<lambda>c. is_alnum c \<or> c \<in> set ''-._:~!$&()*+,;=%@'' \<or> c = CHR 0x27) s"

text \<open>The text before and from the last occurrence of a byte on.\<close>

definition splitLast :: "string \<Rightarrow> char \<Rightarrow> (string \<times> string) option" where
  "splitLast s c =
     (if c \<in> set s then Some (rev (tl (dropWhile (\<lambda>x. x \<noteq> c) (rev s))), c # rev (takeWhile (\<lambda>x. x \<noteq> c) (rev s)))
      else None)"

fun indexOf :: "string \<Rightarrow> string \<Rightarrow> nat option" where
  "indexOf p [] = (if p = [] then Some 0 else None)"
| "indexOf p (c # s) = (if HasPrefix (c # s) p then Some 0 else map_option Suc (indexOf p s))"

definition parseHost :: "string \<Rightarrow> string option" where
  "parseHost host =
     (if HasPrefix host ''['' then
        (case splitLast host (CHR '']'') of
           None \<Rightarrow> None
         | Some (inside, from_bracket) \<Rightarrow>
             if \<not> validOptionalPort (tl from_bracket) then None
             else (case indexOf ''%25'' inside of
                 Some z \<Rightarrow>
                   (case (unescape modeHost (take z inside), unescape modeZone (drop z inside),
                          unescape modeHost from_bracket) of
                      (Some h1, Some h2, Some h3) \<Rightarrow> Some (h1 @ h2 @ h3)
                    | _ \<Rightarrow> None)
               | None \<Rightarrow> unescape modeHost host))
      else case splitLast host (CHR '':'') of
          Some (_, colonPort) \<Rightarrow> if validOptionalPort colonPort then unescape modeHost host else None
        | None \<Rightarrow> unescape modeHost host)"

text \<open>\<open>parseAuthority\<close>: the user information is checked, its parts must unescape.\<close>

definition parseAuthority :: "string \<Rightarrow> string option" where
  "parseAuthority authority =
     (case splitLast authority (CHR ''@'') of
        None \<Rightarrow> parseHost authority
      | Some (userinfo, at_host) \<Rightarrow>
          (case parseHost (tl at_host) of
             None \<Rightarrow> None
           | Some h \<Rightarrow>
               if validUserinfo userinfo \<and> unescape modeOther userinfo \<noteq> None then Some h else None))"

definition hasCTL :: "string \<Rightarrow> bool" where
  "hasCTL s \<longleftrightarrow> (\<exists>c \<in> set s. of_char c < (0x20 :: nat) \<or> of_char c = (0x7f :: nat))"

definition before_first :: "char \<Rightarrow> string \<Rightarrow> string" where
  "before_first c s = takeWhile (\<lambda>x. x \<noteq> c) s"

text \<open>
  \<open>url.Parse\<close>, giving the \<open>Host\<close> field: empty for a URL without an authority.  The path
  and the fragment only have to unescape; the query is not looked at.
\<close>

definition urlHost :: "string \<Rightarrow> string option" where
  "urlHost raw =
     (let u = before_first (CHR ''#'') raw; frag = drop (Suc (length u)) raw in
      if hasCTL u then None
      else if unescape modeOther frag = None then None
      else if u = ''*'' then Some []
      else case getScheme u of
          None \<Rightarrow> None
        | Some (scheme, rest) \<Rightarrow>
            (let rest = before_first (CHR ''?'') rest in
             if \<not> HasPrefix rest ''/'' \<and> scheme \<noteq> [] then Some []
             else if \<not> HasPrefix rest ''/'' \<and> CHR '':'' \<in> set (before_first (CHR ''/'') rest) then None
             else if (scheme \<noteq> [] \<or> \<not> HasPrefix rest ''///'') \<and> HasPrefix rest ''//'' then
               (let authority = before_first (CHR ''/'') (drop 2 rest);
                    path = drop (length authority) (drop 2 rest)
                in if unescape modeOther path = None then None else parseAuthority authority)
             else if unescape modeOther rest = None then None
             else Some []))"

text \<open>\<open>URL.Hostname\<close> of a host field.\<close>

definition hostname :: "string \<Rightarrow> string" where
  "hostname host =
     (let h = (case splitLast host (CHR '':'') of
          Some (pre, colonPort) \<Rightarrow> if validOptionalPort colonPort then pre else host
        | None \<Rightarrow> host)
      in if HasPrefix h ''['' \<and> HasSuffix h '']'' then butlast (tl h) else h)"

end
