(* ===== verification/Routing.thy ===== *)
theory Routing
  imports Hem NetText GoUrl
begin

text \<open>
  \<open>internal/runtime\<close>: the routing decision and the host routes that keep a tunnel's own
  transport outside it (\<open>routing.go\<close>, \<open>runtime.go\<close>).  What a platform does -
  \<open>platform_linux.go\<close>, \<open>platform_darwin.go\<close> and \<open>platform_windows.go\<close>, one of which is
  compiled in - and the tunnel device of the WireGuard library are a record of operations on
  an abstract world, which the device client shares.  Messages are not modelled.
\<close>

subsection \<open>The host the program runs on\<close>

text \<open>
  A directory is listed as names with whether each is a directory.  The error of a file that
  does not exist is told apart from the others, as \<open>os.IsNotExist\<close> does.
\<close>

definition ErrNotExist :: error where
  "ErrNotExist = Msg ''file does not exist''"

text \<open>\<open>CreateTUN\<close> gives the name the interface got, empty when it cannot be read back.\<close>

record 'w Platform =
  LookupIP :: "string \<Rightarrow> ('w, error, bytes list) io"
  defaultGateway :: "bool \<Rightarrow> ('w, error, Addr \<times> string) io"
  addHostRoute :: "Addr \<Rightarrow> Addr \<Rightarrow> string \<Rightarrow> ('w, error, unit) io"
  delHostRoute :: "Addr \<Rightarrow> Addr \<Rightarrow> string \<Rightarrow> ('w, error, unit) io"
  AddRoutes :: "string \<Rightarrow> Prefix list \<Rightarrow> ('w, error, unit) io"
  ifUp :: "string \<Rightarrow> Prefix list \<Rightarrow> ('w, error, unit) io"
  ifDown :: "string \<Rightarrow> ('w, error, unit) io"
  SetMTU :: "string \<Rightarrow> nat \<Rightarrow> ('w, error, unit) io"
  SetDNS :: "string \<Rightarrow> string list \<Rightarrow> ('w, error, unit) io"
  RevertDNS :: "string \<Rightarrow> ('w, error, unit) io"
  CreateTUN :: "string \<Rightarrow> nat \<Rightarrow> ('w, error, string) io"
  devUp :: "('w, error, unit) io"
  devClose :: "('w, error, unit) io"
  IpcSet :: "string \<Rightarrow> ('w, error, unit) io"
  UAPIListen :: "string \<Rightarrow> ('w, error, unit) io"
  WriteFile :: "string \<Rightarrow> string \<Rightarrow> ('w, error, unit) io"
  RemoveFile :: "string \<Rightarrow> ('w, error, unit) io"
  MkdirAll :: "string \<Rightarrow> ('w, error, unit) io"
  ReadFile :: "string \<Rightarrow> ('w, error, string) io"
  ReadDir :: "string \<Rightarrow> ('w, error, (string \<times> bool) list) io"

text \<open>\<open>Peer\<close> of this package: where the transport lives and what the interface claims.\<close>

record RtPeer =
  rpEndpoint :: string
  rpAllowedIPs :: "Prefix list"

definition hostPrefix :: "Addr \<Rightarrow> Prefix" where
  "hostPrefix a = PrefixFrom a (int (BitLen a))"

subsection \<open>Deciding\<close>

record Plan =
  Endpoints :: "Addr list"
  planHEMHost :: string
  HEMInside :: bool

definition resolveHost :: "'w Platform \<Rightarrow> string \<Rightarrow> ('w, error, Addr list) io" where
  "resolveHost P host =
     (case ParseAddr host of
        Some a \<Rightarrow> returnS [a]
      | None \<Rightarrow> bindS (LookupIP P host) (\<lambda>ips.
          returnS (map Unmap (List.map_filter AddrFromSlice ips))))"

definition covered :: "Addr \<Rightarrow> RtPeer list \<Rightarrow> bool" where
  "covered a peers \<longleftrightarrow> (\<exists>p \<in> set peers. \<exists>prefix \<in> set (rpAllowedIPs p). Contains prefix a)"

definition containsAddr :: "Addr list \<Rightarrow> Addr \<Rightarrow> bool" where
  "containsAddr xs a \<longleftrightarrow> a \<in> set xs"

definition AllowedPrefixes :: "RtPeer list \<Rightarrow> Prefix list" where
  "AllowedPrefixes peers = concat (map rpAllowedIPs peers)"

definition HostOf :: "string \<Rightarrow> string" where
  "HostOf endpoint = (case SplitHostPort endpoint of Some (host, _) \<Rightarrow> host | None \<Rightarrow> TrimSet endpoint ''[]'')"

definition HEMHost :: "string \<Rightarrow> error + string" where
  "HEMHost raw =
     (if raw = [] then Inl (Msg ''the HEM URL is empty'')
      else
        (let raw = (if indexOf ''://'' raw = None then ''https://'' @ raw else raw) in
         case urlHost raw of
           None \<Rightarrow> Inl (Msg ''HEM URL %q: %w'')
         | Some h \<Rightarrow> if hostname h = [] then Inl (Msg ''HEM URL %q has no host'') else Inr (hostname h)))"

text \<open>The endpoints a peer's resolved addresses add to those already found.\<close>

fun addEndpoints :: "RtPeer list \<Rightarrow> Addr list \<Rightarrow> Addr list \<Rightarrow> Addr list" where
  "addEndpoints peers [] eps = eps"
| "addEndpoints peers (a # as) eps =
     addEndpoints peers as (if covered a peers \<and> \<not> containsAddr eps a then eps @ [a] else eps)"

fun planEndpoints :: "'w Platform \<Rightarrow> RtPeer list \<Rightarrow> RtPeer list \<Rightarrow> Addr list \<Rightarrow> ('w, error, Addr list) io" where
  "planEndpoints P peers [] eps = returnS eps"
| "planEndpoints P peers (peer # rest) eps =
     (if rpEndpoint peer = [] then planEndpoints P peers rest eps
      else
        bindS (mapErrS (\<lambda>e. Wrap ''resolving the endpoint %s: %w'' [e]) (resolveHost P (HostOf (rpEndpoint peer)))) (\<lambda>addrs.
          planEndpoints P peers rest (addEndpoints peers addrs eps)))"

definition PlanRouting :: "'w Platform \<Rightarrow> RtPeer list \<Rightarrow> string \<Rightarrow> ('w, error, Plan) io" where
  "PlanRouting P peers hemURL =
     bindS (planEndpoints P peers peers []) (\<lambda>eps.
     bindS (liftE (HEMHost hemURL)) (\<lambda>host.
     bindS (mapErrS (\<lambda>e. Wrap ''resolving the HEM address %s: %w'' [e]) (resolveHost P host)) (\<lambda>hemAddrs.
       returnS \<lparr>Endpoints = eps, planHEMHost = host, HEMInside = list_ex (\<lambda>a. covered a peers) hemAddrs\<rparr>)))"

definition ProbeHEM :: "'w Client \<Rightarrow> string \<Rightarrow> ('w, error, unit) io" where
  "ProbeHEM c host =
     mapErrS (\<lambda>e. Wrap ''the HEM at %s is inside the tunnel and no longer answers (%w); refusing to leave an interface up that cannot rekey'' [e])
       (GetVersion c)"

subsection \<open>Pinning\<close>

record pinnedRoute =
  prAddr :: Addr
  prGw :: Addr
  prIface :: string

type_synonym Pins = "pinnedRoute list"

fun Pins_Add :: "'w Platform \<Rightarrow> Addr list \<Rightarrow> ('w \<times> Pins, error, unit) io" where
  "Pins_Add P [] = returnS ()"
| "Pins_Add P (a # as) =
     bindS (mapErrS (\<lambda>e. Wrap ''finding the current route to %s: %w'' [e])
              (onDevice (defaultGateway P (Is6 a)))) (\<lambda>(gw, iface).
     bindS (mapErrS (\<lambda>e. Wrap ''pinning %s to %s via %s: %w'' [e])
              (onDevice (addHostRoute P a gw iface))) (\<lambda>_.
     bindS (updS (\<lambda>rs. rs @ [\<lparr>prAddr = a, prGw = gw, prIface = iface\<rparr>])) (\<lambda>_.
       Pins_Add P as)))"

text \<open>A computation whose error is only reported.\<close>

definition ignoreS :: "('s, 'e, 'a) io \<Rightarrow> ('s, 'e, unit) io" where
  "ignoreS m = (\<lambda>s. (Inr (), snd (m s)))"

fun delRoutes :: "'w Platform \<Rightarrow> Pins \<Rightarrow> ('w, error, unit) io" where
  "delRoutes P [] = returnS ()"
| "delRoutes P (r # rs) =
     bindS (ignoreS (delHostRoute P (prAddr r) (prGw r) (prIface r))) (\<lambda>_. delRoutes P rs)"

definition Pins_Restore :: "'w Platform \<Rightarrow> ('w \<times> Pins, error, unit) io" where
  "Pins_Restore P =
     (\<lambda>(w, rs). case delRoutes P rs w of (r, w') \<Rightarrow> (r, (w', [])))"

subsection \<open>The plan\<close>

text \<open>What a name resolves to, with a resolver that is a function of the name.\<close>

definition resolvesTo :: "(string \<Rightarrow> error + bytes list) \<Rightarrow> string \<Rightarrow> Addr set" where
  "resolvesTo f host =
     (case ParseAddr host of
        Some a \<Rightarrow> {a}
      | None \<Rightarrow> (case f host of Inl e \<Rightarrow> {} | Inr ips \<Rightarrow> Unmap ` {a. \<exists>b \<in> set ips. AddrFromSlice b = Some a}))"

definition resolver :: "'w Platform \<Rightarrow> (string \<Rightarrow> error + bytes list) \<Rightarrow> bool" where
  "resolver P f \<longleftrightarrow> (\<forall>host w. LookupIP P host w = (f host, w))"

lemma set_map_filter_eq: "set (List.map_filter f xs) = {y. \<exists>x \<in> set xs. f x = Some y}"
  by (induction xs) (auto simp: map_filter_simps split: option.splits)

lemma resolveHost_Inr:
  "resolver P f \<Longrightarrow> resolveHost P host w = (Inr as, w') \<Longrightarrow> w' = w \<and> set as = resolvesTo f host"
  by (auto simp: resolver_def resolveHost_def resolvesTo_def result_inv set_map_filter_eq split: option.splits)

lemma addEndpoints_set:
  "set (addEndpoints peers as eps) = set eps \<union> {a \<in> set as. covered a peers} \<and>
   (distinct eps \<longrightarrow> distinct (addEndpoints peers as eps))"
  by (induction as arbitrary: eps) (auto simp: containsAddr_def)

lemma planEndpoints_Inr:
  "resolver P f \<Longrightarrow> planEndpoints P peers rest eps w = (Inr out, w') \<Longrightarrow> distinct eps \<Longrightarrow>
   w' = w \<and> distinct out \<and>
   set out = set eps \<union> {a. covered a peers \<and>
     (\<exists>p \<in> set rest. rpEndpoint p \<noteq> [] \<and> a \<in> resolvesTo f (HostOf (rpEndpoint p)))}"
proof (induction rest arbitrary: eps w)
  case (Cons p rest)
  show ?case
  proof (cases "rpEndpoint p = []")
    case True
    with Cons show ?thesis by simp
  next
    case False
    with Cons.prems obtain as w1 where r: "resolveHost P (HostOf (rpEndpoint p)) w = (Inr as, w1)"
      and rest: "planEndpoints P peers rest (addEndpoints peers as eps) w1 = (Inr out, w')"
      by (auto simp: result_inv)
    from resolveHost_Inr [OF Cons.prems(1) r] have "w1 = w" "set as = resolvesTo f (HostOf (rpEndpoint p))" by auto
    with Cons.IH [OF Cons.prems(1) rest] addEndpoints_set [of peers as eps] Cons.prems(3) False
    show ?thesis by auto
  qed
qed simp

text \<open>
  C21: exactly the endpoints the tunnel would swallow are routed around it.  The planned
  exceptions are, each once, the addresses that some peer's endpoint resolves to and that
  some peer's allowed prefixes cover - all of a family's when the default route of that
  family is among them - and the device counts as inside exactly when one of its own
  addresses is covered.  The hypothesis is that the resolver answers the same name the same
  way; a name that does not resolve makes the plan fail.
\<close>

theorem plan_pins_what_is_captured:
  assumes "resolver P f" and "PlanRouting P peers hemURL w = (Inr plan, w')"
  shows "distinct (Endpoints plan) \<and>
     set (Endpoints plan) = {a. covered a peers \<and>
       (\<exists>p \<in> set peers. rpEndpoint p \<noteq> [] \<and> a \<in> resolvesTo f (HostOf (rpEndpoint p)))} \<and>
     HEMHost hemURL = Inr (planHEMHost plan) \<and>
     (HEMInside plan \<longleftrightarrow> (\<exists>a \<in> resolvesTo f (planHEMHost plan). covered a peers)) \<and>
     (\<forall>p \<in> set peers. \<forall>all \<in> set (rpAllowedIPs p). pfxBits all = 0 \<longrightarrow>
        (\<forall>q \<in> set peers. rpEndpoint q \<noteq> [] \<longrightarrow>
          (\<forall>a \<in> resolvesTo f (HostOf (rpEndpoint q)). BitLen a = BitLen (pfxAddr all) \<and> AddrIsValid a \<and> Zone a = [] \<longrightarrow>
             a \<in> set (Endpoints plan))))"
proof -
  obtain eps w1 host as w2 where e: "planEndpoints P peers peers [] w = (Inr eps, w1)"
    and h: "HEMHost hemURL = Inr host" and r: "resolveHost P host w1 = (Inr as, w2)"
    and p: "plan = \<lparr>Endpoints = eps, planHEMHost = host, HEMInside = list_ex (\<lambda>a. covered a peers) as\<rparr>"
    using assms(2) by (auto simp: PlanRouting_def result_inv)
  from planEndpoints_Inr [OF assms(1) e] have eps: "distinct eps" "set eps = {a. covered a peers \<and>
      (\<exists>p \<in> set peers. rpEndpoint p \<noteq> [] \<and> a \<in> resolvesTo f (HostOf (rpEndpoint p)))}" by auto
  have "covered a peers" if "p \<in> set peers" "x \<in> set (rpAllowedIPs p)" "pfxBits x = 0"
      "BitLen a = BitLen (pfxAddr x)" "AddrIsValid a" "Zone a = []" for p x a
    using that Contains_default [of x a] by (cases a) (auto simp: covered_def)
  with eps h resolveHost_Inr [OF assms(1) r] show ?thesis
    by (auto simp: p list_ex_iff)
qed

text \<open>A host on which everything works and every name is \<open>1.2.3.4\<close>.\<close>

definition examplePlatform :: "'w Platform" where
  "examplePlatform =
     \<lparr>LookupIP = (\<lambda>_. returnS [[1, 2, 3, 4]]), defaultGateway = (\<lambda>_. returnS (Addr4 0x0A000001, ''eth0'')),
      addHostRoute = (\<lambda>_ _ _. returnS ()), delHostRoute = (\<lambda>_ _ _. returnS ()), AddRoutes = (\<lambda>_ _. returnS ()),
      ifUp = (\<lambda>_ _. returnS ()), ifDown = (\<lambda>_. returnS ()), SetMTU = (\<lambda>_ _. returnS ()), SetDNS = (\<lambda>_ _. returnS ()),
      RevertDNS = (\<lambda>_. returnS ()), CreateTUN = (\<lambda>n _. returnS n), devUp = returnS (), devClose = returnS (),
      IpcSet = (\<lambda>_. returnS ()), UAPIListen = (\<lambda>_. returnS ()), WriteFile = (\<lambda>_ _. returnS ()),
      RemoveFile = (\<lambda>_. returnS ()), MkdirAll = (\<lambda>_. returnS ()), ReadFile = (\<lambda>_. failS ErrNotExist),
      ReadDir = (\<lambda>_. returnS [])\<rparr>"

lemma examplePlatform_resolver: "resolver examplePlatform (\<lambda>_. Inr [[1, 2, 3, 4]])"
  by (simp add: resolver_def examplePlatform_def)

definition examplePeerRt :: RtPeer where
  "examplePeerRt = \<lparr>rpEndpoint = ''vpn:51820'', rpAllowedIPs = [PrefixFrom (Addr4 0) 0]\<rparr>"

lemma example_HEMHost: "HEMHost ''hem'' = Inr ''hem''"
  by (simp add: HEMHost_def urlHost_def Let_def before_first_def hasCTL_def getScheme_def HasPrefix_def
      parseAuthority_def splitLast_def parseHost_def shouldEscape_def is_alnum_def hostname_def validOptionalPort_def)

lemma example_names: "ParseAddr ''hem'' = None" "ParseAddr ''vpn'' = None" "HostOf ''vpn:51820'' = ''vpn''"
  by (simp_all add: ParseAddr_def HostOf_def SplitHostPort_def CutLast_def Cut_def)

theorem plan_pins_what_is_captured_witness:
  "\<exists>plan. PlanRouting examplePlatform [examplePeerRt] ''hem'' () = (Inr plan, ()) \<and>
     set (Endpoints plan) = {Addr4 0x01020304} \<and> HEMInside plan"
proof -
  have a: "AddrFromSlice [1, 2, 3, 4] = Some (Addr4 0x01020304)"
    by (simp add: AddrFromSlice_def be_nat_def)
  have c: "covered (Addr4 0x01020304) [examplePeerRt]"
    using Contains_default [of "PrefixFrom (Addr4 0) 0" "Addr4 0x01020304"]
    by (simp add: covered_def examplePeerRt_def PrefixFrom_def)
  have u: "Unmap (Addr4 x) = Addr4 x" for x by (simp add: Unmap_def Is4In6_def)
  have "\<exists>plan. PlanRouting examplePlatform [examplePeerRt] ''hem'' () = (Inr plan, ())"
    by (simp add: PlanRouting_def bindS_apply example_HEMHost resolveHost_def example_names mapErrS_def
        examplePeerRt_def) (simp add: examplePlatform_def)
  then obtain plan where p: "PlanRouting examplePlatform [examplePeerRt] ''hem'' () = (Inr plan, ())" by blast
  have r: "resolvesTo (\<lambda>_. Inr [[1, 2, 3, 4]]) h = {Addr4 0x01020304}" if "ParseAddr h = None" for h
    using that a u by (simp add: resolvesTo_def)
  note plan = plan_pins_what_is_captured [OF examplePlatform_resolver p]
  then have "planHEMHost plan = ''hem''" by (simp add: example_HEMHost)
  with plan have "HEMInside plan" using c by (simp add: r [OF example_names(1)])
  moreover have "set (Endpoints plan) = {Addr4 0x01020304}"
    using plan c by (auto simp: examplePeerRt_def example_names r)
  ultimately show ?thesis using p by blast
qed

subsection \<open>What is pinned is taken back\<close>

text \<open>
  A platform that also keeps a log: the host routes that were added, the interface's
  settings that were made, and every attempt to take one back.
\<close>

datatype call =
    PinAdded Addr Addr string
  | PinRemoved Addr Addr string
  | DNSSet string
  | DNSReverted string
  | DevCreated
  | DevClosed
  | LinkDown string
  | FileWritten string
  | FileRemoved string

definition logOk :: "'k \<Rightarrow> ('w, 'e, 'a) io \<Rightarrow> ('w \<times> 'k list, 'e, 'a) io" where
  "logOk k m = (\<lambda>(w, l). case m w of (r, w') \<Rightarrow> (r, (w', if isOk r then l @ [k] else l)))"

definition logTry :: "'k \<Rightarrow> ('w, 'e, 'a) io \<Rightarrow> ('w \<times> 'k list, 'e, 'a) io" where
  "logTry k m = (\<lambda>(w, l). case m w of (r, w') \<Rightarrow> (r, (w', l @ [k])))"

definition traced :: "'w Platform \<Rightarrow> ('w \<times> call list) Platform" where
  "traced P =
     \<lparr>LookupIP = (\<lambda>h. onDevice (LookupIP P h)), defaultGateway = (\<lambda>b. onDevice (defaultGateway P b)),
      addHostRoute = (\<lambda>a g i. logOk (PinAdded a g i) (addHostRoute P a g i)),
      delHostRoute = (\<lambda>a g i. logTry (PinRemoved a g i) (delHostRoute P a g i)),
      AddRoutes = (\<lambda>n ps. onDevice (AddRoutes P n ps)), ifUp = (\<lambda>n ps. onDevice (ifUp P n ps)),
      ifDown = (\<lambda>n. logTry (LinkDown n) (ifDown P n)), SetMTU = (\<lambda>n m. onDevice (SetMTU P n m)),
      SetDNS = (\<lambda>n s. logOk (DNSSet n) (SetDNS P n s)), RevertDNS = (\<lambda>n. logTry (DNSReverted n) (RevertDNS P n)),
      CreateTUN = (\<lambda>n m. logOk DevCreated (CreateTUN P n m)), devUp = onDevice (devUp P),
      devClose = logTry DevClosed (devClose P), IpcSet = (\<lambda>c. onDevice (IpcSet P c)),
      UAPIListen = (\<lambda>n. onDevice (UAPIListen P n)), WriteFile = (\<lambda>p t. logTry (FileWritten p) (WriteFile P p t)),
      RemoveFile = (\<lambda>p. logTry (FileRemoved p) (RemoveFile P p)), MkdirAll = (\<lambda>p. onDevice (MkdirAll P p)),
      ReadFile = (\<lambda>p. onDevice (ReadFile P p)), ReadDir = (\<lambda>p. onDevice (ReadDir P p))\<rparr>"

lemma traced_sel [simp]:
  "LookupIP (traced P) h = onDevice (LookupIP P h)"
  "defaultGateway (traced P) b = onDevice (defaultGateway P b)"
  "addHostRoute (traced P) a g i = logOk (PinAdded a g i) (addHostRoute P a g i)"
  "delHostRoute (traced P) a g i = logTry (PinRemoved a g i) (delHostRoute P a g i)"
  "AddRoutes (traced P) n ps = onDevice (AddRoutes P n ps)" "ifUp (traced P) n ps = onDevice (ifUp P n ps)"
  "ifDown (traced P) n = logTry (LinkDown n) (ifDown P n)" "SetMTU (traced P) n k = onDevice (SetMTU P n k)"
  "SetDNS (traced P) n ss = logOk (DNSSet n) (SetDNS P n ss)"
  "RevertDNS (traced P) n = logTry (DNSReverted n) (RevertDNS P n)"
  "CreateTUN (traced P) n k = logOk DevCreated (CreateTUN P n k)" "devUp (traced P) = onDevice (devUp P)"
  "devClose (traced P) = logTry DevClosed (devClose P)" "IpcSet (traced P) t = onDevice (IpcSet P t)"
  "UAPIListen (traced P) n = onDevice (UAPIListen P n)"
  "WriteFile (traced P) p t = logTry (FileWritten p) (WriteFile P p t)"
  "RemoveFile (traced P) p = logTry (FileRemoved p) (RemoveFile P p)" "MkdirAll (traced P) p = onDevice (MkdirAll P p)"
  "ReadFile (traced P) p = onDevice (ReadFile P p)" "ReadDir (traced P) p = onDevice (ReadDir P p)"
  by (simp_all add: traced_def)

lemmas io_eval = bindS_apply mapErrS_def onDevice_def updS_def logOk_def logTry_def ignoreS_def

abbreviation added :: "pinnedRoute \<Rightarrow> call" where
  "added r \<equiv> PinAdded (prAddr r) (prGw r) (prIface r)"

abbreviation removed :: "pinnedRoute \<Rightarrow> call" where
  "removed r \<equiv> PinRemoved (prAddr r) (prGw r) (prIface r)"

lemma Pins_Add_traced:
  "Pins_Add (traced P) as ((w, l), rs) = (r, s') \<Longrightarrow>
   \<exists>new w'. s' = ((w', l @ map added new), rs @ new) \<and> map prAddr new = take (length new) as \<and>
     (isOk r \<longleftrightarrow> length new = length as)"
proof (induction as arbitrary: w l rs)
  case (Cons a as)
  show ?case
  proof (cases "defaultGateway P (Is6 a) w")
    case gw: (Pair g w1)
    show ?thesis
    proof (cases g)
      case (Inl e)
      with gw Cons.prems show ?thesis
        by (auto simp: io_eval intro!: exI [of _ "[]"])
    next
      case (Inr gi)
      obtain g0 i where gi: "gi = (g0, i)" by (cases gi)
      show ?thesis
      proof (cases "addHostRoute P a g0 i w1")
        case ad: (Pair q w2)
        show ?thesis
        proof (cases q)
          case (Inl e)
          with gw ad Cons.prems \<open>g = Inr gi\<close> gi show ?thesis
            by (auto simp: io_eval intro!: exI [of _ "[]"])
        next
          case (Inr u)
          let ?p = "\<lparr>prAddr = a, prGw = g0, prIface = i\<rparr>"
          have "Pins_Add (traced P) as ((w2, l @ [added ?p]), rs @ [?p]) = (r, s')"
            using gw ad Cons.prems \<open>g = Inr gi\<close> gi Inr
            by (simp add: io_eval)
          from Cons.IH [OF this] obtain new w' where
            "s' = ((w', (l @ [added ?p]) @ map added new), (rs @ [?p]) @ new)" "map prAddr new = take (length new) as"
            "isOk r \<longleftrightarrow> length new = length as" by auto
          then show ?thesis by (intro exI [of _ "?p # new"] exI [of _ w']) simp
        qed
      qed
    qed
  qed
qed (auto intro!: exI [of _ "[]"])

lemma delRoutes_traced:
  "\<exists>w'. delRoutes (traced P) rs (w, l) = (Inr (), (w', l @ map removed rs))"
proof (induction rs arbitrary: w l)
  case (Cons r rs)
  obtain q w1 where "delHostRoute P (prAddr r) (prGw r) (prIface r) w = (q, w1)" by fastforce
  then have "delRoutes (traced P) (r # rs) (w, l) = delRoutes (traced P) rs (w1, l @ [removed r])"
    by (simp add: io_eval)
  with Cons [of w1 "l @ [removed r]"] show ?case by simp
qed simp

text \<open>
  C22: pins come and go together.  Whatever the platform does, the host routes that
  \<open>Pins.Add\<close> managed to install - all of them, or those before the first failure - are
  the ones it remembers, and \<open>Pins.Restore\<close> asks for the removal of exactly these, each with
  the gateway and the link it was installed with, and forgets them.
\<close>

theorem pins_restore_what_they_added:
  "\<exists>new w' w'' r. Pins_Add (traced P) as ((w, l), []) = (r, ((w', l @ map added new), new)) \<and>
     map prAddr new = take (length new) as \<and> (isOk r \<longleftrightarrow> length new = length as) \<and>
     Pins_Restore (traced P) ((w', l @ map added new), new) =
       (Inr (), ((w'', l @ map added new @ map removed new), []))"
proof -
  obtain r s' where a: "Pins_Add (traced P) as ((w, l), []) = (r, s')" by (metis surj_pair)
  from Pins_Add_traced [OF a] obtain new w' where n: "s' = ((w', l @ map added new), new)"
    "map prAddr new = take (length new) as" "isOk r \<longleftrightarrow> length new = length as" by auto
  obtain w'' where "delRoutes (traced P) new (w', l @ map added new) = (Inr (), (w'', (l @ map added new) @ map removed new))"
    using delRoutes_traced [of P new w' "l @ map added new"] by blast
  with a n show ?thesis by (auto simp: Pins_Restore_def)
qed
end

