(* ===== verification/Hsm.thy ===== *)
theory Hsm
  imports Routing
begin

text \<open>
  \<open>internal/runtime/hsm.go\<close>: the handshake path into the device.  The mutable part of an
  \<open>HSM\<close> is shared with other goroutines - a session may be renewed while a handshake is
  being retried - so the retry loop takes, for each attempt, what they did to it during the
  pause before.  The channel \<open>dead\<close> has room for one signal: it is a flag.
\<close>

definition ecdhRetries :: nat where "ecdhRetries = 3"

record HSM =
  hsmToken :: string
  hsmKid :: string
  hsmPubKey :: bytes
  extKIDs :: "bytes \<Rightarrow> string option"
  dead :: bool

definition NewHSM :: "string \<Rightarrow> string \<Rightarrow> bytes \<Rightarrow> HSM" where
  "NewHSM token kid pubKey =
     \<lparr>hsmToken = token, hsmKid = kid, hsmPubKey = pubKey, extKIDs = (\<lambda>_. None), dead = False\<rparr>"

definition SetToken :: "string \<Rightarrow> HSM \<Rightarrow> HSM" where
  "SetToken token h = h\<lparr>hsmToken := token\<rparr>"

definition AddPeerKID :: "bytes \<Rightarrow> string \<Rightarrow> HSM \<Rightarrow> HSM" where
  "AddPeerKID pubKey kid h = h\<lparr>extKIDs := (extKIDs h)(pubKey := Some kid)\<rparr>"

definition peerKID :: "HSM \<Rightarrow> bytes \<Rightarrow> string option" where
  "peerKID h pubKey = extKIDs h pubKey"

text \<open>\<open>copy(out[:], result)\<close> into a 32-byte array.\<close>

definition copy32 :: "bytes \<Rightarrow> bytes" where
  "copy32 b = take 32 (b @ replicate 32 0)"

text \<open>
  The loop, with the number of attempts left.  \<open>pause i\<close> is what other goroutines do to the
  shared fields before attempt \<open>i\<close>; attempt 0 starts at once.
\<close>

fun ecdhLoop :: "'w Client \<Rightarrow> (nat \<Rightarrow> HSM \<Rightarrow> HSM) \<Rightarrow> CryptoOpts \<Rightarrow> nat \<Rightarrow> error list \<Rightarrow> ('w \<times> HSM, error, bytes) io" where
  "ecdhLoop c pause opts 0 lastErr = failS (Wrap ''HEM %s unreachable after %d attempts: %w'' lastErr)"
| "ecdhLoop c pause opts (Suc n) lastErr =
     (\<lambda>(w, h).
        let i = ecdhRetries - Suc n; h = (if i > 0 then pause i h else h) in
        case ECDH c (hsmToken h) (hsmKid h) opts w of
          (Inr result, w') \<Rightarrow> (Inr (copy32 result), (w', h))
        | (Inl e, w') \<Rightarrow> ecdhLoop c pause opts n [e] (w', h))"

definition ecdh :: "'w Client \<Rightarrow> (nat \<Rightarrow> HSM \<Rightarrow> HSM) \<Rightarrow> CryptoOpts \<Rightarrow> ('w \<times> HSM, error, bytes) io" where
  "ecdh c pause opts = ecdhLoop c pause opts ecdhRetries []"

text \<open>The function \<open>Inject\<close> hands to the WireGuard library.\<close>

definition injectedECDH :: "'w Client \<Rightarrow> (nat \<Rightarrow> HSM \<Rightarrow> HSM) \<Rightarrow> bytes \<Rightarrow> ('w \<times> HSM, error, bytes) io" where
  "injectedECDH c pause pub =
     (\<lambda>(w, h).
        case peerKID h pub of
          Some extKID \<Rightarrow> ecdh c pause (noOpts\<lparr>optExtKID := extKID\<rparr>) (w, h)
        | None \<Rightarrow>
            (case ecdh c pause (noOpts\<lparr>optPubKey := pub\<rparr>) (w, h) of
               (Inr x, s) \<Rightarrow> (Inr x, s)
             | (Inl e, (w', h')) \<Rightarrow> (Inl e, (w', h'\<lparr>dead := True\<rparr>))))"

definition operandKind :: "CryptoOpts \<Rightarrow> string" where
  "operandKind opts = (if optExtKID opts \<noteq> [] then ''static'' else ''ephemeral'')"

definition headTail :: "bytes \<Rightarrow> string" where
  "headTail b =
     (if length b \<le> 8 then hexEncodeToString b
      else hexEncodeToString (take 4 b) @ ''...'' @ hexEncodeToString (drop (length b - 4) b))"

subsection \<open>What a failed exchange signals\<close>

lemma ecdhLoop_dead:
  assumes "\<And>i h. dead (pause i h) = dead h"
  shows "dead (snd (snd (ecdhLoop c pause opts n es (w, h)))) = dead h"
  using assms
proof (induction n arbitrary: es w h)
  case (Suc n)
  let ?i = "ecdhRetries - Suc n"
  let ?h = "if ?i > 0 then pause ?i h else h"
  obtain r w' where "ECDH c (hsmToken ?h) (hsmKid ?h) opts w = (r, w')" by (metis surj_pair)
  then show ?case using Suc by (cases r) (simp_all add: Let_def)
qed simp

text \<open>
  C34: the tunnel is given up for an ephemeral key only.  After an exchange the signal that
  the device is gone is set exactly when it was set before, or the exchange failed past its
  retries and the key was not one of a known peer.  A static exchange that fails past its
  retries - the first call on a new peer - leaves the signal alone, although the comment on
  \<open>Dead\<close> speaks of any handshake exchange.
\<close>

theorem dead_fires_for_ephemerals_only:
  assumes "\<And>i h. dead (pause i h) = dead h" and "injectedECDH c pause pub (w, h) = (r, (w', h'))"
  shows "dead h' \<longleftrightarrow> dead h \<or> (\<not> isOk r \<and> peerKID h pub = None)"
proof (cases "peerKID h pub")
  case (Some kid)
  let ?e = "ecdhLoop c pause (noOpts\<lparr>optExtKID := kid\<rparr>) ecdhRetries [] (w, h)"
  have "dead (snd (snd ?e)) = dead h" by (rule ecdhLoop_dead [OF assms(1)])
  with assms(2) Some show ?thesis by (simp add: injectedECDH_def ecdh_def)
next
  case None
  let ?e = "ecdhLoop c pause (noOpts\<lparr>optPubKey := pub\<rparr>) ecdhRetries [] (w, h)"
  have "dead (snd (snd ?e)) = dead h" by (rule ecdhLoop_dead [OF assms(1)])
  with assms(2) None show ?thesis
    by (cases ?e; cases "fst ?e") (auto simp: injectedECDH_def ecdh_def)
qed

lemma ecdh_unfold:
  "ecdh c pause opts (w, h) =
     (case ECDH c (hsmToken h) (hsmKid h) opts w of
        (Inr x, w1) \<Rightarrow> (Inr (copy32 x), (w1, h))
      | (Inl _, w1) \<Rightarrow>
          (let h1 = pause 1 h in
           case ECDH c (hsmToken h1) (hsmKid h1) opts w1 of
             (Inr x, w2) \<Rightarrow> (Inr (copy32 x), (w2, h1))
           | (Inl _, w2) \<Rightarrow>
               (let h2 = pause 2 h1 in
                case ECDH c (hsmToken h2) (hsmKid h2) opts w2 of
                  (Inr x, w3) \<Rightarrow> (Inr (copy32 x), (w3, h2))
                | (Inl e, w3) \<Rightarrow> (Inl (Wrap ''HEM %s unreachable after %d attempts: %w'' [e]), (w3, h2)))))"
  by (simp add: ecdh_def ecdhRetries_def numeral_3_eq_3 numeral_2_eq_2 Let_def split: prod.splits sum.splits)

text \<open>A token renewed during a pause is the one the next attempt acts with.\<close>

lemma renewed_token_is_used:
  assumes "\<And>w. isOk (fst (ECDH c token (hsmKid h) opts w))" and "pause 1 h = SetToken token h"
  shows "isOk (fst (ecdh c pause opts (w, h)))"
proof -
  obtain r w1 where a: "ECDH c (hsmToken h) (hsmKid h) opts w = (r, w1)" by (metis surj_pair)
  obtain x w2 where "ECDH c token (hsmKid h) opts w1 = (Inr x, w2)"
    using assms(1) [of w1] by (cases "ECDH c token (hsmKid h) opts w1"; cases "fst (ECDH c token (hsmKid h) opts w1)") auto
  with a assms(2) show ?thesis by (cases r) (simp_all add: ecdh_unfold SetToken_def)
qed

text \<open>An answer of the wrong length is not refused: it is cut or filled with zeros.\<close>

lemma short_secret_is_filled:
  "ECDH c (hsmToken h) (hsmKid h) opts w = (Inr b, w') \<Longrightarrow>
   ecdh c pause opts (w, h) = (Inr (take 32 b @ replicate (32 - length b) 0), (w', h))"
  by (simp add: ecdh_unfold copy32_def)

theorem dead_fires_for_ephemerals_only_witness:
  "\<not> dead (snd (snd (injectedECDH (deafClient :: unit Client) (\<lambda>_ h. h) [1]
      ((), AddPeerKID [1] ''kid'' (NewHSM ''t'' ''k'' [2]))))) \<and>
   dead (snd (snd (injectedECDH (deafClient :: unit Client) (\<lambda>_ h. h) [9]
      ((), AddPeerKID [1] ''kid'' (NewHSM ''t'' ''k'' [2])))))"
proof -
  let ?h = "AddPeerKID [1] ''kid'' (NewHSM ''t'' ''k'' [2])"
  have f: "fst (injectedECDH (deafClient :: unit Client) (\<lambda>_ h. h) pub ((), ?h)) =
      Inl (Wrap ''HEM %s unreachable after %d attempts: %w'' [HemError 403 ''forbidden''])" for pub
    by (simp add: injectedECDH_def ecdh_unfold deafClient_def split: option.splits)
  have "dead (snd (snd (injectedECDH (deafClient :: unit Client) (\<lambda>_ h. h) pub ((), ?h)))) \<longleftrightarrow>
      dead ?h \<or> peerKID ?h pub = None" for pub
    using dead_fires_for_ephemerals_only [of "\<lambda>_ h. h" deafClient pub "()" ?h] f [of pub]
    by (metis isOk.simps(1) prod.collapse)
  then show ?thesis by (simp add: AddPeerKID_def NewHSM_def peerKID_def)
qed

end
