(* ===== verification/DescrCodec.thy ===== *)
theory DescrCodec
  imports Descr
begin

text \<open>
  The record codec is a bijection between the canonical configurations and the accepted
  records.  The bridge is the list of tag-length-value items a record stands for: encoding
  writes the header and the flattened items, parsing a header and flattened items with
  ascending non-zero tags gives the items back and nothing else parses.  The two record
  types then differ in their items only, and the consequences of the round trips are proved
  once, in the locale \<open>record_codec\<close>.
\<close>

subsection \<open>Items and their bytes\<close>

definition flat :: "tlvItem list \<Rightarrow> bytes" where
  "flat items = concat (map (\<lambda>(t, v). t # word_of_nat (length v) # v) items)"

definition header :: "string \<Rightarrow> bytes" where
  "header magic = bytes_of magic @ [Version]"

definition opt_item :: "bool \<Rightarrow> tlvItem \<Rightarrow> tlvItem list" where
  "opt_item b it = (if b then [it] else [])"

definition pfx_items :: "byte \<Rightarrow> byte \<Rightarrow> Prefix list \<Rightarrow> tlvItem list" where
  "pfx_items t4 t6 ps =
     map (\<lambda>p. (t4, As4 (pfxAddr p) @ [word_of_int (pfxBits p)])) (filter (\<lambda>p. Is4 (pfxAddr p)) ps) @
     map (\<lambda>p. (t6, As16 (pfxAddr p) @ [word_of_int (pfxBits p)])) (filter (\<lambda>p. \<not> Is4 (pfxAddr p)) ps)"

definition dns_items :: "Addr list \<Rightarrow> tlvItem list" where
  "dns_items ds = map (\<lambda>d. (TagDNS4, As4 d)) (filter Is4 ds) @
                  map (\<lambda>d. (TagDNS6, As16 d)) (filter (\<lambda>d. \<not> Is4 d) ds)"

definition if_items :: "Interface \<Rightarrow> tlvItem list" where
  "if_items i =
     pfx_items TagADDR4 TagADDR6 (Addrs i) @ opt_item (MTU i \<noteq> 0) (TagMTU, be16 (MTU i)) @
     dns_items (DNS i) @ map (Pair TagPeerRef) (PeerRefs i) @
     opt_item (ListenPort i \<noteq> 0) (TagListenPort, be16 (ListenPort i)) @
     opt_item (HasMAC i) (TagMAC, MAC i)"

definition endpoint_item :: "Endpoint \<Rightarrow> tlvItem" where
  "endpoint_item e =
     (if Host e \<noteq> [] then (TagEndpointHost, be16 (Port e) @ bytes_of (Host e))
      else if Is4 (IP e) then (TagEndpoint4, As4 (IP e) @ be16 (Port e))
      else (TagEndpoint6, As16 (IP e) @ be16 (Port e)))"

definition peer_items :: "Peer \<Rightarrow> tlvItem list" where
  "peer_items p =
     endpoint_item (peerEndpoint p) # pfx_items TagAIP4 TagAIP6 (AllowedIPs p) @
     opt_item (Keepalive p \<noteq> 0) (TagKeepalive, [Keepalive p]) @
     opt_item (PSKWrapped p \<noteq> []) (TagPSKWrapped, PSKWrapped p)"

definition short :: "tlvItem list \<Rightarrow> bool" where
  "short items \<longleftrightarrow> (\<forall>(t, v) \<in> set items. length v \<le> 255)"

lemma flat_simps [simp]:
  "flat [] = []"
  "flat ((t, v) # items) = t # word_of_nat (length v) # v @ flat items"
  "flat (xs @ ys) = flat xs @ flat ys"
  by (auto simp: flat_def)

lemma short_simps [simp]:
  "short []" "short ((t, v) # items) \<longleftrightarrow> length v \<le> 255 \<and> short items"
  "short (xs @ ys) \<longleftrightarrow> short xs \<and> short ys"
  by (auto simp: short_def)

lemma be16_simps [simp]: "length (be16 v) = 2" "Uint16 (be16 v) = v"
proof -
  have "unat v < 65536" using unsigned_less [of v, where 'a = nat] by simp
  then show "Uint16 (be16 v) = v" by (simp add: be16_def Uint16_def)
qed (simp add: be16_def)

lemma be16_Uint16: "length b = 2 \<Longrightarrow> be16 (Uint16 b) = b"
  using unat_word_be_nat [of b, where 'a = 16] by (simp add: be16_def Uint16_def be_bytes_be_nat)

lemma Uint16_append [simp]: "Uint16 (be16 v @ b) = v"
proof -
  have "take 2 (be16 v @ b) = take 2 (be16 v)" by simp
  then show ?thesis by (metis Uint16_def be16_simps(2))
qed

lemma length_header [simp]: "length (header magic) = Suc (length magic)"
  by (simp add: header_def)

lemma length_magic [simp]: "length MagicInterface = 6" "length MagicPeer = 6"
  by (simp_all add: MagicInterface_def MagicPeer_def)

subsection \<open>Writing is flattening\<close>

lemma tlv_ok: "werr w = None \<Longrightarrow> length v \<le> 255 \<Longrightarrow> tlv t v w = w\<lparr>buf := buf w @ flat [(t, v)]\<rparr>"
  by (simp add: tlv_def)

definition emit :: "tlvItem list \<Rightarrow> writer \<Rightarrow> writer" where
  "emit items w = fold (\<lambda>(t, v). tlv t v) items w"

lemma emit_append: "emit (xs @ ys) w = emit ys (emit xs w)"
  by (simp add: emit_def)

lemma emit_opt: "emit (opt_item b it) w = (if b then tlv (fst it) (snd it) w else w)"
  by (cases it) (simp add: emit_def opt_item_def)

lemma emit_ok: "short items \<Longrightarrow> werr w = None \<Longrightarrow> emit items w = w\<lparr>buf := buf w @ flat items\<rparr>"
proof (induction items arbitrary: w)
  case (Cons it items)
  obtain t v where "it = (t, v)" by (cases it)
  with Cons show ?case by (simp add: emit_def tlv_ok)
qed (simp add: emit_def)

lemma fold_filtered: "fold (\<lambda>x w. if P x then f x w else w) xs w = fold f (filter P xs) w"
  by (induction xs arbitrary: w) auto

lemma encodePrefixes_emit:
  "encodePrefixes w ps t4 t6 what =
     (if \<exists>p \<in> set ps. \<not> PrefixIsValid p then Inl (ErrInvalidPrefix what)
      else Inr (emit (pfx_items t4 t6 ps) w))"
  by (simp add: encodePrefixes_def emit_def pfx_items_def fold_filtered fold_map o_def
      appendPrefix4_def appendPrefix6_def)

lemma encodeDNS_emit:
  "encodeDNS pass ds w =
     (if \<exists>d \<in> set ds. \<not> AddrIsValid d then Inl ErrInvalidDNS
      else Inr (emit (map (\<lambda>d. if pass then (TagDNS4, As4 d) else (TagDNS6, As16 d))
                        (filter (\<lambda>d. Is4 d = pass) ds)) w))"
  by (induction pass ds w rule: encodeDNS.induct) (auto simp: emit_def)

subsection \<open>Parsing inverts flattening\<close>

lemma firstNonZero_None: "firstNonZero j b = None \<longleftrightarrow> b = replicate (length b) 0"
  by (induction b arbitrary: j) auto

lemma parseLoop_zeros [simp]: "parseLoop i t (replicate k 0) = Inr []"
proof (cases k)
  case (Suc n)
  then have "firstNonZero i (0 # replicate n 0) = None" by (subst firstNonZero_None) simp
  with Suc show ?thesis by (simp add: tagEnd_def)
qed simp

lemma parseLoop_flat:
  "short items \<Longrightarrow> sorted (t # map fst items) \<Longrightarrow> tagEnd \<notin> fst ` set items \<Longrightarrow>
   parseLoop i t (flat items @ replicate k 0) = Inr items"
proof (induction items arbitrary: i t)
  case (Cons it items)
  obtain u v where it: "it = (u, v)" by (cases it)
  with Cons.prems have "unat (word_of_nat (length v) :: byte) = length v"
    by (simp add: unat_byte_of_nat)
  moreover have "parseLoop (i + 2 + length v) u (flat items @ replicate k 0) = Inr items"
    using Cons it by auto
  ultimately show ?case
    using Cons.prems it by (auto simp: Let_def not_less)
qed simp

lemma parseLoop_inv:
  "parseLoop i t b = Inr items \<Longrightarrow>
     (\<exists>k. b = flat items @ replicate k 0) \<and> short items \<and> sorted (t # map fst items) \<and>
     tagEnd \<notin> fst ` set items"
proof (induction i t b arbitrary: items rule: parseLoop.induct)
  case (1 i t)
  then show ?case by (auto intro: exI [of _ 0])
next
  case (2 i t tag rest)
  show ?case
  proof (cases "tag = tagEnd")
    case True
    with 2(2) have z: "firstNonZero i (tag # rest) = None" and items: "items = []"
      by (auto split: option.splits if_splits)
    from z have "tag # rest = flat items @ replicate (length (tag # rest)) 0"
      by (subst (asm) firstNonZero_None) (simp add: items)
    then have "\<exists>k. tag # rest = flat items @ replicate k 0" by (rule exI)
    with items show ?thesis by simp
  next
    case False
    with 2(2) obtain l body items' where
      rest: "rest = l # body" and n: "unat l \<le> length body" and t: "t \<le> tag" and
      p: "parseLoop (i + 2 + unat l) tag (drop (unat l) body) = Inr items'" and
      items: "items = (tag, take (unat l) body) # items'"
      by (auto simp: Let_def result_inv split: if_splits list.splits)
    from 2(1) [OF False _ rest refl _ p] t n
    obtain k where "drop (unat l) body = flat items' @ replicate k 0"
      and h: "short items'" "sorted (tag # map fst items')" "tagEnd \<notin> fst ` set items'"
      by (auto simp: not_less)
    then have "body = take (unat l) body @ flat items' @ replicate k 0"
      by (metis append_take_drop_id)
    then have "tag # rest = flat items @ replicate k 0"
      using rest items n by (simp add: min_def)
    moreover have "short items"
    proof -
      have "unat l \<le> 255" using unat_byte_less [of l] by linarith
      with h(1) items show ?thesis by auto
    qed
    moreover have "sorted (t # map fst items)" using h(2) t items by auto
    ultimately show ?thesis using h(3) False items by auto
  qed
qed

text \<open>
  A slice parses exactly when it is the header followed by items with ascending non-zero
  tags and then zeros, and the items it parses to are those.
\<close>

lemma parse_iff:
  assumes "length magic = 6"
  shows "parse sz b magic = Inr items \<longleftrightarrow>
     length b \<le> Size sz \<and> (\<exists>k. b = header magic @ flat items @ replicate k 0) \<and>
     short items \<and> sorted (map fst items) \<and> tagEnd \<notin> fst ` set items"
    (is "?l \<longleftrightarrow> ?r")
proof
  assume l: ?l
  then have len: "7 \<le> length b" "length b \<le> Size sz"
    and m: "take 6 b = bytes_of magic" "b ! 6 = Version"
    and p: "parseLoop headerLen 0 (drop 7 b) = Inr items"
    by (auto simp: parse_def descr_lens not_less split: if_splits)
  have "b = take 6 b @ b ! 6 # drop 7 b"
    using len id_take_nth_drop [of 6 b] by simp
  then have "b = header magic @ drop 7 b" by (simp add: header_def m)
  with parseLoop_inv [OF p] len(2) show ?r by auto
next
  assume ?r
  then obtain k where b: "b = header magic @ flat items @ replicate k 0" "length b \<le> Size sz"
    and h: "short items" "sorted (map fst items)" "tagEnd \<notin> fst ` set items"
    by blast
  have "take 6 b = bytes_of magic" "b ! 6 = Version" "7 \<le> length b"
    "drop 7 b = flat items @ replicate k 0"
    using assms by (auto simp: b header_def nth_append)
  moreover have "parseLoop headerLen 0 (flat items @ replicate k 0) = Inr items"
    using h by (intro parseLoop_flat) (auto simp: word_le_def)
  ultimately show ?l using b(2) by (simp add: parse_def descr_lens not_less)
qed

lemma pad_append: "length b \<le> Size sz \<Longrightarrow> pad sz b = b @ replicate (Size sz - length b) 0"
  by (simp add: pad_def)

lemma pad_zeros: "length (b @ replicate k 0) \<le> Size sz \<Longrightarrow> pad sz (b @ replicate k 0) = pad sz b"
  by (simp add: pad_def replicate_add [symmetric])

lemma length_pad [simp]: "length (pad sz b) = Size sz"
  by (simp add: pad_def)

lemma Normalize_header:
  "length magic = 6 \<Longrightarrow> length (header magic @ xs @ replicate k 0) \<le> Size sz \<Longrightarrow>
   Normalize sz (header magic @ xs @ replicate k 0) = Inr (pad sz (header magic @ xs))"
  using pad_zeros [of "header magic @ xs" k sz] by (simp add: Normalize_def descr_lens)

lemma finish_emit:
  assumes "short items"
  shows "finish sz kind (emit items (startWriter magic)) =
     (let b = header magic @ flat items in
      if length b > Size sz then Inl (ErrOverflow kind (length b) (length b - Size sz)) else Inr (pad sz b))"
  using assms by (simp add: emit_ok startWriter_def finish_def header_def)

subsection \<open>What a record codec promises\<close>

text \<open>
  A client of the codec relies on four laws: reading a written value gives its canonical
  form, a value read writes the padded form of what it was read from, only canonical
  well-formed values are read, and writing gives padded records.
\<close>

locale record_codec =
  fixes enc :: "'r \<Rightarrow> 'e + bytes" and dec :: "bytes \<Rightarrow> 'e + 'r"
    and norm :: "bytes \<Rightarrow> 'e + bytes" and canon :: "'r \<Rightarrow> 'r" and wf :: "'r \<Rightarrow> bool"
  assumes enc_dec: "wf r \<Longrightarrow> enc r = Inr b \<Longrightarrow> dec b = Inr (canon r)"
    and dec_enc: "dec b = Inr r \<Longrightarrow> enc r = norm b"
    and dec_canonical: "dec b = Inr r \<Longrightarrow> wf r \<and> canon r = r"
    and enc_padded: "wf r \<Longrightarrow> enc r = Inr b \<Longrightarrow> norm b = Inr b"
    and dec_padded: "dec b = Inr r \<Longrightarrow> \<exists>b'. norm b = Inr b'"
begin

lemma one_encoding: "dec b = Inr r \<Longrightarrow> dec b' = Inr r \<Longrightarrow> norm b = norm b'"
  using dec_enc by metis

lemma one_configuration:
  "wf r \<Longrightarrow> wf s \<Longrightarrow> enc r = Inr b \<Longrightarrow> enc s = Inr b \<Longrightarrow> canon r = canon s"
  using enc_dec by (metis sum.inject(2))

lemma dec_norm: "dec b = Inr r \<Longrightarrow> norm b = Inr b' \<Longrightarrow> dec b' = Inr r"
  using dec_enc dec_canonical enc_dec by metis

lemma enc_canon: "wf r \<Longrightarrow> enc r = Inr b \<Longrightarrow> enc (canon r) = Inr b"
  using enc_dec dec_enc enc_padded by metis

lemma canon_idem: "wf r \<Longrightarrow> enc r = Inr b \<Longrightarrow> canon (canon r) = canon r"
  using enc_dec dec_canonical by blast

lemma same_record_iff:
  "dec b = Inr r \<Longrightarrow> dec b' = Inr r' \<Longrightarrow> norm b = norm b' \<longleftrightarrow> r = r'"
  using dec_norm dec_padded one_encoding by (metis sum.inject(2))

end

subsection \<open>Prefixes inside a record\<close>

definition byFamily :: "('a \<Rightarrow> bool) \<Rightarrow> 'a list \<Rightarrow> 'a list" where
  "byFamily P xs = filter P xs @ filter (\<lambda>x. \<not> P x) xs"

abbreviation pfx4 :: "Prefix \<Rightarrow> bool" where "pfx4 p \<equiv> Is4 (pfxAddr p)"

lemma byFamily_idem [simp]: "byFamily P (byFamily P xs) = byFamily P xs"
  by (simp add: byFamily_def)

lemma set_byFamily [simp]: "set (byFamily P xs) = set xs"
  by (auto simp: byFamily_def)

lemma length_byFamily [simp]: "length (byFamily P xs) = length xs"
  by (simp add: byFamily_def sum_length_filter_compl)

lemma filter_byFamily [simp]:
  "filter P (byFamily P xs) = filter P xs"
  "filter (\<lambda>x. \<not> P x) (byFamily P xs) = filter (\<lambda>x. \<not> P x) xs"
  by (simp_all add: byFamily_def)

lemma byFamily_snoc:
  assumes "byFamily P xs = xs"
  shows "P y \<Longrightarrow> filter (\<lambda>x. \<not> P x) xs = [] \<Longrightarrow> byFamily P (xs @ [y]) = xs @ [y]"
    and "\<not> P y \<Longrightarrow> byFamily P (xs @ [y]) = xs @ [y]"
  using assms by (auto simp: byFamily_def)

lemma unat_prefix_bits:
  "0 \<le> n \<Longrightarrow> n \<le> 128 \<Longrightarrow> int (unat (word_of_int n :: byte)) = n"
  by (simp add: unsigned_of_int take_bit_int_eq_self)

lemma BitLen_le: "BitLen a \<le> 128"
  by (cases a) auto

lemma PrefixFrom_byte:
  assumes "wf_Prefix p" and "PrefixIsValid p"
  shows "PrefixFrom (pfxAddr p) (int (unat (word_of_int (pfxBits p) :: byte))) = p"
    and "WithoutZone (pfxAddr p) = pfxAddr p" and "AddrIsValid (pfxAddr p)"
proof -
  have "0 \<le> pfxBits p" "pfxBits p \<le> 128"
    using assms BitLen_le [of "pfxAddr p"] by (auto simp: wf_Prefix_def PrefixIsValid_def)
  then show "PrefixFrom (pfxAddr p) (int (unat (word_of_int (pfxBits p) :: byte))) = p"
    using assms by (simp only: unat_prefix_bits PrefixFrom_self)
qed (use assms in \<open>auto simp: wf_Prefix_def PrefixIsValid_def\<close>)

lemma prefixFrom_As4:
  "wf_Prefix p \<Longrightarrow> PrefixIsValid p \<Longrightarrow> Is4 (pfxAddr p) \<Longrightarrow>
   prefixFrom (As4 (pfxAddr p) @ [word_of_int (pfxBits p)]) 4 = Inr p"
  by (simp add: prefixFrom_def nth_append PrefixFrom_byte Let_def del: of_nat_unat)

lemma prefixFrom_As16:
  "wf_Prefix p \<Longrightarrow> PrefixIsValid p \<Longrightarrow> \<not> Is4 (pfxAddr p) \<Longrightarrow>
   prefixFrom (As16 (pfxAddr p) @ [word_of_int (pfxBits p)]) 16 = Inr p"
  by (simp add: prefixFrom_def nth_append PrefixFrom_byte Let_def del: of_nat_unat)

lemma prefixFrom_inv:
  assumes "prefixFrom v n = Inr p" and "length v = Suc n" and "n = 4 \<or> n = 16"
  shows "wf_Prefix p \<and> PrefixIsValid p \<and> Is4 (pfxAddr p) = (n = 4) \<and>
     (if n = 4 then As4 (pfxAddr p) else As16 (pfxAddr p)) @ [word_of_int (pfxBits p)] = v"
proof -
  from assms(1) obtain a where a: "AddrFromSlice (take n v) = Some a"
    and p: "p = PrefixFrom a (int (unat (v ! n)))" and valid: "PrefixIsValid p"
    by (auto simp: prefixFrom_def Let_def split: option.splits if_splits)
  have len: "length (take n v) = n" using assms(2) by simp
  have addr: "Is4 a = (n = 4) \<and> (if n = 4 then As4 a else As16 a) = take n v \<and> WithoutZone a = a"
    using AddrFromSlice_4 [OF _ a] AddrFromSlice_16 [OF _ a] assms(3) len by auto
  have bits: "pfxBits p = int (unat (v ! n))"
    using valid p by (auto simp: PrefixFrom_def PrefixIsValid_def split: if_splits)
  have "v = take n v @ [v ! n]"
    using assms(2) id_take_nth_drop [of n v] by simp
  moreover have "wf_Prefix p" and "pfxAddr p = a"
    using addr p by (simp_all only: wf_PrefixFrom) (simp add: PrefixFrom_def)
  ultimately show ?thesis
    using addr bits valid by auto
qed

subsection \<open>The interface record\<close>

text \<open>What Go's types guarantee of an \<open>Interface\<close> value.\<close>

definition wf_Interface :: "Interface \<Rightarrow> bool" where
  "wf_Interface i \<longleftrightarrow> (\<forall>p \<in> set (Addrs i). wf_Prefix p) \<and>
     (\<forall>r \<in> set (PeerRefs i). length r = PeerRefLen) \<and> length (MAC i) = MACLen"

text \<open>The value a record gives back: families grouped, zones and an unused MAC forgotten.\<close>

definition canonInterface :: "Interface \<Rightarrow> Interface" where
  "canonInterface i =
     i\<lparr>Addrs := byFamily pfx4 (Addrs i), DNS := map WithoutZone (byFamily Is4 (DNS i)),
       MAC := (if HasMAC i then MAC i else zeroMAC)\<rparr>"

definition ifBytes :: "Interface \<Rightarrow> bytes" where
  "ifBytes i = header MagicInterface @ flat (if_items i)"

lemma short_pfx_items [simp]: "short (pfx_items t4 t6 ps)"
  by (auto simp: short_def pfx_items_def)

lemma short_dns_items [simp]: "short (dns_items ds)"
  by (auto simp: short_def dns_items_def)

lemma short_opt_item [simp]: "short (opt_item b (t, v)) \<longleftrightarrow> (b \<longrightarrow> length v \<le> 255)"
  by (simp add: opt_item_def)

lemma short_if_items: "wf_Interface i \<Longrightarrow> short (if_items i)"
proof -
  assume wf: "wf_Interface i"
  then have "short (map (Pair TagPeerRef) (PeerRefs i))"
    by (auto simp: short_def wf_Interface_def PeerRefLen_def)
  with wf show ?thesis by (simp add: if_items_def wf_Interface_def MACLen_def)
qed

lemma encodeDNS_both:
  "bindE (encodeDNS True ds w) (\<lambda>w. bindE (encodeDNS False ds w) f) =
     (if \<exists>d \<in> set ds. \<not> AddrIsValid d then Inl ErrInvalidDNS else f (emit (dns_items ds) w))"
  by (auto simp: encodeDNS_emit dns_items_def emit_append cong: filter_cong)

lemma fold_refs: "fold (tlv TagPeerRef) rs w = emit (map (Pair TagPeerRef) rs) w"
  by (simp add: emit_def fold_map o_def)

text \<open>Every outcome of \<open>Interface.Encode\<close>, in the order the code meets them.\<close>

lemma Interface_Encode_eq:
  assumes "wf_Interface i"
  shows "Interface_Encode sz i =
     (if \<exists>p \<in> set (Addrs i). \<not> PrefixIsValid p then Inl (ErrInvalidPrefix ''interface address'')
      else if \<exists>d \<in> set (DNS i). \<not> AddrIsValid d then Inl ErrInvalidDNS
      else if length (ifBytes i) > Size sz
      then Inl (ErrOverflow ''interface'' (length (ifBytes i)) (length (ifBytes i) - Size sz))
      else Inr (pad sz (ifBytes i)))"
proof -
  have "Interface_Encode sz i =
     (if \<exists>p \<in> set (Addrs i). \<not> PrefixIsValid p then Inl (ErrInvalidPrefix ''interface address'')
      else if \<exists>d \<in> set (DNS i). \<not> AddrIsValid d then Inl ErrInvalidDNS
      else finish sz ''interface'' (emit (if_items i) (startWriter MagicInterface)))"
    by (simp add: Interface_Encode_def encodePrefixes_emit encodeDNS_both Let_def if_items_def
        emit_append emit_opt fold_refs)
  then show ?thesis
    using finish_emit [OF short_if_items [OF assms], of sz "''interface''" MagicInterface]
    by (simp add: ifBytes_def Let_def)
qed

text \<open>Reading a group of items back, one lemma per group of the record.\<close>

lemma ifItems_pfx4:
  "\<forall>p \<in> set ps. wf_Prefix p \<and> PrefixIsValid p \<and> pfx4 p \<Longrightarrow> \<not> seen TagMAC \<Longrightarrow>
   ifItems (map (\<lambda>p. (TagADDR4, As4 (pfxAddr p) @ [word_of_int (pfxBits p)])) ps @ rest) out seen =
   ifItems rest (out\<lparr>Addrs := Addrs out @ ps\<rparr>) seen"
  by (induction ps arbitrary: out) (auto simp: ifItem_def expect_def prefixFrom_As4)

lemma ifItems_pfx6:
  "\<forall>p \<in> set ps. wf_Prefix p \<and> PrefixIsValid p \<and> \<not> pfx4 p \<Longrightarrow> \<not> seen TagMAC \<Longrightarrow>
   ifItems (map (\<lambda>p. (TagADDR6, As16 (pfxAddr p) @ [word_of_int (pfxBits p)])) ps @ rest) out seen =
   ifItems rest (out\<lparr>Addrs := Addrs out @ ps\<rparr>) seen"
  by (induction ps arbitrary: out)
    (auto simp: ifItem_def expect_def prefixFrom_As16 TagADDR4_def TagADDR6_def)

lemma ifItems_dns4:
  "\<forall>d \<in> set ds. Is4 d \<Longrightarrow> \<not> seen TagMAC \<Longrightarrow>
   ifItems (map (\<lambda>d. (TagDNS4, As4 d)) ds @ rest) out seen =
   ifItems rest (out\<lparr>DNS := DNS out @ map WithoutZone ds\<rparr>) seen"
  by (induction ds arbitrary: out)
    (auto simp: ifItem_def expect_def addrOf_def Is4_WithoutZone_id
      TagADDR4_def TagADDR6_def TagMTU_def TagDNS4_def)

lemma ifItems_dns6:
  "\<forall>d \<in> set ds. AddrIsValid d \<and> \<not> Is4 d \<Longrightarrow> \<not> seen TagMAC \<Longrightarrow>
   ifItems (map (\<lambda>d. (TagDNS6, As16 d)) ds @ rest) out seen =
   ifItems rest (out\<lparr>DNS := DNS out @ map WithoutZone ds\<rparr>) seen"
  by (induction ds arbitrary: out)
    (auto simp: ifItem_def expect_def addrOf_def
      TagADDR4_def TagADDR6_def TagMTU_def TagDNS4_def TagDNS6_def)

lemma ifItems_refs:
  "\<forall>r \<in> set rs. length r = PeerRefLen \<Longrightarrow> \<not> seen TagMAC \<Longrightarrow>
   ifItems (map (Pair TagPeerRef) rs @ rest) out seen =
   ifItems rest (out\<lparr>PeerRefs := PeerRefs out @ rs\<rparr>) seen"
  by (induction rs arbitrary: out)
    (auto simp: ifItem_def expect_def
      TagADDR4_def TagADDR6_def TagMTU_def TagDNS4_def TagDNS6_def TagPeerRef_def)

lemma ifItems_MTU:
  "\<not> seen TagMAC \<Longrightarrow> \<not> seen TagMTU \<Longrightarrow> MTU out = 0 \<Longrightarrow>
   ifItems (opt_item (m \<noteq> 0) (TagMTU, be16 m) @ rest) out seen =
   ifItems rest (out\<lparr>MTU := m\<rparr>) (if m \<noteq> 0 then seen(TagMTU := True) else seen)"
  by (cases out) (simp add: opt_item_def ifItem_def expect_def once_def nonZero_def unat_eq_0
      TagADDR4_def TagADDR6_def TagMTU_def)

lemma ifItems_port:
  "\<not> seen TagMAC \<Longrightarrow> \<not> seen TagListenPort \<Longrightarrow> ListenPort out = 0 \<Longrightarrow>
   ifItems (opt_item (m \<noteq> 0) (TagListenPort, be16 m) @ rest) out seen =
   ifItems rest (out\<lparr>ListenPort := m\<rparr>) (if m \<noteq> 0 then seen(TagListenPort := True) else seen)"
  by (cases out) (simp add: opt_item_def ifItem_def expect_def once_def nonZero_def unat_eq_0 if_tag_defs)

lemma ifItems_MAC:
  "\<not> seen TagMAC \<Longrightarrow> length m = MACLen \<Longrightarrow> \<not> HasMAC out \<Longrightarrow> MAC out = zeroMAC \<Longrightarrow>
   ifItems (opt_item b (TagMAC, m)) out seen =
   Inr (out\<lparr>MAC := (if b then m else zeroMAC), HasMAC := b\<rparr>)"
  by (cases b) (simp_all add: opt_item_def ifItem_def expect_def once_def if_tag_defs)

lemma ifItems_if_items:
  assumes wf: "wf_Interface i" and "\<forall>p \<in> set (Addrs i). PrefixIsValid p"
    and "\<forall>d \<in> set (DNS i). AddrIsValid d"
  shows "ifItems (if_items i) emptyInterface (\<lambda>_. False) = Inr (canonInterface i)"
proof -
  have "TagMAC \<noteq> TagMTU" "TagMAC \<noteq> TagListenPort" "TagListenPort \<noteq> TagMTU"
    by (simp_all add: if_tag_defs)
  with assms show ?thesis
    by (simp add: if_items_def pfx_items_def dns_items_def wf_Interface_def emptyInterface_def
        ifItems_pfx4 ifItems_pfx6 ifItems_MTU ifItems_dns4 ifItems_dns6 ifItems_refs ifItems_port
        ifItems_MAC canonInterface_def byFamily_def)
qed

text \<open>
  The other direction: what the reader has accepted so far is exactly the items of the value
  it has built, as long as the tags ascend.
\<close>

definition ifInv :: "tlvItem list \<Rightarrow> Interface \<Rightarrow> (byte \<Rightarrow> bool) \<Rightarrow> bool" where
  "ifInv read out seen \<longleftrightarrow>
     read = if_items out \<and> wf_Interface out \<and> canonInterface out = out \<and>
     (\<forall>p \<in> set (Addrs out). PrefixIsValid p) \<and> (\<forall>d \<in> set (DNS out). AddrIsValid d) \<and>
     seen TagMTU = (MTU out \<noteq> 0) \<and> seen TagListenPort = (ListenPort out \<noteq> 0) \<and>
     seen TagMAC = HasMAC out"

lemma le_group: "(\<forall>x \<in> set (map (\<lambda>p. (c, f p)) ps). fst x \<le> (t :: byte)) \<longleftrightarrow> (t < c \<longrightarrow> ps = [])"
  by (cases ps) auto

lemma le_opt_item: "(\<forall>x \<in> set (opt_item b (c, v)). fst x \<le> t) \<longleftrightarrow> (t < c \<longrightarrow> \<not> b)"
  by (auto simp: opt_item_def)

lemma if_tags_ascend:
  "sorted_wrt (<) [TagADDR4, TagADDR6, TagMTU, TagDNS4, TagDNS6, TagPeerRef, TagListenPort, TagMAC]"
  by (simp add: if_tag_defs word_less_nat_alt)

lemmas if_tags_less [simp] = if_tags_ascend [simplified]

lemma if_items_le:
  "(\<forall>x \<in> set (if_items out). fst x \<le> t) \<longleftrightarrow>
     (t < TagADDR4 \<longrightarrow> filter pfx4 (Addrs out) = []) \<and>
     (t < TagADDR6 \<longrightarrow> filter (\<lambda>p. \<not> pfx4 p) (Addrs out) = []) \<and>
     (t < TagMTU \<longrightarrow> MTU out = 0) \<and> (t < TagDNS4 \<longrightarrow> filter Is4 (DNS out) = []) \<and>
     (t < TagDNS6 \<longrightarrow> filter (\<lambda>d. \<not> Is4 d) (DNS out) = []) \<and>
     (t < TagPeerRef \<longrightarrow> PeerRefs out = []) \<and> (t < TagListenPort \<longrightarrow> ListenPort out = 0) \<and>
     (t < TagMAC \<longrightarrow> \<not> HasMAC out)"
  unfolding if_items_def pfx_items_def dns_items_def set_append ball_Un le_group le_opt_item
  by simp

lemma byFamily_map: "(\<And>x. P (f x) = P x) \<Longrightarrow> byFamily P (map f xs) = map f (byFamily P xs)"
  by (simp add: byFamily_def filter_map o_def)

lemma zoneless_grouped:
  "map WithoutZone (byFamily Is4 ds) = ds \<longleftrightarrow> byFamily Is4 ds = ds \<and> map WithoutZone ds = ds"
  by (metis byFamily_idem byFamily_map Is4_WithoutZone)

lemma canonInterface_iff:
  "canonInterface i = i \<longleftrightarrow>
     byFamily pfx4 (Addrs i) = Addrs i \<and> byFamily Is4 (DNS i) = DNS i \<and>
     map WithoutZone (DNS i) = DNS i \<and> (\<not> HasMAC i \<longrightarrow> MAC i = zeroMAC)"
  by (cases i) (auto simp: canonInterface_def zoneless_grouped)

lemma addrOf_4:
  "length v = 4 \<Longrightarrow> Is4 (addrOf v) \<and> As4 (addrOf v) = v \<and> WithoutZone (addrOf v) = addrOf v"
  using AddrFromSlice_4 [of v] by (auto simp: addrOf_def AddrFromSlice_def)

lemma addrOf_16:
  "length v = 16 \<Longrightarrow> \<not> Is4 (addrOf v) \<and> AddrIsValid (addrOf v) \<and> As16 (addrOf v) = v \<and>
     WithoutZone (addrOf v) = addrOf v"
  using AddrFromSlice_16 [of v] by (auto simp: addrOf_def AddrFromSlice_def)

lemma ifInv_le:
  assumes "ifInv read out seen" "\<forall>x \<in> set read. fst x \<le> t"
  shows "t < TagADDR6 \<Longrightarrow> filter (\<lambda>p. \<not> pfx4 p) (Addrs out) = []"
    and "t < TagMTU \<Longrightarrow> MTU out = 0"
    and "t < TagDNS4 \<Longrightarrow> filter Is4 (DNS out) = []"
    and "t < TagDNS6 \<Longrightarrow> filter (\<lambda>d. \<not> Is4 d) (DNS out) = []"
    and "t < TagPeerRef \<Longrightarrow> PeerRefs out = []"
    and "t < TagListenPort \<Longrightarrow> ListenPort out = 0"
    and "t < TagMAC \<Longrightarrow> \<not> HasMAC out"
  using assms if_items_le [of out t] by (auto simp: ifInv_def)

lemma length_zeroMAC [simp]: "length zeroMAC = MACLen"
  by (simp add: zeroMAC_def)

lemma filters_Nil: "filter P xs = [] \<Longrightarrow> filter (\<lambda>x. \<not> P x) xs = [] \<Longrightarrow> xs = []"
  by (cases xs) (auto split: if_splits)

lemmas ifInv_unfold = ifInv_def canonInterface_iff wf_Interface_def if_items_def
  pfx_items_def dns_items_def opt_item_def

lemma ifInv_ADDR4:
  assumes inv: "ifInv read out seen" "\<forall>x \<in> set read. fst x \<le> TagADDR4"
    and item: "ifItem later TagADDR4 v out seen = Inr (out', seen')"
  shows "ifInv (read @ [(TagADDR4, v)]) out' seen'"
proof -
  from item obtain p where len: "length v = 5" and p: "prefixFrom v 4 = Inr p"
    and out': "out' = out\<lparr>Addrs := Addrs out @ [p]\<rparr>" "seen' = seen"
    by (auto simp: ifItem_def expect_def result_inv)
  have "wf_Prefix p" "PrefixIsValid p" "pfx4 p" "As4 (pfxAddr p) @ [word_of_int (pfxBits p)] = v"
    using prefixFrom_inv [OF p] len by auto
  moreover note ifInv_le [OF inv, simplified] 
  moreover have "DNS out = []" by (rule filters_Nil [of Is4]) (simp_all add: ifInv_le [OF inv])
  ultimately show ?thesis
    using inv(1) by (simp add: out' byFamily_snoc ifInv_unfold)
qed

lemma ifInv_ADDR6:
  assumes inv: "ifInv read out seen" "\<forall>x \<in> set read. fst x \<le> TagADDR6"
    and item: "ifItem later TagADDR6 v out seen = Inr (out', seen')"
  shows "ifInv (read @ [(TagADDR6, v)]) out' seen'"
proof -
  from item obtain p where len: "length v = 17" and p: "prefixFrom v 16 = Inr p"
    and out': "out' = out\<lparr>Addrs := Addrs out @ [p]\<rparr>" "seen' = seen"
    by (auto simp: ifItem_def expect_def result_inv TagADDR4_def TagADDR6_def)
  have "wf_Prefix p" "PrefixIsValid p" "\<not> pfx4 p" "As16 (pfxAddr p) @ [word_of_int (pfxBits p)] = v"
    using prefixFrom_inv [OF p] len by auto
  moreover note ifInv_le(2-) [OF inv, simplified] 
  moreover have "DNS out = []" by (rule filters_Nil [of Is4]) (simp_all add: ifInv_le [OF inv])
  ultimately show ?thesis
    using inv(1) by (simp add: out' byFamily_snoc ifInv_unfold)
qed

lemma ifInv_MTU:
  assumes inv: "ifInv read out seen" "\<forall>x \<in> set read. fst x \<le> TagMTU"
    and item: "ifItem later TagMTU v out seen = Inr (out', seen')"
  shows "ifInv (read @ [(TagMTU, v)]) out' seen'"
proof -
  from item have "\<not> seen TagMTU" "be16 (Uint16 v) = v" "Uint16 v \<noteq> 0"
    and out': "out' = out\<lparr>MTU := Uint16 v\<rparr>" "seen' = seen(TagMTU := True)"
    by (auto simp: ifItem_def expect_def once_def nonZero_def result_inv be16_Uint16 unat_eq_0
      TagADDR4_def TagADDR6_def TagMTU_def split: if_splits)
  moreover note ifInv_le(3-) [OF inv, simplified]
  moreover have "DNS out = []" by (rule filters_Nil [of Is4]) (simp_all add: ifInv_le [OF inv])
  moreover have "TagListenPort \<noteq> TagMTU" "TagMAC \<noteq> TagMTU" by (simp_all add: if_tag_defs)
  ultimately show ?thesis
    using inv(1) by (simp add: ifInv_unfold)
qed

lemma ifInv_DNS4:
  assumes inv: "ifInv read out seen" "\<forall>x \<in> set read. fst x \<le> TagDNS4"
    and item: "ifItem later TagDNS4 v out seen = Inr (out', seen')"
  shows "ifInv (read @ [(TagDNS4, v)]) out' seen'"
proof -
  from item have "length v = 4" and out': "out' = out\<lparr>DNS := DNS out @ [addrOf v]\<rparr>" "seen' = seen"
    by (auto simp: ifItem_def expect_def result_inv TagADDR4_def TagADDR6_def TagMTU_def TagDNS4_def)
  with addrOf_4 [of v] ifInv_le(4-) [OF inv, simplified] inv(1) show ?thesis
    by (simp add: byFamily_snoc ifInv_unfold)
qed

lemma ifInv_DNS6:
  assumes inv: "ifInv read out seen" "\<forall>x \<in> set read. fst x \<le> TagDNS6"
    and item: "ifItem later TagDNS6 v out seen = Inr (out', seen')"
  shows "ifInv (read @ [(TagDNS6, v)]) out' seen'"
proof -
  from item have "length v = 16" and out': "out' = out\<lparr>DNS := DNS out @ [addrOf v]\<rparr>" "seen' = seen"
    by (auto simp: ifItem_def expect_def result_inv TagADDR4_def TagADDR6_def TagMTU_def
      TagDNS4_def TagDNS6_def)
  with addrOf_16 [of v] ifInv_le(5-) [OF inv, simplified] inv(1) show ?thesis
    by (simp add: byFamily_snoc ifInv_unfold)
qed

lemma ifInv_PeerRef:
  assumes inv: "ifInv read out seen" "\<forall>x \<in> set read. fst x \<le> TagPeerRef"
    and item: "ifItem later TagPeerRef v out seen = Inr (out', seen')"
  shows "ifInv (read @ [(TagPeerRef, v)]) out' seen'"
proof -
  from item have "length v = PeerRefLen"
    and out': "out' = out\<lparr>PeerRefs := PeerRefs out @ [v]\<rparr>" "seen' = seen"
    by (auto simp: ifItem_def expect_def result_inv TagADDR4_def TagADDR6_def TagMTU_def
      TagDNS4_def TagDNS6_def TagPeerRef_def)
  with ifInv_le(6-) [OF inv, simplified] inv(1) show ?thesis
    by (simp add: ifInv_unfold)
qed

lemma ifInv_ListenPort:
  assumes inv: "ifInv read out seen" "\<forall>x \<in> set read. fst x \<le> TagListenPort"
    and item: "ifItem later TagListenPort v out seen = Inr (out', seen')"
  shows "ifInv (read @ [(TagListenPort, v)]) out' seen'"
proof -
  from item have "\<not> seen TagListenPort" "be16 (Uint16 v) = v" "Uint16 v \<noteq> 0"
    and out': "out' = out\<lparr>ListenPort := Uint16 v\<rparr>" "seen' = seen(TagListenPort := True)"
    by (auto simp: ifItem_def expect_def once_def nonZero_def result_inv be16_Uint16 unat_eq_0
      if_tag_defs split: if_splits)
  moreover note ifInv_le(7) [OF inv, simplified]
  moreover have "TagMTU \<noteq> TagListenPort" "TagMAC \<noteq> TagListenPort" by (simp_all add: if_tag_defs)
  ultimately show ?thesis
    using inv(1) by (simp add: ifInv_unfold)
qed

lemma ifInv_MAC:
  assumes inv: "ifInv read out seen" 
    and item: "ifItem later TagMAC v out seen = Inr (out', seen')"
  shows "ifInv (read @ [(TagMAC, v)]) out' seen'"
proof -
  from item have "\<not> seen TagMAC" "length v = MACLen"
    and out': "out' = out\<lparr>MAC := v, HasMAC := True\<rparr>" "seen' = seen(TagMAC := True)"
    by (auto simp: ifItem_def expect_def once_def result_inv if_tag_defs split: if_splits)
  moreover have "TagMTU \<noteq> TagMAC" "TagListenPort \<noteq> TagMAC" by (simp_all add: if_tag_defs)
  ultimately show ?thesis
    using inv(1) by (simp add: ifInv_unfold)
qed

lemma ifInv_step:
  assumes "ifInv read out seen" "\<forall>x \<in> set read. fst x \<le> t"
    and "ifItem later t v out seen = Inr (out', seen')"
  shows "ifInv (read @ [(t, v)]) out' seen'"
proof -
  consider "t = TagADDR4" | "t = TagADDR6" | "t = TagMTU" | "t = TagDNS4" | "t = TagDNS6"
    | "t = TagPeerRef" | "t = TagListenPort" | "t = TagMAC"
    using assms(3) by (auto simp: ifItem_def split: if_splits)
  then show ?thesis
    using assms by cases (auto intro: ifInv_ADDR4 ifInv_ADDR6 ifInv_MTU ifInv_DNS4 ifInv_DNS6
      ifInv_PeerRef ifInv_ListenPort ifInv_MAC)
qed

lemma ifItems_inv:
  "ifItems later out seen = Inr r \<Longrightarrow> ifInv read out seen \<Longrightarrow> sorted (map fst (read @ later)) \<Longrightarrow>
   \<exists>seen'. ifInv (read @ later) r seen'"
proof (induction later arbitrary: out seen read)
  case (Cons it later)
  obtain t v where it: "it = (t, v)" by (cases it)
  with Cons.prems(1) obtain out' seen' where
    item: "ifItem later t v out seen = Inr (out', seen')" and rest: "ifItems later out' seen' = Inr r"
    by (auto simp: result_inv split: if_splits)
  have "\<forall>x \<in> set read. fst x \<le> t" using Cons.prems(3) it by (auto simp: sorted_append)
  with ifInv_step [OF Cons.prems(2) _ item] have "ifInv (read @ [it]) out' seen'" by (simp add: it)
  from Cons.IH [OF rest this] Cons.prems(3) show ?case by simp
qed auto

lemma ifInv_empty: "ifInv [] emptyInterface (\<lambda>_. False)"
  by (simp add: ifInv_unfold emptyInterface_def zeroMAC_def byFamily_def)

lemma if_items_sorted: "sorted (map fst (if_items i)) \<and> tagEnd \<notin> fst ` set (if_items i)"
proof -
  have "tagEnd < TagADDR4" by (simp add: if_tag_defs word_less_nat_alt)
  then have tags: "sorted [TagADDR4, TagADDR6, TagMTU, TagDNS4, TagDNS6, TagPeerRef, TagListenPort, TagMAC]"
    and "tagEnd \<notin> {TagADDR4, TagADDR6, TagMTU, TagDNS4, TagDNS6, TagPeerRef, TagListenPort, TagMAC}"
    by (simp_all add: if_tag_defs)
  then show ?thesis
    by (auto simp: if_items_def pfx_items_def dns_items_def opt_item_def sorted_append o_def
        map_replicate_const)
qed

lemma if_items_canon [simp]: "if_items (canonInterface i) = if_items i"
  by (simp add: if_items_def canonInterface_def pfx_items_def dns_items_def opt_item_def
      filter_map o_def byFamily_def Is4_WithoutZone_id cong: filter_cong)

lemma DecodeInterface_iff:
  "DecodeInterface sz b = Inr i \<longleftrightarrow>
     wf_Interface i \<and> canonInterface i = i \<and> (\<forall>p \<in> set (Addrs i). PrefixIsValid p) \<and>
     (\<forall>d \<in> set (DNS i). AddrIsValid d) \<and> length b \<le> Size sz \<and> (\<exists>k. b = ifBytes i @ replicate k 0)"
    (is "?l \<longleftrightarrow> ?r")
proof
  assume ?l
  then obtain items where p: "parse sz b MagicInterface = Inr items"
    and i: "ifItems items emptyInterface (\<lambda>_. False) = Inr i"
    by (auto simp: DecodeInterface_def result_inv)
  from p have h: "length b \<le> Size sz" "\<exists>k. b = header MagicInterface @ flat items @ replicate k 0"
    "sorted (map fst ([] @ items))" by (auto simp: parse_iff)
  from ifItems_inv [OF i ifInv_empty h(3)] have "\<exists>seen. ifInv items i seen" by simp
  with h show ?r by (auto simp: ifInv_def ifBytes_def)
next
  assume r: ?r
  then have "parse sz b MagicInterface = Inr (if_items i)"
    using if_items_sorted [of i] short_if_items [of i] by (auto simp: parse_iff ifBytes_def)
  with r ifItems_if_items [of i] show ?l by (simp add: DecodeInterface_def)
qed

lemma Interface_Encode_Inr:
  assumes "wf_Interface i"
  shows "Interface_Encode sz i = Inr b \<longleftrightarrow>
     (\<forall>p \<in> set (Addrs i). PrefixIsValid p) \<and> (\<forall>d \<in> set (DNS i). AddrIsValid d) \<and>
     length (ifBytes i) \<le> Size sz \<and> b = pad sz (ifBytes i)"
  by (auto simp: Interface_Encode_eq [OF assms])

lemma canonInterface_wf [simp]: "wf_Interface i \<Longrightarrow> wf_Interface (canonInterface i)"
  by (simp add: wf_Interface_def canonInterface_def)

lemma canonInterface_idem [simp]: "canonInterface (canonInterface i) = canonInterface i"
  by (simp add: canonInterface_def byFamily_map [symmetric] o_def)

lemma Interface_enc_dec:
  "wf_Interface i \<Longrightarrow> Interface_Encode sz i = Inr b \<Longrightarrow> DecodeInterface sz b = Inr (canonInterface i)"
  by (auto simp: Interface_Encode_Inr DecodeInterface_iff ifBytes_def pad_append)
    (auto simp: canonInterface_def)

lemma Interface_dec_enc: "DecodeInterface sz b = Inr i \<Longrightarrow> Interface_Encode sz i = Normalize sz b"
  by (auto simp: DecodeInterface_iff Interface_Encode_Inr ifBytes_def
      Normalize_header [of MagicInterface "flat (if_items i)", simplified])


text \<open>Zeroing the MAC.\<close>

lemma zeroFrom_flat:
  "TagMAC \<notin> fst ` set pre \<Longrightarrow>
   zeroFrom (length h) (pre @ (TagMAC, m) # post) (h @ flat pre @ TagMAC # l # m @ rest) =
   h @ flat pre @ TagMAC # l # replicate (length m) 0 @ rest"
proof (induction pre arbitrary: h)
  case (Cons it pre)
  obtain t v where it: "it = (t, v)" by (cases it)
  have "zeroFrom (length (h @ t # word_of_nat (length v) # v)) (pre @ (TagMAC, m) # post)
      ((h @ t # word_of_nat (length v) # v) @ flat pre @ TagMAC # l # m @ rest) =
      (h @ t # word_of_nat (length v) # v) @ flat pre @ TagMAC # l # replicate (length m) 0 @ rest"
    by (rule Cons.IH) (use Cons.prems in auto)
  with Cons.prems show ?case by (auto simp: it add.assoc)
qed simp

lemma zeroFrom_none: "TagMAC \<notin> fst ` set items \<Longrightarrow> zeroFrom off items out = out"
  by (induction off items out rule: zeroFrom.induct) auto

definition if_body :: "Interface \<Rightarrow> tlvItem list" where
  "if_body i = if_items (i\<lparr>HasMAC := False\<rparr>)"

lemma if_items_body: "if_items i = if_body i @ opt_item (HasMAC i) (TagMAC, MAC i)"
  by (simp add: if_body_def if_items_def opt_item_def)

lemma if_body_MAC [simp]: "if_body (i\<lparr>MAC := m\<rparr>) = if_body i"
  by (simp add: if_body_def if_items_def opt_item_def)

lemma TagMAC_not_body: "TagMAC \<notin> fst ` set (if_body i)"
  by (auto simp: if_body_def if_items_def pfx_items_def dns_items_def opt_item_def if_tag_defs)

lemma parse_pad_if:
  "wf_Interface i \<Longrightarrow> length (ifBytes i) \<le> Size sz \<Longrightarrow>
   parse sz (pad sz (ifBytes i)) MagicInterface = Inr (if_items i)"
  using if_items_sorted [of i] short_if_items [of i]
  by (auto simp: parse_iff ifBytes_def pad_append)

lemma ZeroMAC_Encode:
  assumes wf: "wf_Interface i" and b: "Interface_Encode sz i = Inr b"
  shows "ZeroMAC sz b = Interface_Encode sz (i\<lparr>MAC := zeroMAC\<rparr>)"
proof -
  let ?z = "i\<lparr>MAC := zeroMAC\<rparr>" and ?h = "header MagicInterface"
  from wf b have ok: "\<forall>p \<in> set (Addrs i). PrefixIsValid p" "\<forall>d \<in> set (DNS i). AddrIsValid d"
    and len: "length (ifBytes i) \<le> Size sz" and b': "b = pad sz (ifBytes i)"
    by (auto simp: Interface_Encode_Inr)
  have wfz: "wf_Interface ?z" using wf by (simp add: wf_Interface_def)
  have macs: "length (MAC i) = MACLen" using wf by (simp add: wf_Interface_def)
  then have lenz: "length (ifBytes ?z) = length (ifBytes i)"
    by (simp add: ifBytes_def if_items_body opt_item_def)
  have "zeroFrom headerLen (if_items i) b = pad sz (ifBytes ?z)"
  proof (cases "HasMAC i")
    case True
    let ?k = "Size sz - length (ifBytes i)"
    have "b = ?h @ flat (if_body i) @ TagMAC # word_of_nat (length (MAC i)) # MAC i @ replicate ?k 0"
      using True len by (simp add: b' pad_append) (simp add: ifBytes_def if_items_body opt_item_def)
    moreover have "headerLen = length ?h" by (simp add: descr_lens)
    ultimately have "zeroFrom headerLen (if_items i) b =
        ?h @ flat (if_body i) @ TagMAC # word_of_nat (length (MAC i)) # replicate (length (MAC i)) 0 @ replicate ?k 0"
      using zeroFrom_flat [OF TagMAC_not_body, of ?h i "MAC i" "[]"] True
      by (simp add: if_items_body opt_item_def)
    also have "\<dots> = pad sz (ifBytes ?z)"
      using len lenz True macs by (simp add: pad_append)
        (simp add: ifBytes_def if_items_body opt_item_def zeroMAC_def)
    finally show ?thesis .
  next
    case False
    then have "ifBytes ?z = ifBytes i" by (simp add: ifBytes_def if_items_body opt_item_def)
    with False TagMAC_not_body [of i] show ?thesis
      by (simp add: b' if_items_body opt_item_def zeroFrom_none)
  qed
  with parse_pad_if [OF wf len] b' have "ZeroMAC sz b = Inr (pad sz (ifBytes ?z))"
    by (simp add: ZeroMAC_def)
  moreover have "Interface_Encode sz ?z = Inr (pad sz (ifBytes ?z))"
    using ok len lenz by (simp add: Interface_Encode_Inr [OF wfz])
  ultimately show ?thesis by simp
qed

subsection \<open>The interface record as a codec\<close>

lemma length_flat_group:
  "(\<And>x. x \<in> set xs \<Longrightarrow> length (f x) = n) \<Longrightarrow> length (flat (map (\<lambda>x. (t, f x)) xs)) = (n + 2) * length xs"
  by (induction xs) auto

lemma sum_by_family:
  "a * length (filter P xs) + b * length (filter (\<lambda>x. \<not> P x) xs) =
   sum_list (map (\<lambda>x. if P x then a else b) xs)" for a b :: nat
  by (induction xs) auto

lemma length_flat_opt: "length (flat (opt_item b (t, v))) = (if b then length v + 2 else 0)"
  by (simp add: opt_item_def)

lemma length_pfx_items:
  "length (flat (pfx_items t4 t6 ps)) = sum_list (map (\<lambda>p. if pfx4 p then 7 else 19) ps)"
  using length_flat_group [of "filter pfx4 ps" _ 5 t4] length_flat_group [of "filter (\<lambda>p. \<not> pfx4 p) ps" _ 17 t6]
  by (simp add: pfx_items_def sum_by_family)

lemma length_dns_items:
  "length (flat (dns_items ds)) = sum_list (map (\<lambda>d. if Is4 d then 6 else 18) ds)"
  using length_flat_group [of "filter Is4 ds" As4 4] length_flat_group [of "filter (\<lambda>d. \<not> Is4 d) ds" As16 16]
  by (simp add: dns_items_def sum_by_family)

lemma length_ifBytes:
  "wf_Interface i \<Longrightarrow> length (ifBytes i) = 7 + sum_list (map (\<lambda>p. if pfx4 p then 7 else 19) (Addrs i))
     + (if MTU i \<noteq> 0 then 4 else 0) + sum_list (map (\<lambda>d. if Is4 d then 6 else 18) (DNS i))
     + 6 * length (PeerRefs i) + (if ListenPort i \<noteq> 0 then 4 else 0) + (if HasMAC i then 34 else 0)"
  by (simp add: ifBytes_def if_items_def length_pfx_items length_dns_items length_flat_opt
      length_flat_group [where n = 4 and f = "\<lambda>x. x"] wf_Interface_def descr_lens)

lemma Normalize_pad: "7 \<le> length b \<Longrightarrow> length b \<le> Size sz \<Longrightarrow> Normalize sz b = Inr (pad sz b)"
  by (simp add: Normalize_def descr_lens)

lemma Size_ge: "64 \<le> Size sz"
  by (cases sz) auto

lemma Normalize_padded: "length b = Size sz \<Longrightarrow> Normalize sz b = Inr b"
  using Size_ge [of sz] by (simp add: Normalize_pad pad_def)

interpretation ifc: record_codec "Interface_Encode sz" "DecodeInterface sz" "Normalize sz"
    canonInterface wf_Interface for sz
proof
  fix i b
  show "wf_Interface i \<Longrightarrow> Interface_Encode sz i = Inr b \<Longrightarrow> Normalize sz b = Inr b"
    by (auto simp: Interface_Encode_Inr intro: Normalize_padded)
  show "DecodeInterface sz b = Inr i \<Longrightarrow> \<exists>b'. Normalize sz b = Inr b'"
    by (auto simp: DecodeInterface_iff ifBytes_def simp: Normalize_pad)
  show "DecodeInterface sz b = Inr i \<Longrightarrow> wf_Interface i \<and> canonInterface i = i"
    by (simp add: DecodeInterface_iff)
qed (fact Interface_enc_dec Interface_dec_enc)+

lemmas encode_eval = Interface_Encode_def Peer_Encode_def encodePrefixes_def PrefixIsValid_def
  PrefixFrom_def appendPrefix4_def appendPrefix6_def tlv_def startWriter_def bytes_of_def
  MagicInterface_def MagicPeer_def Version_def be_bytes_def be16_def if_tag_defs peer_tag_defs
  finish_def pad_def Let_def le_bytes_numeral

definition exampleInterface :: Interface where
  "exampleInterface =
     \<lparr>Addrs = [PrefixFrom (Addr4 0x0A000002) 32], MTU = 1420, DNS = [Addr4 0x01010101],
      PeerRefs = [[1, 2, 3, 4]], ListenPort = 0, MAC = replicate 32 7, HasMAC = True\<rparr>"

definition exampleInterfaceRecord :: bytes where
  "exampleInterfaceRecord =
     [87, 71, 58, 105, 102, 58, 2, 1, 5, 10, 0, 0, 2, 32, 3, 2, 5, 140, 4, 4, 1, 1, 1, 1,
      6, 4, 1, 2, 3, 4, 0x7F, 32] @ replicate 32 7"

lemma exampleInterface_Encode:
  "Interface_Encode size_descr64 exampleInterface = Inr exampleInterfaceRecord"
  by (simp add: exampleInterface_def exampleInterfaceRecord_def encode_eval)

lemma exampleInterface_wf: "wf_Interface exampleInterface"
  by (simp add: exampleInterface_def wf_Interface_def descr_lens)

text \<open>
  C24: an interface record that \<open>Interface.Encode\<close> accepts has exactly the record length of
  the build, and \<open>DecodeInterface\<close> reads it back to the value that was encoded, with the
  two address families grouped, zones dropped and an unset MAC zero.
\<close>

theorem interface_roundtrip:
  assumes "wf_Interface i" and "Interface_Encode sz i = Inr b"
  shows "length b = Size sz \<and> DecodeInterface sz b = Inr (canonInterface i)"
  using assms Interface_enc_dec [OF assms] by (auto simp: Interface_Encode_Inr)

theorem interface_roundtrip_witness:
  "length exampleInterfaceRecord = 64 \<and>
   DecodeInterface size_descr64 exampleInterfaceRecord = Inr (canonInterface exampleInterface)"
  using interface_roundtrip [OF exampleInterface_wf exampleInterface_Encode] by simp

text \<open>
  C6: the format is canonical, as DER is.  Whatever \<open>DecodeInterface\<close> accepts, encoding the
  decoded value gives exactly the accepted bytes, padded to the record length; so two
  accepted slices decode to the same configuration exactly when their padded forms are the
  same bytes.
\<close>

theorem interface_canonical:
  assumes "DecodeInterface sz b = Inr i" and "DecodeInterface sz b' = Inr i'"
  shows "Interface_Encode sz i = Normalize sz b \<and> isOk (Normalize sz b) \<and>
     (Normalize sz b = Normalize sz b' \<longleftrightarrow> i = i')"
  using ifc.dec_enc [OF assms(1)] ifc.dec_padded [OF assms(1)] ifc.same_record_iff [OF assms]
  by (auto simp: isOk_iff)

theorem interface_canonical_witness:
  "Interface_Encode size_descr64 (canonInterface exampleInterface) =
     Normalize size_descr64 exampleInterfaceRecord \<and>
   isOk (Normalize size_descr64 exampleInterfaceRecord)"
  using interface_canonical [OF Interface_enc_dec Interface_enc_dec,
      OF exampleInterface_wf exampleInterface_Encode exampleInterface_wf exampleInterface_Encode]
  by blast

text \<open>
  \<open>ZeroMAC\<close> of an encoded record is the encoding of the same configuration with an
  all-zero MAC: only the MAC's own bytes change, a record without a MAC is returned as it
  is, and records that differ in their MAC alone have the same zeroed form.
\<close>

theorem zero_mac_encode:
  assumes "wf_Interface i" and "Interface_Encode sz i = Inr b"
    and "wf_Interface (i\<lparr>MAC := m\<rparr>)" and "Interface_Encode sz (i\<lparr>MAC := m\<rparr>) = Inr b'"
  shows "ZeroMAC sz b = Interface_Encode sz (i\<lparr>MAC := zeroMAC\<rparr>) \<and> ZeroMAC sz b' = ZeroMAC sz b \<and>
     (\<not> HasMAC i \<longrightarrow> ZeroMAC sz b = Inr b)"
proof -
  have "ZeroMAC sz b = Interface_Encode sz (i\<lparr>MAC := zeroMAC\<rparr>)"
    by (rule ZeroMAC_Encode [OF assms(1,2)])
  moreover have "ZeroMAC sz b' = Interface_Encode sz (i\<lparr>MAC := zeroMAC\<rparr>)"
    using ZeroMAC_Encode [OF assms(3,4)] by simp
  moreover have "\<not> HasMAC i \<Longrightarrow> Interface_Encode sz (i\<lparr>MAC := zeroMAC\<rparr>) = Interface_Encode sz i"
    by (simp add: Interface_Encode_def Let_def cong: if_cong)
  ultimately show ?thesis using assms(2) by simp
qed

lemma exampleInterface_MAC: "exampleInterface\<lparr>MAC := replicate 32 7\<rparr> = exampleInterface"
  by (simp add: exampleInterface_def)

theorem zero_mac_encode_witness:
  "ZeroMAC size_descr64 exampleInterfaceRecord =
     Interface_Encode size_descr64 (exampleInterface\<lparr>MAC := zeroMAC\<rparr>)"
  using zero_mac_encode [of exampleInterface size_descr64 exampleInterfaceRecord "replicate 32 7"
      exampleInterfaceRecord]
  by (simp add: exampleInterface_MAC exampleInterface_wf exampleInterface_Encode)

text \<open>
  C25: the outcome of \<open>Interface.Encode\<close> on every input, in the order the code meets them: an
  invalid address, then an invalid DNS server, then a record over the limit, reported with
  its length and its excess; otherwise the padded record.  The length needed is the sum of
  the items, so the budget can be read off the configuration.
\<close>

theorem interface_encode_outcomes:
  assumes "wf_Interface i"
  defines "need \<equiv> 7 + sum_list (map (\<lambda>p. if pfx4 p then 7 else 19) (Addrs i))
     + (if MTU i \<noteq> 0 then 4 else 0) + sum_list (map (\<lambda>d. if Is4 d then 6 else 18) (DNS i))
     + 6 * length (PeerRefs i) + (if ListenPort i \<noteq> 0 then 4 else 0) + (if HasMAC i then 34 else 0)"
  shows "Interface_Encode sz i =
     (if \<exists>p \<in> set (Addrs i). \<not> PrefixIsValid p then Inl (ErrInvalidPrefix ''interface address'')
      else if \<exists>d \<in> set (DNS i). \<not> AddrIsValid d then Inl ErrInvalidDNS
      else if need > Size sz then Inl (ErrOverflow ''interface'' need (need - Size sz))
      else Inr (pad sz (ifBytes i)))"
proof -
  have "length (ifBytes i) = need"
    using assms(1) by (simp add: need_def length_ifBytes)
  then show ?thesis by (simp only: Interface_Encode_eq [OF assms(1)])
qed

theorem interface_encode_outcomes_witness:
  "Interface_Encode size_descr64 (exampleInterface\<lparr>PeerRefs := replicate 2 [1, 2, 3, 4]\<rparr>) =
     Inl (ErrOverflow ''interface'' 70 6)"
  using interface_encode_outcomes [of "exampleInterface\<lparr>PeerRefs := replicate 2 [1, 2, 3, 4]\<rparr>" size_descr64]
  by (simp add: exampleInterface_def wf_Interface_def wf_Prefix_def descr_lens PrefixFrom_def
      PrefixIsValid_def)

end
