(* ===== verification/DescrPeer.thy ===== *)
theory DescrPeer
  imports DescrCodec
begin

text \<open>
  The peer record of \<open>internal/descr\<close>: every outcome of its encoder, and that its reader
  accepts exactly the encodings of canonical values.  Unlike the interface record its
  first item is one of three endpoint forms and it must be there exactly once.
\<close>

subsection \<open>Encoding\<close>

definition wf_Peer :: "Peer \<Rightarrow> bool" where
  "wf_Peer p \<longleftrightarrow> (\<forall>a \<in> set (AllowedIPs p). wf_Prefix a)"

definition canonEndpoint :: "Endpoint \<Rightarrow> Endpoint" where
  "canonEndpoint e = e\<lparr>IP := (if Host e \<noteq> [] then AddrZero else WithoutZone (IP e))\<rparr>"

definition canonPeer :: "Peer \<Rightarrow> Peer" where
  "canonPeer p = p\<lparr>peerEndpoint := canonEndpoint (peerEndpoint p),
                   AllowedIPs := byFamily pfx4 (AllowedIPs p)\<rparr>"

definition peerBytes :: "Peer \<Rightarrow> bytes" where
  "peerBytes p = header MagicPeer @ flat (peer_items p)"

definition okHost :: "size_tags \<Rightarrow> Endpoint \<Rightarrow> bool" where
  "okHost sz e \<longleftrightarrow> length (Host e) \<le> MaxHostname sz"

definition okPSK :: "Peer \<Rightarrow> bool" where
  "okPSK p \<longleftrightarrow> PSKWrapped p = [] \<or> length (PSKWrapped p) = PSKWrappedLen"

lemma MaxHostname_le: "MaxHostname sz \<le> 60"
  by (simp add: MaxHostname_def)

lemma short_peer_items: "okHost sz (peerEndpoint p) \<Longrightarrow> okPSK p \<Longrightarrow> short (peer_items p)"
  using MaxHostname_le [of sz]
  by (auto simp: peer_items_def endpoint_item_def okHost_def okPSK_def PSKWrappedLen_def)

text \<open>Every outcome of \<open>Peer.Encode\<close>, in the order the code meets them.\<close>

lemma Peer_Encode_eq:
  "Peer_Encode sz p =
     (if \<not> okHost sz (peerEndpoint p) then Inl (ErrHostLen (length (Host (peerEndpoint p))))
      else if IsZero (peerEndpoint p) then Inl ErrNeedsEndpoint
      else if \<exists>a \<in> set (AllowedIPs p). \<not> PrefixIsValid a then Inl (ErrInvalidPrefix ''allowed-ip'')
      else if \<not> okPSK p then Inl (ErrPSKLen (length (PSKWrapped p)))
      else if length (peerBytes p) > Size sz
      then Inl (ErrOverflow ''peer'' (length (peerBytes p)) (length (peerBytes p) - Size sz))
      else Inr (pad sz (peerBytes p)))"
proof -
  let ?e = "peerEndpoint p"
  have "Peer_Encode sz p =
     (if \<not> okHost sz ?e then Inl (ErrHostLen (length (Host ?e)))
      else if IsZero ?e then Inl ErrNeedsEndpoint
      else if \<exists>a \<in> set (AllowedIPs p). \<not> PrefixIsValid a then Inl (ErrInvalidPrefix ''allowed-ip'')
      else if \<not> okPSK p then Inl (ErrPSKLen (length (PSKWrapped p)))
      else finish sz ''peer'' (emit (peer_items p) (startWriter MagicPeer)))"
    by (simp add: Peer_Encode_def Let_def okHost_def IsZero_def okPSK_def encodePrefixes_emit
        peer_items_def endpoint_item_def emit_append emit_opt emit_def [of "_ # _"]
        emit_def [symmetric] not_less) 
  moreover have "okHost sz ?e \<Longrightarrow> okPSK p \<Longrightarrow>
      finish sz ''peer'' (emit (peer_items p) (startWriter MagicPeer)) =
      (if length (peerBytes p) > Size sz
       then Inl (ErrOverflow ''peer'' (length (peerBytes p)) (length (peerBytes p) - Size sz))
       else Inr (pad sz (peerBytes p)))"
    using finish_emit [OF short_peer_items [of sz p], of sz "''peer''" MagicPeer]
    by (simp add: peerBytes_def Let_def)
  ultimately show ?thesis by simp
qed

subsection \<open>Reading back what was written\<close>

lemma peerItems_pfx4:
  "\<forall>a \<in> set ps. wf_Prefix a \<and> PrefixIsValid a \<and> pfx4 a \<Longrightarrow>
   peerItems sz (map (\<lambda>a. (TagAIP4, As4 (pfxAddr a) @ [word_of_int (pfxBits a)])) ps @ rest) out seen n =
   peerItems sz rest (out\<lparr>AllowedIPs := AllowedIPs out @ ps\<rparr>) seen n"
  by (induction ps arbitrary: out)
    (auto simp: peerItem_def expect_def prefixFrom_As4 TagEndpoint4_def TagEndpoint6_def
      TagEndpointHost_def TagAIP4_def)

lemma peerItems_pfx6:
  "\<forall>a \<in> set ps. wf_Prefix a \<and> PrefixIsValid a \<and> \<not> pfx4 a \<Longrightarrow>
   peerItems sz (map (\<lambda>a. (TagAIP6, As16 (pfxAddr a) @ [word_of_int (pfxBits a)])) ps @ rest) out seen n =
   peerItems sz rest (out\<lparr>AllowedIPs := AllowedIPs out @ ps\<rparr>) seen n"
  by (induction ps arbitrary: out)
    (auto simp: peerItem_def expect_def prefixFrom_As16 TagEndpoint4_def TagEndpoint6_def
      TagEndpointHost_def TagAIP4_def TagAIP6_def)

lemma peerItems_keepalive:
  "\<not> seen TagKeepalive \<Longrightarrow> Keepalive out = 0 \<Longrightarrow>
   peerItems sz (opt_item (k \<noteq> 0) (TagKeepalive, [k]) @ rest) out seen n =
   peerItems sz rest (out\<lparr>Keepalive := k\<rparr>) (if k \<noteq> 0 then seen(TagKeepalive := True) else seen) n"
  by (cases out) (simp add: opt_item_def peerItem_def expect_def once_def nonZero_def unat_eq_0
      peer_tag_defs)

lemma peerItems_PSK:
  "\<not> seen TagPSKWrapped \<Longrightarrow> PSKWrapped out = [] \<Longrightarrow> v = [] \<or> length v = PSKWrappedLen \<Longrightarrow>
   peerItems sz (opt_item (v \<noteq> []) (TagPSKWrapped, v)) out seen n = Inr (out\<lparr>PSKWrapped := v\<rparr>, n)"
  by (cases out) (auto simp: opt_item_def peerItem_def expect_def once_def peer_tag_defs)

lemma peerItems_endpoint:
  assumes "okHost sz e" and "\<not> IsZero e"
  shows "peerItems sz (endpoint_item e # rest) out seen n =
     peerItems sz rest (out\<lparr>peerEndpoint := canonEndpoint e\<rparr>) seen (Suc n)"
proof -
  have "endpoint_item e = (t, v) \<Longrightarrow>
    peerItem sz t v out seen n = Inr (out\<lparr>peerEndpoint := canonEndpoint e\<rparr>, seen, Suc n)" for t v
    using assms
    by (cases e) (auto simp: endpoint_item_def peerItem_def expect_def addrOf_def canonEndpoint_def
        okHost_def IsZero_def Is4_WithoutZone_id peer_tag_defs Suc_le_eq split: if_splits)
  then show ?thesis by (cases "endpoint_item e") simp
qed

lemma peerItems_peer_items:
  assumes "wf_Peer p" and "okHost sz (peerEndpoint p)" and "\<not> IsZero (peerEndpoint p)" and "okPSK p"
    and "\<forall>a \<in> set (AllowedIPs p). PrefixIsValid a"
  shows "peerItems sz (peer_items p) emptyPeer (\<lambda>_. False) 0 = Inr (canonPeer p, 1)"
proof -
  have "TagPSKWrapped \<noteq> TagKeepalive" by (simp add: peer_tag_defs)
  with assms show ?thesis
    by (simp add: peer_items_def pfx_items_def wf_Peer_def okPSK_def emptyPeer_def peerItems_endpoint
        peerItems_pfx4 peerItems_pfx6 peerItems_keepalive peerItems_PSK canonPeer_def byFamily_def)
qed

subsection \<open>Only encodings are read\<close>

definition peer_rest :: "Peer \<Rightarrow> tlvItem list" where
  "peer_rest p = pfx_items TagAIP4 TagAIP6 (AllowedIPs p) @
     opt_item (Keepalive p \<noteq> 0) (TagKeepalive, [Keepalive p]) @
     opt_item (PSKWrapped p \<noteq> []) (TagPSKWrapped, PSKWrapped p)"

definition okEndpoint :: "size_tags \<Rightarrow> Endpoint \<Rightarrow> bool" where
  "okEndpoint sz e \<longleftrightarrow> okHost sz e \<and> \<not> IsZero e \<and> canonEndpoint e = e"

definition peerInv :: "size_tags \<Rightarrow> tlvItem list \<Rightarrow> Peer \<Rightarrow> (byte \<Rightarrow> bool) \<Rightarrow> nat \<Rightarrow> bool" where
  "peerInv sz read out seen n \<longleftrightarrow>
     read = opt_item (n = 1) (endpoint_item (peerEndpoint out)) @ peer_rest out \<and> n \<le> 1 \<and>
     (n = 1 \<longrightarrow> okEndpoint sz (peerEndpoint out)) \<and> okPSK out \<and> wf_Peer out \<and>
     (\<forall>a \<in> set (AllowedIPs out). PrefixIsValid a) \<and> byFamily pfx4 (AllowedIPs out) = AllowedIPs out \<and>
     seen TagKeepalive = (Keepalive out \<noteq> 0) \<and> seen TagPSKWrapped = (PSKWrapped out \<noteq> [])"

lemma peer_tags_ascend:
  "sorted_wrt (<) [TagEndpoint4, TagEndpoint6, TagEndpointHost, TagAIP4, TagAIP6, TagKeepalive, TagPSKWrapped]"
  by (simp add: peer_tag_defs word_less_nat_alt)

lemmas peer_tags_less [simp] = peer_tags_ascend [simplified]

lemma endpoint_item_tag: "fst (endpoint_item e) \<in> {TagEndpoint4, TagEndpoint6, TagEndpointHost}"
  by (simp add: endpoint_item_def)

lemma peerInv_le:
  assumes "peerInv sz read out seen n" "\<forall>x \<in> set read. fst x \<le> t"
  shows "t < TagAIP4 \<Longrightarrow> filter pfx4 (AllowedIPs out) = []"
    and "t < TagAIP6 \<Longrightarrow> filter (\<lambda>a. \<not> pfx4 a) (AllowedIPs out) = []"
    and "t < TagKeepalive \<Longrightarrow> Keepalive out = 0"
    and "t < TagPSKWrapped \<Longrightarrow> PSKWrapped out = []"
proof -
  have "\<forall>x \<in> set (peer_rest out). fst x \<le> t" using assms by (simp add: peerInv_def)
  then have h: "(t < TagAIP4 \<longrightarrow> filter pfx4 (AllowedIPs out) = []) \<and>
     (t < TagAIP6 \<longrightarrow> filter (\<lambda>a. \<not> pfx4 a) (AllowedIPs out) = []) \<and>
     (t < TagKeepalive \<longrightarrow> Keepalive out = 0) \<and> (t < TagPSKWrapped \<longrightarrow> PSKWrapped out = [])"
    unfolding peer_rest_def pfx_items_def set_append ball_Un le_group le_opt_item by simp
  from h show "t < TagAIP4 \<Longrightarrow> filter pfx4 (AllowedIPs out) = []"
    and "t < TagAIP6 \<Longrightarrow> filter (\<lambda>a. \<not> pfx4 a) (AllowedIPs out) = []"
    and "t < TagKeepalive \<Longrightarrow> Keepalive out = 0"
    and "t < TagPSKWrapped \<Longrightarrow> PSKWrapped out = []" by blast+
qed

lemmas peerInv_unfold = peerInv_def peer_rest_def pfx_items_def opt_item_def wf_Peer_def okPSK_def

lemma host_item:
  assumes "3 \<le> length v" "length v \<le> 2 + MaxHostname sz"
  defines "e \<equiv> \<lparr>IP = AddrZero, Host = string_of (drop 2 v), Port = Uint16 (take 2 v)\<rparr>"
  shows "endpoint_item e = (TagEndpointHost, v) \<and> okEndpoint sz e"
proof -
  have "length (take 2 v) = 2" using assms(1) by simp
  then have "be16 (Uint16 (take 2 v)) = take 2 v" by (rule be16_Uint16)
  moreover have "string_of (drop 2 v) \<noteq> []" using assms(1) by (simp add: string_of_def)
  ultimately show ?thesis
    using assms(2) by (simp add: e_def endpoint_item_def okEndpoint_def okHost_def IsZero_def
        canonEndpoint_def)
qed

lemma ip_item:
  assumes "length v = n + 2" "n = 4 \<or> n = 16"
  defines "e \<equiv> \<lparr>IP = addrOf (take n v), Host = [], Port = Uint16 (drop n v)\<rparr>"
  shows "endpoint_item e = (if n = 4 then TagEndpoint4 else TagEndpoint6, v) \<and> okEndpoint sz e"
proof -
  have "be16 (Uint16 (drop n v)) = drop n v" using assms(1) by (intro be16_Uint16) simp
  moreover have "length (take n v) = n" using assms(1) by simp
  ultimately show ?thesis
    using assms(2) addrOf_4 [of "take n v"] addrOf_16 [of "take n v"]
    by (auto simp: e_def endpoint_item_def okEndpoint_def okHost_def IsZero_def canonEndpoint_def)
qed

lemma peerItem_endpoint:
  assumes "peerItem sz t v out seen n = Inr (out', seen', n')"
    and "t \<in> {TagEndpoint4, TagEndpoint6, TagEndpointHost}"
  shows "\<exists>e. out' = out\<lparr>peerEndpoint := e\<rparr> \<and> seen' = seen \<and> n' = Suc n \<and>
     endpoint_item e = (t, v) \<and> okEndpoint sz e"
proof -
  consider "t = TagEndpoint4" | "t = TagEndpoint6" | "t = TagEndpointHost" using assms(2) by auto
  then show ?thesis
  proof cases
    case 1
    with assms(1) ip_item [of v 4] show ?thesis
      by (auto simp: peerItem_def expect_def result_inv)
  next
    case 2
    then have "t \<noteq> TagEndpoint4" by (simp add: peer_tag_defs)
    with 2 assms(1) ip_item [of v 16] show ?thesis
      by (auto simp: peerItem_def expect_def result_inv)
  next
    case 3
    then have "t \<noteq> TagEndpoint4" "t \<noteq> TagEndpoint6" by (simp_all add: peer_tag_defs)
    with 3 assms(1) host_item [of v sz] show ?thesis
      by (auto simp: peerItem_def expect_def result_inv not_less)
  qed
qed

lemma peerInv_endpoint:
  assumes inv: "peerInv sz read out seen n" "\<forall>x \<in> set read. fst x \<le> t"
    and item: "peerItem sz t v out seen n = Inr (out', seen', n')" and "n' \<le> 1"
    and t: "t \<in> {TagEndpoint4, TagEndpoint6, TagEndpointHost}"
  shows "peerInv sz (read @ [(t, v)]) out' seen' n'"
proof -
  obtain e where out': "out' = out\<lparr>peerEndpoint := e\<rparr>" "seen' = seen" "n' = Suc n"
    and e: "endpoint_item e = (t, v)" "okEndpoint sz e"
    using peerItem_endpoint [OF item t] by blast
  have "t < TagAIP4" "t < TagAIP6" "t < TagKeepalive" "t < TagPSKWrapped" using t by auto
  then have "filter pfx4 (AllowedIPs out) = []" "filter (\<lambda>a. \<not> pfx4 a) (AllowedIPs out) = []"
    and le: "Keepalive out = 0" "PSKWrapped out = []"
    using peerInv_le [OF inv] by auto
  then have "AllowedIPs out = []" using filters_Nil [of pfx4 "AllowedIPs out"] by simp
  moreover have "n = 0" using \<open>n' \<le> 1\<close> out'(3) by simp
  ultimately have out: "n = 0" "read = []" "AllowedIPs out = []"
    using inv(1) le by (simp_all add: peerInv_unfold)
  have "okPSK out'" "\<not> seen' TagKeepalive" "\<not> seen' TagPSKWrapped" "peer_rest out' = []"
    using inv(1) le out by (simp_all add: out' peerInv_unfold)
  with e out show ?thesis
    by (simp add: out' peerInv_def opt_item_def wf_Peer_def byFamily_def le)
qed

lemma peerInv_AIP4:
  assumes inv: "peerInv sz read out seen n" "\<forall>x \<in> set read. fst x \<le> TagAIP4"
    and item: "peerItem sz TagAIP4 v out seen n = Inr (out', seen', n')"
  shows "peerInv sz (read @ [(TagAIP4, v)]) out' seen' n'"
proof -
  from item obtain a where len: "length v = 5" and a: "prefixFrom v 4 = Inr a"
    and out': "out' = out\<lparr>AllowedIPs := AllowedIPs out @ [a]\<rparr>" "seen' = seen" "n' = n"
    by (auto simp: peerItem_def expect_def result_inv peer_tag_defs)
  have "wf_Prefix a" "PrefixIsValid a" "pfx4 a" "As4 (pfxAddr a) @ [word_of_int (pfxBits a)] = v"
    using prefixFrom_inv [OF a] len by auto
  moreover note peerInv_le(2-) [OF inv, simplified]
  ultimately show ?thesis
    using inv(1) by (simp add: out' byFamily_snoc peerInv_unfold)
qed

lemma peerInv_AIP6:
  assumes inv: "peerInv sz read out seen n" "\<forall>x \<in> set read. fst x \<le> TagAIP6"
    and item: "peerItem sz TagAIP6 v out seen n = Inr (out', seen', n')"
  shows "peerInv sz (read @ [(TagAIP6, v)]) out' seen' n'"
proof -
  from item obtain a where len: "length v = 17" and a: "prefixFrom v 16 = Inr a"
    and out': "out' = out\<lparr>AllowedIPs := AllowedIPs out @ [a]\<rparr>" "seen' = seen" "n' = n"
    by (auto simp: peerItem_def expect_def result_inv peer_tag_defs)
  have "wf_Prefix a" "PrefixIsValid a" "\<not> pfx4 a" "As16 (pfxAddr a) @ [word_of_int (pfxBits a)] = v"
    using prefixFrom_inv [OF a] len by auto
  moreover note peerInv_le(3-) [OF inv, simplified]
  ultimately show ?thesis
    using inv(1) by (simp add: out' byFamily_snoc peerInv_unfold)
qed

lemma peerInv_Keepalive:
  assumes inv: "peerInv sz read out seen n" "\<forall>x \<in> set read. fst x \<le> TagKeepalive"
    and item: "peerItem sz TagKeepalive v out seen n = Inr (out', seen', n')"
  shows "peerInv sz (read @ [(TagKeepalive, v)]) out' seen' n'"
proof -
  from item have "\<not> seen TagKeepalive" "length v = 1" "v ! 0 \<noteq> 0"
    and out': "out' = out\<lparr>Keepalive := v ! 0\<rparr>" "seen' = seen(TagKeepalive := True)" "n' = n"
    by (auto simp: peerItem_def expect_def once_def nonZero_def result_inv unat_eq_0
      peer_tag_defs split: if_splits)
  moreover from this have "[v ! 0] = v" by (cases v) auto
  moreover note peerInv_le(4) [OF inv, simplified]
  moreover have "TagPSKWrapped \<noteq> TagKeepalive" by (simp add: peer_tag_defs)
  ultimately show ?thesis
    using inv(1) by (simp add: peerInv_unfold)
qed

lemma peerInv_PSK:
  assumes inv: "peerInv sz read out seen n"
    and item: "peerItem sz TagPSKWrapped v out seen n = Inr (out', seen', n')"
  shows "peerInv sz (read @ [(TagPSKWrapped, v)]) out' seen' n'"
proof -
  from item have "\<not> seen TagPSKWrapped" "length v = PSKWrappedLen"
    and out': "out' = out\<lparr>PSKWrapped := v\<rparr>" "seen' = seen(TagPSKWrapped := True)" "n' = n"
    by (auto simp: peerItem_def expect_def once_def result_inv peer_tag_defs split: if_splits)
  moreover from this have "v \<noteq> []" by (auto simp: PSKWrappedLen_def)
  moreover have "TagPSKWrapped \<noteq> TagKeepalive" by (simp add: peer_tag_defs)
  ultimately show ?thesis
    using inv by (simp add: peerInv_unfold)
qed

lemma peerInv_step:
  assumes "peerInv sz read out seen n" "\<forall>x \<in> set read. fst x \<le> t"
    and "peerItem sz t v out seen n = Inr (out', seen', n')" and "n' \<le> 1"
  shows "peerInv sz (read @ [(t, v)]) out' seen' n'"
proof -
  consider "t \<in> {TagEndpoint4, TagEndpoint6, TagEndpointHost}" | "t = TagAIP4" | "t = TagAIP6"
    | "t = TagKeepalive" | "t = TagPSKWrapped"
    using assms(3) by (auto simp: peerItem_def split: if_splits)
  then show ?thesis
    using assms by cases (blast intro: peerInv_endpoint peerInv_AIP4 peerInv_AIP6 peerInv_Keepalive
      peerInv_PSK)+
qed

lemma peerItem_mono: "peerItem sz t v out seen n = Inr (out', seen', n') \<Longrightarrow> n \<le> n'"
  by (auto simp: peerItem_def result_inv split: if_splits)

lemma peerItems_mono: "peerItems sz items out seen n = Inr (r, m) \<Longrightarrow> n \<le> m"
proof (induction items arbitrary: out seen n)
  case (Cons it items)
  obtain t v where "it = (t, v)" by (cases it)
  with Cons show ?case by (fastforce simp: result_inv dest: peerItem_mono)
qed simp

lemma peerItems_inv:
  "peerItems sz later out seen n = Inr (r, m) \<Longrightarrow> m \<le> 1 \<Longrightarrow> peerInv sz read out seen n \<Longrightarrow>
   sorted (map fst (read @ later)) \<Longrightarrow> \<exists>seen'. peerInv sz (read @ later) r seen' m"
proof (induction later arbitrary: out seen n read)
  case (Cons it later)
  obtain t v where it: "it = (t, v)" by (cases it)
  with Cons.prems(1) obtain out' seen' n' where
    item: "peerItem sz t v out seen n = Inr (out', seen', n')"
    and rest: "peerItems sz later out' seen' n' = Inr (r, m)"
    by (auto simp: result_inv)
  have "n' \<le> 1" using peerItems_mono [OF rest] Cons.prems(2) by simp
  moreover have "\<forall>x \<in> set read. fst x \<le> t" using Cons.prems(4) it by (auto simp: sorted_append)
  ultimately have "peerInv sz (read @ [it]) out' seen' n'"
    using peerInv_step [OF Cons.prems(3) _ item] by (simp add: it)
  from Cons.IH [OF rest Cons.prems(2) this] Cons.prems(4) show ?case by simp
qed auto

lemma peerInv_empty: "peerInv sz [] emptyPeer (\<lambda>_. False) 0"
  by (simp add: peerInv_unfold emptyPeer_def byFamily_def)

lemma peer_items_sorted: "sorted (map fst (peer_items p)) \<and> tagEnd \<notin> fst ` set (peer_items p)"
proof -
  have "tagEnd < TagEndpoint4" by (simp add: peer_tag_defs word_less_nat_alt)
  then have "tagEnd \<notin> {TagEndpoint4, TagEndpoint6, TagEndpointHost, TagAIP4, TagAIP6, TagKeepalive, TagPSKWrapped}"
    by (simp add: peer_tag_defs)
  moreover have "sorted [TagEndpoint4, TagEndpoint6, TagEndpointHost, TagAIP4, TagAIP6, TagKeepalive, TagPSKWrapped]"
    by (rule strict_sorted_imp_sorted [OF peer_tags_ascend])
  ultimately show ?thesis
    using endpoint_item_tag [of "peerEndpoint p"]
    by (auto simp: peer_items_def pfx_items_def opt_item_def sorted_append o_def map_replicate_const)
qed

lemma canonPeer_iff:
  "canonPeer p = p \<longleftrightarrow> canonEndpoint (peerEndpoint p) = peerEndpoint p \<and>
     byFamily pfx4 (AllowedIPs p) = AllowedIPs p"
  by (cases p) (auto simp: canonPeer_def)

lemma peer_items_canon [simp]: "peer_items (canonPeer p) = peer_items p"
  by (auto simp: peer_items_def canonPeer_def pfx_items_def endpoint_item_def canonEndpoint_def
      Is4_WithoutZone_id)

definition okPeer :: "size_tags \<Rightarrow> Peer \<Rightarrow> bool" where
  "okPeer sz p \<longleftrightarrow> okHost sz (peerEndpoint p) \<and> \<not> IsZero (peerEndpoint p) \<and> okPSK p \<and>
     (\<forall>a \<in> set (AllowedIPs p). PrefixIsValid a)"

lemma DecodePeer_iff:
  "DecodePeer sz b = Inr p \<longleftrightarrow>
     wf_Peer p \<and> canonPeer p = p \<and> okPeer sz p \<and> length b \<le> Size sz \<and>
     (\<exists>k. b = peerBytes p @ replicate k 0)" (is "?l \<longleftrightarrow> ?r")
proof
  assume ?l
  then obtain items where q: "parse sz b MagicPeer = Inr items"
    and i: "peerItems sz items emptyPeer (\<lambda>_. False) 0 = Inr (p, 1)"
    by (auto simp: DecodePeer_def result_inv split: if_splits)
  from q have h: "length b \<le> Size sz" "\<exists>k. b = header MagicPeer @ flat items @ replicate k 0"
    "sorted (map fst ([] @ items))" by (auto simp: parse_iff)
  from peerItems_inv [OF i _ peerInv_empty h(3)] have "\<exists>seen. peerInv sz items p seen 1" by simp
  with h show ?r
    by (auto simp: peerInv_def peerBytes_def peer_rest_def peer_items_def opt_item_def okEndpoint_def
        okPeer_def canonPeer_iff)
next
  assume r: ?r
  then have "parse sz b MagicPeer = Inr (peer_items p)"
    using peer_items_sorted [of p] short_peer_items [of sz p]
    by (auto simp: parse_iff peerBytes_def okPeer_def)
  with r peerItems_peer_items [of p sz] show ?l by (simp add: DecodePeer_def okPeer_def)
qed

lemma Peer_Encode_Inr:
  "Peer_Encode sz p = Inr b \<longleftrightarrow>
     okPeer sz p \<and> length (peerBytes p) \<le> Size sz \<and> b = pad sz (peerBytes p)"
  by (auto simp: Peer_Encode_eq okPeer_def)

lemma canonPeer_props [simp]:
  "wf_Peer p \<Longrightarrow> wf_Peer (canonPeer p)" "okPeer sz (canonPeer p) = okPeer sz p"
  "canonPeer (canonPeer p) = canonPeer p"
  by (auto simp: wf_Peer_def okPeer_def okPSK_def okHost_def IsZero_def canonPeer_def canonEndpoint_def)

lemma Peer_enc_dec:
  "wf_Peer p \<Longrightarrow> Peer_Encode sz p = Inr b \<Longrightarrow> DecodePeer sz b = Inr (canonPeer p)"
  by (auto simp: Peer_Encode_Inr DecodePeer_iff peerBytes_def pad_append)

lemma Peer_dec_enc: "DecodePeer sz b = Inr p \<Longrightarrow> Peer_Encode sz p = Normalize sz b"
  by (auto simp: DecodePeer_iff Peer_Encode_Inr peerBytes_def
      Normalize_header [of MagicPeer "flat (peer_items p)", simplified])

subsection \<open>The peer record as a codec\<close>

interpretation pc: record_codec "Peer_Encode sz" "DecodePeer sz" "Normalize sz" canonPeer wf_Peer for sz
proof
  fix p b
  show "wf_Peer p \<Longrightarrow> Peer_Encode sz p = Inr b \<Longrightarrow> Normalize sz b = Inr b"
    by (auto simp: Peer_Encode_Inr intro: Normalize_padded)
  show "DecodePeer sz b = Inr p \<Longrightarrow> \<exists>b'. Normalize sz b = Inr b'"
    by (auto simp: DecodePeer_iff peerBytes_def simp: Normalize_pad)
  show "DecodePeer sz b = Inr p \<Longrightarrow> wf_Peer p \<and> canonPeer p = p"
    by (simp add: DecodePeer_iff)
qed (fact Peer_enc_dec Peer_dec_enc)+

definition examplePeer :: Peer where
  "examplePeer = \<lparr>peerEndpoint = \<lparr>IP = AddrZero, Host = ''w.io'', Port = 51820\<rparr>,
     AllowedIPs = [PrefixFrom (Addr4 0) 0], Keepalive = 0, PSKWrapped = replicate 40 9\<rparr>"

definition examplePeerRecord :: bytes where
  "examplePeerRecord =
     [87, 71, 58, 112, 114, 58, 2, 0x12, 6, 202, 108, 119, 46, 105, 111, 0x13, 5, 0, 0, 0, 0, 0, 0x16, 40]
     @ replicate 40 9"

lemma examplePeer_Encode: "Peer_Encode size_descr64 examplePeer = Inr examplePeerRecord"
  by (simp add: examplePeer_def examplePeerRecord_def encode_eval MaxHostname_def descr_lens)

lemma examplePeer_wf: "wf_Peer examplePeer"
  by (simp add: examplePeer_def wf_Peer_def)

text \<open>
  A peer record that \<open>Peer.Encode\<close> accepts has the record length of the build and
  \<open>DecodePeer\<close> reads it back to the encoded peer, allowed addresses grouped by family and
  the endpoint in the one form the record stores.
\<close>

theorem peer_roundtrip:
  assumes "wf_Peer p" and "Peer_Encode sz p = Inr b"
  shows "length b = Size sz \<and> DecodePeer sz b = Inr (canonPeer p)"
  using assms Peer_enc_dec [OF assms] by (auto simp: Peer_Encode_Inr)

theorem peer_roundtrip_witness:
  "length examplePeerRecord = 64 \<and>
   DecodePeer size_descr64 examplePeerRecord = Inr (canonPeer examplePeer)"
  using peer_roundtrip [OF examplePeer_wf examplePeer_Encode] by simp

text \<open>
  C7: the peer format is canonical: encoding what \<open>DecodePeer\<close> accepted gives the accepted
  bytes padded, and two accepted slices decode to the same peer exactly when their padded
  forms agree.
\<close>

theorem peer_canonical:
  assumes "DecodePeer sz b = Inr p" and "DecodePeer sz b' = Inr p'"
  shows "Peer_Encode sz p = Normalize sz b \<and> isOk (Normalize sz b) \<and>
     (Normalize sz b = Normalize sz b' \<longleftrightarrow> p = p')"
  using pc.dec_enc [OF assms(1)] pc.dec_padded [OF assms(1)] pc.same_record_iff [OF assms]
  by (auto simp: isOk_iff)

theorem peer_canonical_witness:
  "Peer_Encode size_descr64 (canonPeer examplePeer) = Normalize size_descr64 examplePeerRecord \<and>
   isOk (Normalize size_descr64 examplePeerRecord)"
  using peer_canonical [OF Peer_enc_dec Peer_enc_dec,
      OF examplePeer_wf examplePeer_Encode examplePeer_wf examplePeer_Encode]
  by blast

text \<open>
  The space a peer record needs: the header, the endpoint (four bytes and the host name, or
  eight for IPv4, or twenty for IPv6), seven or nineteen bytes per allowed prefix, three for
  a keepalive and forty-two for a wrapped key.
\<close>

definition peerNeed :: "Peer \<Rightarrow> nat" where
  "peerNeed p = 7 +
     (if Host (peerEndpoint p) \<noteq> [] then 4 + length (Host (peerEndpoint p))
      else if Is4 (IP (peerEndpoint p)) then 8 else 20) +
     sum_list (map (\<lambda>a. if pfx4 a then 7 else 19) (AllowedIPs p)) +
     (if Keepalive p \<noteq> 0 then 3 else 0) +
     (if PSKWrapped p \<noteq> [] then 2 + length (PSKWrapped p) else 0)"

lemma length_peerBytes: "length (peerBytes p) = peerNeed p"
  by (auto simp: peerBytes_def peer_items_def endpoint_item_def length_pfx_items length_flat_opt
      peerNeed_def)

text \<open>
  The outcome of \<open>Peer.Encode\<close> on every input, in the order the code meets them: a host
  name over the format's limit, no endpoint, an invalid allowed address, a wrapped key that
  is not 40 bytes, a record over the limit with its length and excess; otherwise the padded
  record.
\<close>

theorem peer_encode_outcomes:
  "Peer_Encode sz p =
     (if length (Host (peerEndpoint p)) > MaxHostname sz
      then Inl (ErrHostLen (length (Host (peerEndpoint p))))
      else if IsZero (peerEndpoint p) then Inl ErrNeedsEndpoint
      else if \<exists>a \<in> set (AllowedIPs p). \<not> PrefixIsValid a then Inl (ErrInvalidPrefix ''allowed-ip'')
      else if PSKWrapped p \<noteq> [] \<and> length (PSKWrapped p) \<noteq> PSKWrappedLen
      then Inl (ErrPSKLen (length (PSKWrapped p)))
      else if peerNeed p > Size sz then Inl (ErrOverflow ''peer'' (peerNeed p) (peerNeed p - Size sz))
      else Inr (pad sz (peerBytes p)))"
  by (simp add: Peer_Encode_eq okHost_def okPSK_def length_peerBytes not_le)

text \<open>
  On the 64-byte build a host name endpoint and a wrapped key do fit into one record: with
  one allowed IPv4 prefix and no keepalive a host name of up to four bytes encodes.
  The note in \<open>size_descr64.go\<close> that the two cannot coexist at all is not what the code does.
\<close>

theorem host_and_psk_coexist_64:
  assumes "Host (peerEndpoint p) \<noteq> []" and "length (Host (peerEndpoint p)) \<le> 4"
    and "AllowedIPs p = [a]" and "pfx4 a" and "PrefixIsValid a"
    and "Keepalive p = 0" and "length (PSKWrapped p) = PSKWrappedLen"
  shows "isOk (Peer_Encode size_descr64 p)"
proof -
  have "peerNeed p \<le> 64" using assms by (auto simp: peerNeed_def PSKWrappedLen_def)
  moreover have "length (Host (peerEndpoint p)) \<le> MaxHostname size_descr64"
    using assms(2) by (simp add: MaxHostname_def descr_lens)
  ultimately show ?thesis
    using assms by (simp add: Peer_Encode_eq okHost_def okPSK_def IsZero_def length_peerBytes isOk_iff)
qed

theorem host_and_psk_coexist_64_witness: "isOk (Peer_Encode size_descr64 examplePeer)"
  by (rule host_and_psk_coexist_64 [of examplePeer "PrefixFrom (Addr4 0) 0"])
    (simp_all add: examplePeer_def PSKWrappedLen_def PrefixFrom_def PrefixIsValid_def)

end
