(* ===== verification/Mac.thy ===== *)
theory Mac
  imports Hem DescrPeer "HOL-Library.List_Lexorder" "HOL-Library.Multiset"
begin

text \<open>
  \<open>internal/mac\<close>: the one message that authenticates a whole configuration, and the two
  device calls that sign and check it.  Byte arrays are compared as Go's \<open>bytes.Compare\<close>
  does, lexicographically.  The map from references to positions is the list of its pairs.
\<close>

subsection \<open>The canonical message\<close>

definition Domain :: string where "Domain = ''ENC-WG-MAC-v2''"
definition Alg :: string where "Alg = ''SHA2-256''"
definition PubKeyLen :: nat where "PubKeyLen = 32"
definition deviceMsgLimit :: nat where "deviceMsgLimit = 2048"

definition perPeer :: "size_tags \<Rightarrow> nat" where
  "perPeer sz = PubKeyLen + Size sz"

definition fixedLen :: "size_tags \<Rightarrow> nat" where
  "fixedLen sz = length Domain + PubKeyLen + Size sz"

definition MaxPeers :: "size_tags \<Rightarrow> nat" where
  "MaxPeers sz = (deviceMsgLimit - fixedLen sz) div perPeer sz"

record PeerRecord =
  prPubKey :: bytes
  prDescr :: bytes

abbreviation refOf :: "PeerRecord \<Rightarrow> PeerRef" where
  "refOf p \<equiv> MakePeerRef (prPubKey p)"

fun indexRefs :: "nat \<Rightarrow> PeerRecord list \<Rightarrow> (PeerRef \<times> nat) list \<Rightarrow> error + (PeerRef \<times> nat) list" where
  "indexRefs i [] byRef = Inr byRef"
| "indexRefs i (p # ps) byRef =
     (if map_of byRef (refOf p) \<noteq> None then Inl (Msg ''mac: two peers share the reference %x'')
      else indexRefs (Suc i) ps ((refOf p, i) # byRef))"

fun takeRefs :: "PeerRef list \<Rightarrow> (PeerRef \<times> nat) list \<Rightarrow> error + (PeerRef \<times> nat) list" where
  "takeRefs [] byRef = Inr byRef"
| "takeRefs (ref # refs) byRef =
     (if map_of byRef ref = None then Inl (Msg ''mac: no peer resolves the reference %x'')
      else takeRefs refs (filter (\<lambda>(r, i). r \<noteq> ref) byRef))"

definition matchRefs :: "PeerRef list \<Rightarrow> PeerRecord list \<Rightarrow> error + unit" where
  "matchRefs refs peers =
     (if length refs \<noteq> length peers then Inl (Msg ''mac: interface record references %d peers, got %d'')
      else bindE (indexRefs 0 peers []) (\<lambda>byRef.
           bindE (takeRefs refs byRef) (\<lambda>byRef.
             failIf (length byRef \<noteq> 0) (Msg ''mac: %d peers are not referenced by the interface record''))))"

definition Canonical :: "size_tags \<Rightarrow> bytes \<Rightarrow> bytes \<Rightarrow> PeerRecord list \<Rightarrow> error + bytes" where
  "Canonical sz ifPubKey ifDescr peers =
     bindE (mapErr (\<lambda>e. Wrap ''mac: interface record: %w'' [DescrError e]) (DecodeInterface sz ifDescr)) (\<lambda>rec.
     bindE (matchRefs (PeerRefs rec) peers) (\<lambda>_.
     bindE (failIf (length peers > MaxPeers sz) (Msg ''mac: %d peers exceeds the %d that fit in the device's %d-byte message'')) (\<lambda>_.
     bindE (mapErr (\<lambda>e. Wrap ''mac: interface record: %w'' [DescrError e]) (ZeroMAC sz ifDescr)) (\<lambda>zeroed.
       Inr (bytes_of Domain @ ifPubKey @ zeroed @
            concat (map (\<lambda>p. prPubKey p @ prDescr p) (sort_key prPubKey peers)))))))"

subsection \<open>Signing and checking\<close>

definition macOpts :: "string \<Rightarrow> CryptoOpts" where
  "macOpts kid = noOpts\<lparr>optAlg := Alg, optExtKID := kid\<rparr>"

definition Sign :: "size_tags \<Rightarrow> 'd Client \<Rightarrow> string \<Rightarrow> string \<Rightarrow> bytes \<Rightarrow> bytes \<Rightarrow> PeerRecord list \<Rightarrow>
    ('d, error, bytes) io" where
  "Sign sz c token kid ifPubKey ifDescr peers =
     bindS (liftE (Canonical sz ifPubKey ifDescr peers)) (\<lambda>msg.
     bindS (mapErrS (\<lambda>e. Wrap ''mac: hmac/hash: %w'' [e]) (HmacHash c token kid msg (macOpts kid))) (\<lambda>sum.
       if length sum \<noteq> MACLen then failS (Msg ''mac: device returned a %d-byte MAC, expected %d'')
       else returnS sum))"

definition Verify :: "size_tags \<Rightarrow> 'd Client \<Rightarrow> string \<Rightarrow> string \<Rightarrow> bytes \<Rightarrow> bytes \<Rightarrow> PeerRecord list \<Rightarrow>
    ('d, error, unit) io" where
  "Verify sz c token kid ifPubKey ifDescr peers =
     bindS (liftE (mapErr (\<lambda>e. Wrap ''mac: interface record: %w'' [DescrError e]) (DecodeInterface sz ifDescr))) (\<lambda>rec.
     if \<not> HasMAC rec
     then failS (Wrap ''mac: %w: the interface record carries no MAC'' [ErrNotAuthentic])
     else bindS (liftE (Canonical sz ifPubKey ifDescr peers)) (\<lambda>msg.
       mapErrS (\<lambda>e. Wrap ''mac: %w: %w'' [ErrNotAuthentic, e])
         (HmacVerify c token kid msg (MAC rec) (macOpts kid))))"

lemma Verify_cong: "HmacVerify c' = HmacVerify c \<Longrightarrow> Verify sz c' t k pk b ps = Verify sz c t k pk b ps"
  unfolding Verify_def by (simp only:)

subsection \<open>The references are a bijection\<close>

lemma indexRefs_Inr:
  "indexRefs i ps byRef = Inr m \<Longrightarrow>
     distinct (map refOf ps) \<and> (\<forall>p \<in> set ps. refOf p \<notin> fst ` set byRef) \<and>
     map fst m = rev (map refOf ps) @ map fst byRef"
proof (induction ps arbitrary: i byRef)
  case (Cons p ps)
  then have new: "refOf p \<notin> fst ` set byRef"
    and rest: "indexRefs (Suc i) ps ((refOf p, i) # byRef) = Inr m"
    by (auto simp: map_of_eq_None_iff split: if_splits)
  from Cons.IH [OF rest] new show ?case by auto
qed simp

lemma notin_image: "x \<notin> f ` A \<longleftrightarrow> (\<forall>a \<in> A. f a \<noteq> x)"
  by auto

lemma indexRefs_total:
  "distinct (map refOf ps) \<Longrightarrow> \<forall>p \<in> set ps. refOf p \<notin> fst ` set byRef \<Longrightarrow>
   \<exists>m. indexRefs i ps byRef = Inr m"
proof (induction ps arbitrary: i byRef)
  case (Cons p ps)
  have "\<forall>q \<in> set ps. refOf q \<noteq> refOf p"
    using Cons.prems(1) notin_image [of "refOf p" refOf "set ps"] by simp
  then have "\<exists>m. indexRefs (Suc i) ps ((refOf p, i) # byRef) = Inr m"
    using Cons.prems by (intro Cons.IH) simp_all
  moreover have "map_of byRef (refOf p) = None"
    using Cons.prems by (simp add: map_of_eq_None_iff)
  ultimately show ?case by simp
qed simp

lemma takeRefs_ok:
  "distinct (map fst byRef) \<Longrightarrow>
   takeRefs refs byRef = Inr m \<longleftrightarrow>
     distinct refs \<and> set refs \<subseteq> fst ` set byRef \<and> m = filter (\<lambda>(r, i). r \<notin> set refs) byRef"
proof (induction refs arbitrary: byRef)
  case (Cons ref refs)
  let ?b = "filter (\<lambda>(r, i). r \<noteq> ref) byRef"
  have d: "distinct (map fst ?b)" using Cons.prems by (rule distinct_map_filter)
  have img: "fst ` set ?b = fst ` set byRef - {ref}" by force
  have f: "filter (\<lambda>(r, i). r \<notin> set refs) ?b = filter (\<lambda>(r, i). r \<notin> set (ref # refs)) byRef"
    by (auto simp: filter_filter intro!: filter_cong)
  show ?case
  proof (cases "ref \<in> fst ` set byRef")
    case True
    then have "map_of byRef ref \<noteq> None" by (simp only: map_of_eq_None_iff not_not)
    then have "takeRefs (ref # refs) byRef = takeRefs refs ?b" by (simp only: takeRefs.simps if_False)
    also have "\<dots> = Inr m \<longleftrightarrow> distinct refs \<and> set refs \<subseteq> fst ` set byRef - {ref} \<and>
        m = filter (\<lambda>(r, i). r \<notin> set (ref # refs)) byRef"
      unfolding Cons.IH [OF d] img f ..
    finally show ?thesis using True by auto
  next
    case False
    then have "map_of byRef ref = None" by (simp add: map_of_eq_None_iff)
    with False show ?thesis by auto
  qed
qed auto

lemma matchRefs_iff:
  "matchRefs refs peers = Inr u \<longleftrightarrow>
     distinct refs \<and> distinct (map refOf peers) \<and> set refs = refOf ` set peers"
    (is "?l \<longleftrightarrow> ?r")
proof
  assume ?l
  then obtain m where m: "indexRefs 0 peers [] = Inr m" and t: "takeRefs refs m = Inr []"
    by (auto simp: matchRefs_def result_inv split: if_splits)
  from indexRefs_Inr [OF m] have d: "distinct (map refOf peers)"
    and fst_m: "map fst m = rev (map refOf peers)" by simp_all
  have img: "fst ` set m = refOf ` set peers" using arg_cong [OF fst_m, of set] by simp
  have "distinct (map fst m)" using d unfolding fst_m by (rule distinct_rev [THEN iffD2])
  from takeRefs_ok [OF this, of refs "[]"] t have "distinct refs" "set refs \<subseteq> fst ` set m"
    and all: "filter (\<lambda>(r, i). r \<notin> set refs) m = []" by simp_all
  moreover have "fst ` set m \<subseteq> set refs" using all unfolding filter_empty_conv by force
  ultimately show ?r using d img by simp
next
  assume r: ?r
  then have len: "length refs = length peers"
    by (metis distinct_card length_map set_map)
  obtain m where m: "indexRefs 0 peers [] = Inr m"
    using indexRefs_total [of peers "[]" 0] r by auto
  from indexRefs_Inr [OF m] have fst_m: "map fst m = rev (map refOf peers)" by simp
  have d: "distinct (map fst m)" using r unfolding fst_m by simp
  have img: "fst ` set m = set refs" using arg_cong [OF fst_m, of set] r by simp
  have "filter (\<lambda>(r, i). r \<notin> set refs) m = []" unfolding filter_empty_conv using img by force
  with r img have "takeRefs refs m = Inr []" unfolding takeRefs_ok [OF d] by simp
  with len m show ?l by (simp add: matchRefs_def)
qed

lemma matchRefs_cong_perm:
  "mset ps = mset ps' \<Longrightarrow> isOk (matchRefs refs ps) = isOk (matchRefs refs ps')"
proof -
  assume "mset ps = mset ps'"
  then have "set ps = set ps'" "distinct (map refOf ps) = distinct (map refOf ps')"
    by (auto dest: mset_eq_setD) (metis mset_eq_imp_distinct_iff mset_map)+
  then show ?thesis by (simp add: isOk_iff matchRefs_iff)
qed

subsection \<open>What the message covers\<close>

text \<open>What Go's array types guarantee of the arguments.\<close>

definition wf_PeerRecord :: "size_tags \<Rightarrow> PeerRecord \<Rightarrow> bool" where
  "wf_PeerRecord sz p \<longleftrightarrow> length (prPubKey p) = PubKeyLen \<and> length (prDescr p) = Size sz"

definition chunk :: "PeerRecord \<Rightarrow> bytes" where
  "chunk p = prPubKey p @ prDescr p"

lemma Canonical_Inr:
  "Canonical sz pk d ps = Inr m \<longleftrightarrow>
     (\<exists>i z. DecodeInterface sz d = Inr i \<and> isOk (matchRefs (PeerRefs i) ps) \<and>
        length ps \<le> MaxPeers sz \<and> ZeroMAC sz d = Inr z \<and>
        m = bytes_of Domain @ pk @ z @ concat (map chunk (sort_key prPubKey ps)))"
  by (auto simp: Canonical_def chunk_def [abs_def] result_inv isOk_iff not_less)

lemma DecodeInterface_full:
  assumes "DecodeInterface sz d = Inr i" and "length d = Size sz"
  shows "Interface_Encode sz i = Inr d"
    and "ZeroMAC sz d = Interface_Encode sz (i\<lparr>MAC := zeroMAC\<rparr>)"
proof -
  have wf: "wf_Interface i" using ifc.dec_canonical [OF assms(1)] by simp
  show e: "Interface_Encode sz i = Inr d"
    using ifc.dec_enc [OF assms(1)] Normalize_padded [OF assms(2)] by simp
  show "ZeroMAC sz d = Interface_Encode sz (i\<lparr>MAC := zeroMAC\<rparr>)"
    by (rule ZeroMAC_Encode [OF wf e])
qed

lemma wf_zeroed:
  "DecodeInterface sz d = Inr i \<Longrightarrow> wf_Interface (i\<lparr>MAC := zeroMAC\<rparr>)"
  using ifc.dec_canonical [of sz d i] by (simp add: wf_Interface_def)

lemma canon_zeroed:
  "DecodeInterface sz d = Inr i \<Longrightarrow> canonInterface (i\<lparr>MAC := zeroMAC\<rparr>) = i\<lparr>MAC := zeroMAC\<rparr>"
  using ifc.dec_canonical [of sz d i] by (simp add: canonInterface_iff)

lemma length_zeroed:
  assumes "DecodeInterface sz d = Inr i" "length d = Size sz" "ZeroMAC sz d = Inr z"
  shows "length z = Size sz"
proof -
  have "Interface_Encode sz (i\<lparr>MAC := zeroMAC\<rparr>) = Inr z"
    using DecodeInterface_full(2) [OF assms(1,2)] assms(3) by simp
  then show ?thesis using wf_zeroed [OF assms(1)] by (auto simp: Interface_Encode_Inr)
qed

lemma zeroed_inject:
  assumes "DecodeInterface sz d = Inr i" "length d = Size sz"
    and "DecodeInterface sz d' = Inr i'" "length d' = Size sz"
    and z: "ZeroMAC sz d = Inr z" "ZeroMAC sz d' = Inr z"
  shows "i\<lparr>MAC := zeroMAC\<rparr> = i'\<lparr>MAC := zeroMAC\<rparr>"
proof -
  have "Interface_Encode sz (i\<lparr>MAC := zeroMAC\<rparr>) = Inr z"
    "Interface_Encode sz (i'\<lparr>MAC := zeroMAC\<rparr>) = Inr z"
    using DecodeInterface_full(2) [OF assms(1,2)] DecodeInterface_full(2) [OF assms(3,4)] z by simp_all
  from ifc.one_configuration [OF wf_zeroed [OF assms(1)] wf_zeroed [OF assms(3)] this]
  show ?thesis by (simp add: canon_zeroed [OF assms(1)] canon_zeroed [OF assms(3)])
qed

lemma concat_chunks:
  assumes "concat xs = concat ys" and "0 < n"
    and "\<forall>x \<in> set xs. length x = n" and "\<forall>y \<in> set ys. length y = n"
  shows "xs = ys"
  using assms
proof (induction xs arbitrary: ys)
  case Nil
  then show ?case by (cases ys) auto
next
  case (Cons x xs)
  then obtain y ys' where ys: "ys = y # ys'" by (cases ys) auto
  with Cons.prems have "x = y" "concat xs = concat ys'" by auto
  with Cons ys show ?case by simp
qed

lemma length_chunks:
  "\<forall>p \<in> set ps. wf_PeerRecord sz p \<Longrightarrow> length (concat (map chunk ps)) = perPeer sz * length ps"
  by (induction ps) (auto simp: wf_PeerRecord_def chunk_def perPeer_def)

lemma chunks_inject:
  assumes "concat (map chunk ps) = concat (map chunk qs)"
    and "\<forall>p \<in> set ps. wf_PeerRecord sz p" "\<forall>p \<in> set qs. wf_PeerRecord sz p"
  shows "ps = qs"
proof -
  have "map chunk ps = map chunk qs"
    by (rule concat_chunks [OF assms(1), of "perPeer sz"])
      (use assms(2,3) in \<open>auto simp: wf_PeerRecord_def chunk_def perPeer_def PubKeyLen_def\<close>)
  moreover have "inj_on chunk (set ps \<union> set qs)"
    by (rule inj_onI) (use assms(2,3) in \<open>auto simp: wf_PeerRecord_def chunk_def intro!: PeerRecord.equality\<close>)
  ultimately show ?thesis by (simp add: inj_on_map_eq_map)
qed

lemma chunk_mset:
  assumes "concat (map chunk (sort_key prPubKey ps)) = concat (map chunk (sort_key prPubKey qs))"
    and "\<forall>p \<in> set ps. wf_PeerRecord sz p" "\<forall>p \<in> set qs. wf_PeerRecord sz p"
  shows "mset ps = mset qs"
proof -
  have "sort_key prPubKey ps = sort_key prPubKey qs"
    by (rule chunks_inject [OF assms(1)]) (use assms(2,3) in auto)
  then show ?thesis by (metis mset_sort)
qed

lemma Canonical_inject:
  assumes "Canonical sz pk d ps = Inr m" and "Canonical sz pk' d' ps' = Inr m"
    and "length pk = PubKeyLen" "length pk' = PubKeyLen" "length d = Size sz" "length d' = Size sz"
    and wf: "\<forall>p \<in> set ps. wf_PeerRecord sz p" "\<forall>p \<in> set ps'. wf_PeerRecord sz p"
  shows "pk = pk' \<and> mset ps = mset ps' \<and>
     (\<exists>i i'. DecodeInterface sz d = Inr i \<and> DecodeInterface sz d' = Inr i' \<and>
        i\<lparr>MAC := zeroMAC\<rparr> = i'\<lparr>MAC := zeroMAC\<rparr>) \<and>
     length m = fixedLen sz + perPeer sz * length ps \<and> length m \<le> deviceMsgLimit"
proof -
  obtain i z where i: "DecodeInterface sz d = Inr i" "ZeroMAC sz d = Inr z" and n: "length ps \<le> MaxPeers sz"
    and m: "m = bytes_of Domain @ pk @ z @ concat (map chunk (sort_key prPubKey ps))"
    using assms(1) by (auto simp: Canonical_Inr)
  obtain i' z' where i': "DecodeInterface sz d' = Inr i'" "ZeroMAC sz d' = Inr z'"
    and m': "m = bytes_of Domain @ pk' @ z' @ concat (map chunk (sort_key prPubKey ps'))"
    using assms(2) by (auto simp: Canonical_Inr)
  have len: "length z = Size sz" "length z' = Size sz"
    using length_zeroed [OF i(1) _ i(2)] length_zeroed [OF i'(1) _ i'(2)] assms(5,6) by auto
  then have eq: "pk = pk'" "z = z'"
    "concat (map chunk (sort_key prPubKey ps)) = concat (map chunk (sort_key prPubKey ps'))"
    using m m' assms(3,4) by auto
  have "mset ps = mset ps'" by (rule chunk_mset [OF eq(3) wf])
  moreover have "i\<lparr>MAC := zeroMAC\<rparr> = i'\<lparr>MAC := zeroMAC\<rparr>"
    using zeroed_inject [OF i(1) assms(5) i'(1) assms(6)] i(2) i'(2) eq(2) by simp
  moreover have lm: "length m = fixedLen sz + perPeer sz * length ps"
    using length_chunks [of "sort_key prPubKey ps" sz] wf(1) len(1) assms(3)
    by (simp add: m fixedLen_def)
  moreover have "perPeer sz * length ps \<le> deviceMsgLimit - fixedLen sz"
  proof -
    have "perPeer sz * length ps \<le> perPeer sz * MaxPeers sz" using n by (rule mult_le_mono2)
    also have "\<dots> \<le> deviceMsgLimit - fixedLen sz" by (simp add: MaxPeers_def)
    finally show ?thesis .
  qed
  moreover have "fixedLen sz \<le> deviceMsgLimit"
    by (cases sz) (simp_all add: fixedLen_def deviceMsgLimit_def Domain_def PubKeyLen_def)
  ultimately show ?thesis using i(1) i'(1) eq(1) by auto
qed

text \<open>
  C4: the message binds the whole configuration.  Two configurations with the same canonical
  message have the same interface key, the same peers with the same keys and the same
  stored records, and interface records that agree in everything but the MAC's own value.
  The message never exceeds what the device accepts, and its length is determined by the
  number of peers.
\<close>

theorem canonical_binds:
  assumes "Canonical sz pk d ps = Inr m" and "Canonical sz pk' d' ps' = Inr m"
    and "length pk = PubKeyLen" "length pk' = PubKeyLen" "length d = Size sz" "length d' = Size sz"
    and wf: "\<forall>p \<in> set ps. wf_PeerRecord sz p" "\<forall>p \<in> set ps'. wf_PeerRecord sz p"
  shows "pk = pk' \<and> mset ps = mset ps' \<and>
     (\<exists>i i'. DecodeInterface sz d = Inr i \<and> DecodeInterface sz d' = Inr i' \<and>
        i\<lparr>MAC := zeroMAC\<rparr> = i'\<lparr>MAC := zeroMAC\<rparr>) \<and>
     length m = fixedLen sz + perPeer sz * length ps \<and> length m \<le> deviceMsgLimit"
  by (rule Canonical_inject [OF assms])

text \<open>
  The peers handed to \<open>Canonical\<close> are exactly the peers the interface record names:
  it succeeds only when references and peers correspond one to one, and then the message
  does not depend on the order the peers are given in.
\<close>

theorem canonical_peers_bijection:
  assumes "Canonical sz pk d ps = Inr m"
  shows "(\<exists>i. DecodeInterface sz d = Inr i \<and> distinct (PeerRefs i) \<and>
      mset (map refOf ps) = mset (PeerRefs i)) \<and>
     (\<forall>ps'. mset ps' = mset ps \<longrightarrow> Canonical sz pk d ps' = Inr m)"
proof -
  obtain i z where i: "DecodeInterface sz d = Inr i" "isOk (matchRefs (PeerRefs i) ps)"
      "length ps \<le> MaxPeers sz" "ZeroMAC sz d = Inr z"
    and m: "m = bytes_of Domain @ pk @ z @ concat (map chunk (sort_key prPubKey ps))"
    using assms by (auto simp: Canonical_Inr)
  from i(2) have refs: "distinct (PeerRefs i)" "distinct (map refOf ps)" "set (PeerRefs i) = refOf ` set ps"
    by (auto simp: isOk_iff matchRefs_iff)
  then have "mset (map refOf ps) = mset (PeerRefs i)"
    by (metis set_eq_iff_mset_eq_distinct set_map)
  moreover have "Canonical sz pk d ps' = Inr m" if "mset ps' = mset ps" for ps'
  proof -
    have "inj_on prPubKey (set ps)"
      using refs(2) by (auto simp: distinct_map inj_on_def)
    then have "inj_on prPubKey (set ps')" using that by (metis mset_eq_setD)
    then have "sort_key prPubKey ps' = sort_key prPubKey ps"
      by (intro sort_key_inj_key_eq) (use that in simp_all)
    moreover have "length ps' = length ps" using that by (metis size_mset)
    ultimately show ?thesis
      using i m matchRefs_cong_perm [OF that] by (simp add: Canonical_Inr)
  qed
  ultimately show ?thesis using i(1) refs(1) by blast
qed

subsection \<open>An example tree\<close>

definition examplePeerKey :: bytes where "examplePeerKey = replicate 32 3"
definition exampleIfKey :: bytes where "exampleIfKey = replicate 32 5"

definition exampleIf :: Interface where
  "exampleIf = exampleInterface\<lparr>PeerRefs := [MakePeerRef examplePeerKey], MAC := zeroMAC\<rparr>"

definition examplePeers :: "PeerRecord list" where
  "examplePeers = [\<lparr>prPubKey = examplePeerKey, prDescr = examplePeerRecord\<rparr>]"

definition exampleIfRecord :: "bytes \<Rightarrow> bytes" where
  "exampleIfRecord m = pad size_descr64 (ifBytes (exampleIf\<lparr>MAC := m\<rparr>))"

lemma exampleIf_wf: "length m = MACLen \<Longrightarrow> wf_Interface (exampleIf\<lparr>MAC := m\<rparr>)"
  by (simp add: exampleIf_def exampleInterface_def wf_Interface_def PeerRefLen_def)

lemma exampleIf_Encode:
  "length m = MACLen \<Longrightarrow> Interface_Encode size_descr64 (exampleIf\<lparr>MAC := m\<rparr>) = Inr (exampleIfRecord m)"
  using exampleIf_wf [of m]
  by (simp add: Interface_Encode_Inr length_ifBytes exampleIfRecord_def)
    (simp add: exampleIf_def exampleInterface_def PrefixIsValid_def PrefixFrom_def)

lemma exampleIf_HasMAC [simp]: "HasMAC exampleIf"
  by (simp add: exampleIf_def exampleInterface_def)

lemma exampleIf_self: "exampleIf\<lparr>MAC := zeroMAC\<rparr> = exampleIf"
  by (simp add: exampleIf_def)

lemma examplePeers_wf: "\<forall>p \<in> set examplePeers. wf_PeerRecord size_descr64 p"
  by (simp add: examplePeers_def wf_PeerRecord_def examplePeerKey_def examplePeerRecord_def PubKeyLen_def)

text \<open>The message of an encoded record, and that the MAC's value does not enter it.\<close>

lemma Canonical_Encode:
  assumes "wf_Interface i" "Interface_Encode sz i = Inr b" "isOk (matchRefs (PeerRefs i) ps)"
    and "length ps \<le> MaxPeers sz"
  shows "\<exists>z. Interface_Encode sz (i\<lparr>MAC := zeroMAC\<rparr>) = Inr z \<and>
     Canonical sz pk b ps = Inr (bytes_of Domain @ pk @ z @ concat (map chunk (sort_key prPubKey ps)))"
proof -
  have len: "length b = Size sz" using assms(1,2) by (auto simp: Interface_Encode_Inr)
  have dec: "DecodeInterface sz b = Inr (canonInterface i)" by (rule Interface_enc_dec [OF assms(1,2)])
  have z: "ZeroMAC sz b = Interface_Encode sz (i\<lparr>MAC := zeroMAC\<rparr>)" by (rule ZeroMAC_Encode [OF assms(1,2)])
  moreover have "isOk (ZeroMAC sz b)"
    using dec by (auto simp: DecodeInterface_def ZeroMAC_def isOk_iff result_inv)
  ultimately obtain z where "Interface_Encode sz (i\<lparr>MAC := zeroMAC\<rparr>) = Inr z" "ZeroMAC sz b = Inr z"
    by (auto simp: isOk_iff)
  moreover have "PeerRefs (canonInterface i) = PeerRefs i" by (simp add: canonInterface_def)
  ultimately show ?thesis using dec assms(3,4) by (auto simp: Canonical_Inr)
qed

lemma example_Canonical:
  assumes "length m = MACLen"
  shows "\<exists>msg. Canonical size_descr64 key (exampleIfRecord m) examplePeers = Inr msg"
proof -
  have "isOk (matchRefs (PeerRefs (exampleIf\<lparr>MAC := m\<rparr>)) examplePeers)"
    by (simp add: isOk_iff matchRefs_iff exampleIf_def examplePeers_def)
  moreover have "length examplePeers \<le> MaxPeers size_descr64"
    by (simp add: examplePeers_def MaxPeers_def perPeer_def fixedLen_def deviceMsgLimit_def
        PubKeyLen_def Domain_def)
  ultimately show ?thesis
    using Canonical_Encode [OF exampleIf_wf [OF assms] exampleIf_Encode [OF assms]] by metis
qed

lemma example_Canonical_eq:
  assumes "length m = MACLen"
  shows "Canonical size_descr64 key (exampleIfRecord m) examplePeers =
    Canonical size_descr64 key (exampleIfRecord zeroMAC) examplePeers"
proof -
  have refs: "isOk (matchRefs (PeerRefs (exampleIf\<lparr>MAC := k\<rparr>)) examplePeers)" for k
    by (simp add: isOk_iff matchRefs_iff exampleIf_def examplePeers_def)
  have n: "length examplePeers \<le> MaxPeers size_descr64"
    by (simp add: examplePeers_def MaxPeers_def perPeer_def fixedLen_def deviceMsgLimit_def
        PubKeyLen_def Domain_def)
  from Canonical_Encode [OF exampleIf_wf [OF assms] exampleIf_Encode [OF assms] refs n, of key]
    Canonical_Encode [OF exampleIf_wf exampleIf_Encode refs n, of zeroMAC key]
  show ?thesis by auto
qed

lemma example_lengths: "length exampleIfKey = PubKeyLen" "length (exampleIfRecord m) = 64"
  by (simp_all add: exampleIfKey_def PubKeyLen_def exampleIfRecord_def)

theorem canonical_binds_witness:
  "\<exists>msg. Canonical size_descr64 exampleIfKey (exampleIfRecord zeroMAC) examplePeers = Inr msg \<and>
     length msg = fixedLen size_descr64 + perPeer size_descr64 * 1 \<and> length msg \<le> deviceMsgLimit"
proof -
  obtain msg where m: "Canonical size_descr64 exampleIfKey (exampleIfRecord zeroMAC) examplePeers = Inr msg"
    using example_Canonical [of zeroMAC] by auto
  from canonical_binds [OF m m] m examplePeers_wf example_lengths show ?thesis
    by (simp add: examplePeers_def)
qed

theorem canonical_peers_bijection_witness:
  "\<exists>i. DecodeInterface size_descr64 (exampleIfRecord zeroMAC) = Inr i \<and>
     mset (map refOf examplePeers) = mset (PeerRefs i)"
proof -
  obtain msg where "Canonical size_descr64 exampleIfKey (exampleIfRecord zeroMAC) examplePeers = Inr msg"
    using example_Canonical [of zeroMAC] by auto
  from canonical_peers_bijection [OF this] show ?thesis by blast
qed

subsection \<open>Signing, then checking\<close>

text \<open>
  What the device promises of its two MAC calls: under one key the tag is a function of the
  message, 32 bytes long, and checking accepts exactly that tag.  Neither changes the
  repository.
\<close>

definition honest_hmac :: "'d Client \<Rightarrow> string \<Rightarrow> string \<Rightarrow> (bytes \<Rightarrow> bytes) \<Rightarrow> bool" where
  "honest_hmac c token kid h \<longleftrightarrow>
     (\<forall>msg d. HmacHash c token kid msg (macOpts kid) d = (Inr (h msg), d) \<and> length (h msg) = MACLen) \<and>
     (\<forall>msg tag d. fst (HmacVerify c token kid msg tag (macOpts kid) d) = Inr () \<longleftrightarrow> tag = h msg)"

lemma Verify_Inr:
  assumes "honest_hmac c token kid h"
  shows "fst (Verify sz c token kid pk b ps d) = Inr () \<longleftrightarrow>
     (\<exists>i msg. DecodeInterface sz b = Inr i \<and> HasMAC i \<and> Canonical sz pk b ps = Inr msg \<and> MAC i = h msg)"
proof (cases "DecodeInterface sz b")
  case (Inr i)
  show ?thesis
  proof (cases "Canonical sz pk b ps")
    case (Inr msg)
    let ?v = "HmacVerify c token kid msg (MAC i) (macOpts kid) d"
    have "fst ?v = Inr () \<longleftrightarrow> MAC i = h msg" using assms by (simp add: honest_hmac_def)
    then show ?thesis
      using \<open>DecodeInterface sz b = Inr i\<close> Inr
      by (cases ?v; cases "fst ?v") (auto simp: Verify_def bindS_apply mapErrS_def)
  qed (simp add: Verify_def bindS_apply Inr)
qed (simp add: Verify_def bindS_apply)

lemma Sign_Verify:
  assumes "honest_hmac c token kid h" and "wf_Interface i" and "HasMAC i"
    and "Interface_Encode sz (i\<lparr>MAC := zeroMAC\<rparr>) = Inr raw"
    and "Sign sz c token kid pk raw ps d = (Inr tag, d')"
  shows "\<exists>recd. Interface_Encode sz (i\<lparr>MAC := tag\<rparr>) = Inr recd \<and>
     fst (Verify sz c token kid pk recd ps d') = Inr ()"
proof -
  let ?u = "i\<lparr>MAC := zeroMAC\<rparr>" and ?s = "i\<lparr>MAC := tag\<rparr>"
  obtain msg where msg: "Canonical sz pk raw ps = Inr msg" and tag: "tag = h msg" "length tag = MACLen"
    using assms(1,5) by (auto simp: Sign_def honest_hmac_def bindS_eq_Inr mapErrS_eq_Inr split: if_splits)
  have wf: "wf_Interface ?u" "wf_Interface ?s" using assms(2) tag(2) by (simp_all add: wf_Interface_def)
  have len: "length (ifBytes ?s) = length (ifBytes ?u)"
    using wf by (simp add: length_ifBytes)
  then have enc: "Interface_Encode sz ?s = Inr (pad sz (ifBytes ?s))"
    using assms(4) wf by (auto simp: Interface_Encode_Inr)
  have full: "length raw = Size sz" using assms(4) wf(1) by (auto simp: Interface_Encode_Inr)
  from msg have refs: "isOk (matchRefs (PeerRefs i) ps)" "length ps \<le> MaxPeers sz"
    using Interface_enc_dec [OF wf(1) assms(4)] by (auto simp: Canonical_Inr canonInterface_def)
  have "Canonical sz pk (pad sz (ifBytes ?s)) ps = Inr msg"
    using Canonical_Encode [OF wf(1) assms(4), of ps pk] Canonical_Encode [OF wf(2) enc, of ps pk] refs msg
    by auto
  moreover have "DecodeInterface sz (pad sz (ifBytes ?s)) = Inr (canonInterface ?s)"
    by (rule Interface_enc_dec [OF wf(2) enc])
  moreover have "HasMAC (canonInterface ?s)" "MAC (canonInterface ?s) = tag"
    using assms(3) by (simp_all add: canonInterface_def)
  ultimately have "fst (Verify sz c token kid pk (pad sz (ifBytes ?s)) ps d') = Inr ()"
    unfolding Verify_Inr [OF assms(1)] using tag(1) by blast
  with enc show ?thesis by blast
qed

text \<open>
  C26: what \<open>Sign\<close> produces, \<open>Verify\<close> accepts.  Signing the record with a zeroed MAC tag and
  writing the result into that tag gives a record of the same length that the device
  verifies, with any device whose check accepts exactly the tag it computes.
\<close>

theorem sign_then_verify:
  assumes "honest_hmac c token kid h" and "wf_Interface i" and "HasMAC i"
    and "Interface_Encode sz (i\<lparr>MAC := zeroMAC\<rparr>) = Inr raw"
    and "Sign sz c token kid pk raw ps d = (Inr tag, d')"
  shows "\<exists>recd. Interface_Encode sz (i\<lparr>MAC := tag\<rparr>) = Inr recd \<and>
     fst (Verify sz c token kid pk recd ps d') = Inr ()"
  by (rule Sign_Verify [OF assms])

definition toyTag :: "bytes \<Rightarrow> bytes" where
  "toyTag msg = replicate MACLen (sum_list msg)"

definition toyClient :: "unit Client" where
  "toyClient = deafClient
     \<lparr>HmacHash := (\<lambda>_ _ msg _. returnS (toyTag msg)),
      HmacVerify := (\<lambda>_ _ msg tag _. if tag = toyTag msg then returnS () else failS (HemError 406 ''mismatch''))\<rparr>"

lemma toyClient_honest: "honest_hmac toyClient token kid toyTag"
  by (simp add: honest_hmac_def toyClient_def toyTag_def)

theorem sign_then_verify_witness:
  "\<exists>tag recd. Sign size_descr64 toyClient ''t'' ''k'' exampleIfKey (exampleIfRecord zeroMAC) examplePeers ()
      = (Inr tag, ()) \<and> Interface_Encode size_descr64 (exampleIf\<lparr>MAC := tag\<rparr>) = Inr recd \<and>
     fst (Verify size_descr64 toyClient ''t'' ''k'' exampleIfKey recd examplePeers ()) = Inr ()"
proof -
  obtain msg where m: "Canonical size_descr64 exampleIfKey (exampleIfRecord zeroMAC) examplePeers = Inr msg"
    using example_Canonical [of zeroMAC] by auto
  then have s: "Sign size_descr64 toyClient ''t'' ''k'' exampleIfKey (exampleIfRecord zeroMAC) examplePeers ()
      = (Inr (toyTag msg), ())"
    by (simp add: Sign_def toyClient_def bindS_apply mapErrS_def toyTag_def)
  from exampleIf_Encode [of zeroMAC]
  have "Interface_Encode size_descr64 (exampleIf\<lparr>MAC := zeroMAC\<rparr>) = Inr (exampleIfRecord zeroMAC)" by simp
  from sign_then_verify [OF toyClient_honest _ _ this s] exampleIf_wf [of zeroMAC] s show ?thesis
    by (auto simp: exampleIf_self)
qed

lemma example_Verify:
  assumes "Canonical size_descr64 key (exampleIfRecord zeroMAC) examplePeers = Inr msg"
  shows "fst (Verify size_descr64 toyClient t k key (exampleIfRecord (toyTag msg)) examplePeers ())
    = Inr ()"
  using Sign_Verify [OF toyClient_honest, of exampleIf size_descr64 "exampleIfRecord zeroMAC" t k
      key examplePeers "()" "toyTag msg" "()"] assms exampleIf_wf [of zeroMAC]
    exampleIf_Encode [of zeroMAC] exampleIf_Encode [of "toyTag msg"]
  by (auto simp: exampleIf_self Sign_def toyClient_def bindS_apply mapErrS_def toyTag_def)

text \<open>
  C5: under one tag there is one configuration.  If two configurations both verify and carry
  the same MAC value, then either they are the same - interface key, peer keys, peer records
  and every field of the interface record - or their two messages are different and the
  device's MAC gives both the same tag.  So what was edited under the tag it had is accepted
  only by a collision.  Configurations with different tags are not compared: an older one
  that is put back with its own tag verifies as it did (\<open>replay_verifies\<close>).
\<close>

theorem tampering_is_collision:
  assumes h: "honest_hmac c token kid h"
    and v: "fst (Verify sz c token kid pk b ps d) = Inr ()" "fst (Verify sz c token kid pk' b' ps' d') = Inr ()"
    and dec: "DecodeInterface sz b = Inr i" "DecodeInterface sz b' = Inr i'" and "MAC i = MAC i'"
    and len: "length pk = PubKeyLen" "length pk' = PubKeyLen" "length b = Size sz" "length b' = Size sz"
    and wf: "\<forall>p \<in> set ps. wf_PeerRecord sz p" "\<forall>p \<in> set ps'. wf_PeerRecord sz p"
  shows "(pk = pk' \<and> i = i' \<and> b = b' \<and> mset ps = mset ps') \<or>
    (\<exists>m m'. Canonical sz pk b ps = Inr m \<and> Canonical sz pk' b' ps' = Inr m' \<and> m \<noteq> m' \<and> h m = h m')"
proof -
  obtain m where m: "Canonical sz pk b ps = Inr m" "MAC i = h m"
    using v(1) dec(1) unfolding Verify_Inr [OF h] by auto
  obtain m' where m': "Canonical sz pk' b' ps' = Inr m'" "MAC i' = h m'"
    using v(2) dec(2) unfolding Verify_Inr [OF h] by auto
  show ?thesis
  proof (cases "m = m'")
    case True
    with m'(1) have "Canonical sz pk' b' ps' = Inr m" by simp
    from Canonical_inject [OF m(1) this len wf] dec
    have eq: "pk = pk'" "mset ps = mset ps'" "i\<lparr>MAC := zeroMAC\<rparr> = i'\<lparr>MAC := zeroMAC\<rparr>" by auto
    from eq(3) assms(6) have "i = i'" by (cases i; cases i') simp
    moreover from this have "b = b'"
      using DecodeInterface_full(1) [OF dec(1) len(3)] DecodeInterface_full(1) [OF dec(2) len(4)] by simp
    ultimately show ?thesis using eq by blast
  next
    case False
    with m m' assms(6) show ?thesis by metis
  qed
qed


lemma replay_verifies:
  assumes "honest_hmac c token kid h" and "fst (Verify sz c token kid pk b ps d) = Inr ()"
  shows "fst (Verify sz c token kid pk b ps d') = Inr ()"
  using assms(2) unfolding Verify_Inr [OF assms(1)] .

text \<open>Another key with the same sum.\<close>

definition swappedKey :: bytes where "swappedKey = [4, 6] @ replicate 30 5"

lemma swapped_tag:
  assumes "Canonical size_descr64 exampleIfKey (exampleIfRecord zeroMAC) examplePeers = Inr m"
    and "Canonical size_descr64 swappedKey (exampleIfRecord zeroMAC) examplePeers = Inr m'"
  shows "toyTag m = toyTag m'"
proof -
  obtain z c where "m = bytes_of Domain @ exampleIfKey @ z @ c" "m' = bytes_of Domain @ swappedKey @ z @ c"
    using assms by (auto simp: Canonical_def result_inv)
  then show ?thesis by (simp add: toyTag_def exampleIfKey_def swappedKey_def sum_list_replicate)
qed

theorem tampering_is_collision_witness:
  "\<exists>b m m'. fst (Verify size_descr64 toyClient ''t'' ''k'' exampleIfKey b examplePeers ()) = Inr () \<and>
     fst (Verify size_descr64 toyClient ''t'' ''k'' swappedKey b examplePeers ()) = Inr () \<and>
     Canonical size_descr64 exampleIfKey b examplePeers = Inr m \<and>
     Canonical size_descr64 swappedKey b examplePeers = Inr m' \<and> m \<noteq> m' \<and> toyTag m = toyTag m'"
proof -
  obtain m m' where m: "Canonical size_descr64 exampleIfKey (exampleIfRecord zeroMAC) examplePeers = Inr m"
    and m': "Canonical size_descr64 swappedKey (exampleIfRecord zeroMAC) examplePeers = Inr m'"
    using example_Canonical [of zeroMAC exampleIfKey] example_Canonical [of zeroMAC swappedKey] by auto
  let ?b = "exampleIfRecord (toyTag m)"
  have l: "length (toyTag m) = MACLen" by (simp add: toyTag_def)
  have dec: "DecodeInterface size_descr64 ?b = Inr (canonInterface (exampleIf\<lparr>MAC := toyTag m\<rparr>))"
    by (rule Interface_enc_dec [OF exampleIf_wf [OF l] exampleIf_Encode [OF l]])
  have v: "fst (Verify size_descr64 toyClient ''t'' ''k'' exampleIfKey ?b examplePeers ()) = Inr ()"
    "fst (Verify size_descr64 toyClient ''t'' ''k'' swappedKey ?b examplePeers ()) = Inr ()"
    using example_Verify [OF m] example_Verify [OF m'] swapped_tag [OF m m'] by simp_all
  have len: "length swappedKey = PubKeyLen" by (simp add: swappedKey_def PubKeyLen_def)
  have "exampleIfKey \<noteq> swappedKey" by (simp add: exampleIfKey_def swappedKey_def numeral_eq_Suc)
  with tampering_is_collision [OF toyClient_honest v dec dec refl example_lengths(1) len]
  have "\<exists>m m'. Canonical size_descr64 exampleIfKey ?b examplePeers = Inr m \<and>
      Canonical size_descr64 swappedKey ?b examplePeers = Inr m' \<and> m \<noteq> m' \<and> toyTag m = toyTag m'"
    using examplePeers_wf example_lengths(2) by simp
  with v show ?thesis by blast
qed

text \<open>
  C27: \<open>Verify\<close> calls every failure of the device's check inauthentic.  Whatever error
  \<open>HmacVerify\<close> returns - a timeout or an expired token as much as a wrong tag - the result
  matches \<open>ErrNotAuthentic\<close>, so the command reports it with the integrity exit code 4.
  The comment on \<open>ErrNotAuthentic\<close> asks for these to be told apart; the daemon's
  \<open>classifyLoadKind\<close> still can, because the device's error is wrapped beside the sentinel.
\<close>

theorem verify_failures_all_inauthentic:
  assumes "DecodeInterface sz b = Inr i" and "HasMAC i" and "Canonical sz pk b ps = Inr msg"
    and "HmacVerify c token kid msg (MAC i) (macOpts kid) d = (Inl (HemError status code), d')"
  shows "\<exists>e. Verify sz c token kid pk b ps d = (Inl e, d') \<and> IsNotAuthentic e \<and>
     exitCode (Inl (classifyLoad e)) = 4 \<and>
     KindOf (classifyLoadKind e) =
       (if code \<in> {''network'', ''timeout'', ''aborted''} then KindNetwork
        else if status \<in> {401, 403} then KindAuth else KindIntegrity)"
proof -
  let ?e = "Wrap ''mac: %w: %w'' [ErrNotAuthentic, HemError status code]"
  have "Verify sz c token kid pk b ps d = (Inl ?e, d')"
    using assms by (simp add: Verify_def bindS_apply mapErrS_def)
  moreover have "IsNotAuthentic ?e" by (simp add: IsNotAuthentic_def)
  moreover have "AsHemError ?e = Some (HemError status code)" "AsSessionError ?e = None"
    by (simp_all add: AsHemError_def AsSessionError_def)
  ultimately show ?thesis
    by (auto simp: classifyLoad_def classifyLoadKind_def KindOf_def Classify_def classifyKind_def exit_defs)
qed

theorem verify_failures_all_inauthentic_witness:
  "\<exists>e. Verify size_descr64
       (toyClient\<lparr>HmacVerify := (\<lambda>_ _ _ _ _. failS (HemError 0 ''timeout''))\<rparr>) ''t'' ''k''
       exampleIfKey (exampleIfRecord zeroMAC) examplePeers () = (Inl e, ()) \<and>
     exitCode (Inl (classifyLoad e)) = 4 \<and> KindOf (classifyLoadKind e) = KindNetwork"
proof -
  obtain msg where m: "Canonical size_descr64 exampleIfKey (exampleIfRecord zeroMAC) examplePeers = Inr msg"
    using example_Canonical [of zeroMAC] by auto
  have dec: "DecodeInterface size_descr64 (exampleIfRecord zeroMAC) = Inr (canonInterface exampleIf)"
    using Interface_enc_dec [OF exampleIf_wf [of zeroMAC] exampleIf_Encode [of zeroMAC]]
    by (simp add: exampleIf_self)
  have "HasMAC (canonInterface exampleIf)"
    by (simp add: canonInterface_def exampleIf_def exampleInterface_def)
  from verify_failures_all_inauthentic [OF dec this m,
      of "toyClient\<lparr>HmacVerify := (\<lambda>_ _ _ _ _. failS (HemError 0 ''timeout''))\<rparr>" "''t''" "''k''" "()"
      0 "''timeout''" "()"]
  show ?thesis by auto
qed

end
