(* ===== verification/Config.thy ===== *)
theory Config
  imports Mac "HOL-Library.Product_Lexorder"
begin

text \<open>
  \<open>internal/config\<close>: finding a configuration in the device, resolving every name in it and
  authenticating it before anything acts on it.  The paging loop of \<open>search\<close> ends when the
  device says so, so it takes fuel; \<open>search_complete\<close> says how much is enough.  The closure
  variable of \<open>fromDevice\<close>, the token it fetches on first use, is part of the keyring and
  is returned updated.
\<close>

subsection \<open>Constants and state\<close>

definition PSKContextPrefix :: string where "PSKContextPrefix = ''ENC-WG-PSK-v2|''"

definition PSKContext :: "string \<Rightarrow> bytes" where
  "PSKContext peerKID = bytes_of (PSKContextPrefix @ peerKID)"

definition WrapAlg :: string where "WrapAlg = ''AES256''"
definition PSKLen :: nat where "PSKLen = 32"
definition searchPage :: nat where "searchPage = 50"

record ConfigPeer =
  cpKID :: string
  cpLabel :: string
  cpPubKey :: bytes
  cpRaw :: bytes
  cpPeer :: Peer

record Tree =
  IfKID :: string
  IfLabel :: string
  IfPubKey :: bytes
  IfRaw :: bytes
  Iface :: Interface
  Peers :: "ConfigPeer list"

record Identity =
  idKID :: string
  idLabel :: string
  idAddrs :: "Prefix list"
  idCreated :: int

subsection \<open>Searching the repository\<close>

fun searchLoop :: "nat \<Rightarrow> 'd Client \<Rightarrow> 'd TokenFunc \<Rightarrow> string \<Rightarrow> string \<Rightarrow> KeyEntry list \<Rightarrow> nat \<Rightarrow>
    ('d, error, KeyEntry list) io" where
  "searchLoop 0 c tok magic token all offset = failS OutOfFuel"
| "searchLoop (Suc n) c tok magic token all offset =
     (\<lambda>d. case SearchKeys c token (bytes_of magic) offset searchPage d of
        (Inl e, d') \<Rightarrow>
          if token = [] \<and> isAuthError e
          then bindS (tok ''keymgmt:search'') (\<lambda>token. searchLoop n c tok magic token all offset) d'
          else (Inl (Wrap ''searching for %s records: %w'' [e]), d')
      | (Inr (found, page), d') \<Rightarrow>
          (let all = all @ page; offset = offset + length page in
           if page = [] \<or> int offset \<ge> found then (Inr all, d')
           else searchLoop n c tok magic token all offset d'))"

definition search :: "nat \<Rightarrow> 'd Client \<Rightarrow> 'd TokenFunc \<Rightarrow> string \<Rightarrow> ('d, error, KeyEntry list) io" where
  "search fuel c tok magic = searchLoop fuel c tok magic [] [] 0"

subsection \<open>Identities and choosing one\<close>

definition describeOne :: "size_tags \<Rightarrow> KeyEntry \<Rightarrow> Identity" where
  "describeOne sz e =
     \<lparr>idKID = keKID e, idLabel = keLabel e,
      idAddrs = (case Normalize sz (keDescr e) of
          Inl _ \<Rightarrow> []
        | Inr raw \<Rightarrow> (case DecodeInterface sz raw of Inl _ \<Rightarrow> [] | Inr iface \<Rightarrow> Addrs iface)),
      idCreated = keCreated e\<rparr>"

text \<open>
  \<open>sort.Slice\<close> is not stable; the order it sorts by is total on distinct identifiers, which
  the device guarantees.
\<close>

definition describe :: "size_tags \<Rightarrow> KeyEntry list \<Rightarrow> Identity list" where
  "describe sz entries = sort_key (\<lambda>i. (idCreated i, idKID i)) (map (describeOne sz) entries)"

definition kidsOf :: "KeyEntry list \<Rightarrow> string list" where
  "kidsOf entries = map keKID entries"

type_synonym 'd ChooseFunc = "(Identity list \<Rightarrow> ('d, error, string) io) option"

definition pick :: "size_tags \<Rightarrow> KeyEntry list \<Rightarrow> 'd ChooseFunc \<Rightarrow> ('d, error, KeyEntry) io" where
  "pick sz entries chooser =
     (case entries of
        [] \<Rightarrow> failS (Msg ''no %s record in the device - run `wg-hem provision` first'')
      | [e] \<Rightarrow> returnS e
      | _ \<Rightarrow>
        (case chooser of
           None \<Rightarrow> failS (Msg ''the device holds %d interface records (%s) and there is nothing here to choose between them'')
         | Some ask \<Rightarrow>
             bindS (ask (describe sz entries)) (\<lambda>kid.
               case find (\<lambda>e. keKID e = kid) entries of
                 Some e \<Rightarrow> returnS e
               | None \<Rightarrow> failS (Msg ''identity %s was chosen, and the device holds no such interface record''))))"

definition Identities :: "nat \<Rightarrow> size_tags \<Rightarrow> 'd Client \<Rightarrow> 'd TokenFunc \<Rightarrow> ('d, error, Identity list) io" where
  "Identities fuel sz c tok = bindS (search fuel c tok MagicInterface) (\<lambda>entries. returnS (describe sz entries))"

subsection \<open>Where public keys come from\<close>

datatype keyring = fromDevice string | fromSupplied "string \<Rightarrow> bytes option"

fun ring :: "'d Client \<Rightarrow> 'd TokenFunc \<Rightarrow> keyring \<Rightarrow> string \<Rightarrow> ('d, error, bytes \<times> keyring) io" where
  "ring c tok (fromDevice getTok) kid =
     bindS (if getTok = [] then tok ''keymgmt:get'' else returnS getTok) (\<lambda>getTok.
     bindS (GetPubKey c getTok kid) (\<lambda>key. returnS (keyPubKey key, fromDevice getTok)))"
| "ring c tok (fromSupplied keys) kid =
     (case keys kid of
        None \<Rightarrow> failS (Msg ''no public key was supplied for %s'')
      | Some key \<Rightarrow> returnS (key, fromSupplied keys))"

definition resolve :: "'d Client \<Rightarrow> 'd TokenFunc \<Rightarrow> keyring \<Rightarrow> string \<Rightarrow> ('d, error, bytes \<times> keyring) io" where
  "resolve c tok r kid =
     bindS (ring c tok r kid) (\<lambda>(raw, r).
       if length raw \<noteq> PubKeyLen then failS (Msg ''the public key of %s is %d bytes, expected %d'')
       else if KID raw \<noteq> kid
       then failS (Msg ''the public key offered for %s has identifier %s; identifiers are SHA-1(pubkey)[:16] and this one is not that key'')
       else returnS (raw, r))"

subsection \<open>The sizes the device returned\<close>

record sizes =
  first :: nat
  mixed :: bool

definition newSizes :: "nat \<Rightarrow> sizes" where "newSizes n = \<lparr>first = n, mixed = False\<rparr>"

definition sizes_add :: "nat \<Rightarrow> sizes \<Rightarrow> sizes" where
  "sizes_add n s = (if n \<noteq> first s then s\<lparr>mixed := True\<rparr> else s)"

definition explain :: "size_tags \<Rightarrow> sizes \<Rightarrow> string" where
  "explain sz s =
     (if mixed s then []
      else let why = ExplainSize sz (int (first s)) in if why \<noteq> [] then CHR 0x0A # why else [])"

subsection \<open>Loading\<close>

text \<open>The peer records by reference; an identifier that is not one is skipped.\<close>

fun indexPeers :: "KeyEntry list \<Rightarrow> (PeerRef \<Rightarrow> KeyEntry option) \<Rightarrow> error + (PeerRef \<Rightarrow> KeyEntry option)" where
  "indexPeers [] byRef = Inr byRef"
| "indexPeers (e # es) byRef =
     (case PeerRefFromKID (keKID e) of
        Inl _ \<Rightarrow> indexPeers es byRef
      | Inr ref \<Rightarrow>
          if byRef ref \<noteq> None
          then Inl (Msg ''peer records %s and %s share the reference %x; the interface record cannot say which it means'')
          else indexPeers es (byRef(ref := Some e)))"

fun loadPeers :: "size_tags \<Rightarrow> 'd Client \<Rightarrow> 'd TokenFunc \<Rightarrow> (PeerRef \<Rightarrow> KeyEntry option) \<Rightarrow> PeerRef list \<Rightarrow>
    keyring \<Rightarrow> sizes \<Rightarrow> ('d, error, ConfigPeer list \<times> sizes) io" where
  "loadPeers sz c tok byRef [] r seen = returnS ([], seen)"
| "loadPeers sz c tok byRef (ref # refs) r seen =
     (case byRef ref of
        None \<Rightarrow> failS (Msg ''the interface record references peer %x, which is not in the device'')
      | Some e \<Rightarrow>
          bindS (mapErrS (\<lambda>x. Wrap ''peer %s: %w'' [x]) (resolve c tok r (keKID e))) (\<lambda>(pub, r).
          (let seen = sizes_add (length (keDescr e)) seen in
          bindS (liftE (mapErr (\<lambda>x. Wrap ''peer record %s: %w%s'' [DescrError x]) (Normalize sz (keDescr e)))) (\<lambda>raw.
          bindS (liftE (mapErr (\<lambda>x. Wrap ''peer record %s: %w'' [DescrError x]) (DecodePeer sz raw))) (\<lambda>p.
          bindS (loadPeers sz c tok byRef refs r seen) (\<lambda>(ps, seen).
            returnS (\<lparr>cpKID = keKID e, cpLabel = keLabel e, cpPubKey = pub, cpRaw = raw, cpPeer = p\<rparr> # ps, seen)))))))"

definition recordOf :: "ConfigPeer \<Rightarrow> PeerRecord" where
  "recordOf p = \<lparr>prPubKey = cpPubKey p, prDescr = cpRaw p\<rparr>"

definition loadFrom :: "nat \<Rightarrow> size_tags \<Rightarrow> 'd Client \<Rightarrow> 'd TokenFunc \<Rightarrow> KeyEntry \<Rightarrow> keyring \<Rightarrow> ('d, error, Tree) io" where
  "loadFrom fuel sz c tok entry r =
     (let seen = newSizes (length (keDescr entry)) in
      bindS (liftE (mapErr (\<lambda>x. Wrap ''interface record: %w%s'' [DescrError x]) (Normalize sz (keDescr entry)))) (\<lambda>ifRaw.
      bindS (liftE (mapErr (\<lambda>x. Wrap ''interface record: %w'' [DescrError x]) (DecodeInterface sz ifRaw))) (\<lambda>iface.
      if PeerRefs iface = [] then failS (Msg ''the interface record names no peers'')
      else
      bindS (mapErrS (\<lambda>x. Wrap ''the interface public key: %w'' [x]) (resolve c tok r (keKID entry))) (\<lambda>(ifPubKey, r).
      bindS (search fuel c tok MagicPeer) (\<lambda>peerEntries.
      bindS (liftE (indexPeers peerEntries (\<lambda>_. None))) (\<lambda>byRef.
      bindS (loadPeers sz c tok byRef (PeerRefs iface) r seen) (\<lambda>(peers, seen).
      bindS (tok (''keymgmt:use:'' @ keKID entry)) (\<lambda>useTok.
      bindS (mapErrS (\<lambda>x. if explain sz seen \<noteq> [] then Wrap ''%w%s'' [x] else x)
               (Verify sz c useTok (keKID entry) ifPubKey ifRaw (map recordOf peers))) (\<lambda>_.
        returnS \<lparr>IfKID = keKID entry, IfLabel = keLabel entry, IfPubKey = ifPubKey, IfRaw = ifRaw,
                 Iface = iface, Peers = peers\<rparr>)))))))))"

definition Load :: "nat \<Rightarrow> size_tags \<Rightarrow> 'd Client \<Rightarrow> 'd TokenFunc \<Rightarrow> 'd ChooseFunc \<Rightarrow> ('d, error, Tree) io" where
  "Load fuel sz c tok chooser =
     bindS (search fuel c tok MagicInterface) (\<lambda>ifEntries.
     bindS (pick sz ifEntries chooser) (\<lambda>entry.
       loadFrom fuel sz c tok entry (fromDevice [])))"

definition loadNamed :: "nat \<Rightarrow> size_tags \<Rightarrow> 'd Client \<Rightarrow> 'd TokenFunc \<Rightarrow> string \<Rightarrow> keyring \<Rightarrow> ('d, error, Tree) io" where
  "loadNamed fuel sz c tok ifKID r =
     bindS (search fuel c tok MagicInterface) (\<lambda>entries.
       case find (\<lambda>e. keKID e = ifKID) entries of
         Some e \<Rightarrow> loadFrom fuel sz c tok e r
       | None \<Rightarrow> failS (Msg ''the device holds no %s record for identity %s''))"

definition LoadIdentity :: "nat \<Rightarrow> size_tags \<Rightarrow> 'd Client \<Rightarrow> 'd TokenFunc \<Rightarrow> string \<Rightarrow> ('d, error, Tree) io" where
  "LoadIdentity fuel sz c tok ifKID = loadNamed fuel sz c tok ifKID (fromDevice [])"

definition LoadIdentityWithKeys :: "nat \<Rightarrow> size_tags \<Rightarrow> 'd Client \<Rightarrow> 'd TokenFunc \<Rightarrow> string \<Rightarrow>
    (string \<Rightarrow> bytes option) \<Rightarrow> ('d, error, Tree) io" where
  "LoadIdentityWithKeys fuel sz c tok ifKID keys = loadNamed fuel sz c tok ifKID (fromSupplied keys)"

definition pskOpts :: "string \<Rightarrow> string \<Rightarrow> CryptoOpts" where
  "pskOpts ifKID peerKID = noOpts\<lparr>optAlg := WrapAlg, optExtKID := ifKID, optCtx := PSKContext peerKID\<rparr>"

text \<open>The result is absent when the peer has no pre-shared key.\<close>

definition UnwrapPSK :: "'d Client \<Rightarrow> Tree \<Rightarrow> string \<Rightarrow> ConfigPeer \<Rightarrow> ('d, error, bytes option) io" where
  "UnwrapPSK c t useTok p =
     (if PSKWrapped (cpPeer p) = [] then returnS None
      else bindS (mapErrS (\<lambda>x. Wrap ''unwrapping the pre-shared key of %s: %w'' [x])
                   (CipherUnwrap c useTok (IfKID t) (PSKWrapped (cpPeer p)) (pskOpts (IfKID t) (cpKID p)))) (\<lambda>psk.
        if length psk \<noteq> PSKLen then failS (Msg ''unwrapped pre-shared key is %d bytes, expected %d'')
        else returnS (Some psk)))"

definition Tree_MTU :: "Tree \<Rightarrow> 16 word" where
  "Tree_MTU t = (if MTU (Iface t) = 0 then DefaultMTU else MTU (Iface t))"

subsection \<open>The search finds everything\<close>

text \<open>A device that answers a token's searches with the pages of one list, and tells its length.\<close>

definition pages :: "'d Client \<Rightarrow> string \<Rightarrow> bytes \<Rightarrow> KeyEntry list \<Rightarrow> 'd \<Rightarrow> bool" where
  "pages c token pat L d \<longleftrightarrow>
     (\<forall>off. SearchKeys c token pat off searchPage d = (Inr (int (length L), take searchPage (drop off L)), d))"

lemma searchLoop_pages:
  "pages c token (bytes_of magic) L d \<Longrightarrow> off \<le> length L \<Longrightarrow> (length L - off) div 50 < fuel \<Longrightarrow>
   searchLoop fuel c tok magic token (take off L) off d = (Inr L, d)"
proof (induction fuel arbitrary: off)
  case (Suc fuel)
  let ?page = "take searchPage (drop off L)"
  have page: "SearchKeys c token (bytes_of magic) off searchPage d = (Inr (int (length L), ?page), d)"
    using Suc.prems(1) by (simp add: pages_def)
  have all: "take off L @ ?page = take (off + 50) L"
    by (simp add: searchPage_def take_add)
  show ?case
  proof (cases "length L - off \<le> 50")
    case True
    then have "off + length ?page = length L" using Suc.prems(2) by (simp add: searchPage_def)
    moreover have "take (off + 50) L = L" using True by simp
    ultimately show ?thesis using all by (simp add: page Let_def)
  next
    case False
    then have len: "length ?page = 50" by (simp add: searchPage_def)
    moreover have "?page \<noteq> []" using len by (metis length_0_conv zero_neq_numeral)
    moreover have "searchLoop fuel c tok magic token (take (off + 50) L) (off + 50) d = (Inr L, d)"
    proof (rule Suc.IH [OF Suc.prems(1)])
      have "(length L - off) div 50 = Suc ((length L - (off + 50)) div 50)"
        using False by (simp add: le_div_geq)
      then show "(length L - (off + 50)) div 50 < fuel" using Suc.prems(3) by simp
    qed (use False in simp)
    ultimately show ?thesis using all False by (simp add: page Let_def)
  qed
qed simp

text \<open>
  C28: \<open>search\<close> returns every record of the type, in the device's order, and it returns: one
  round more than there are full pages is enough, and one round more where the device wants
  a token for searching.  The anonymous attempt comes first; a refusal is answered by
  asking once for a search token.
\<close>

theorem search_complete:
  assumes "length L div 50 + 1 < fuel"
    and "(pages c [] (bytes_of magic) L d \<and> d' = d) \<or>
      (\<forall>n. \<exists>e. SearchKeys c [] (bytes_of magic) 0 n d = (Inl e, d) \<and> isAuthError e) \<and>
      (\<exists>t. tok ''keymgmt:search'' d = (Inr t, d') \<and> pages c t (bytes_of magic) L d')"
  shows "search fuel c tok magic d = (Inr L, d')"
  using assms(2)
proof
  assume "pages c [] (bytes_of magic) L d \<and> d' = d"
  then show ?thesis
    using searchLoop_pages [of c "[]" magic L d 0 fuel tok] assms(1) by (simp add: search_def)
next
  assume "(\<forall>n. \<exists>e. SearchKeys c [] (bytes_of magic) 0 n d = (Inl e, d) \<and> isAuthError e) \<and>
      (\<exists>t. tok ''keymgmt:search'' d = (Inr t, d') \<and> pages c t (bytes_of magic) L d')"
  then obtain e t where e: "SearchKeys c [] (bytes_of magic) 0 searchPage d = (Inl e, d)" "isAuthError e"
    and t: "tok ''keymgmt:search'' d = (Inr t, d')" "pages c t (bytes_of magic) L d'"
    by blast
  obtain fuel' where f: "fuel = Suc fuel'" using assms(1) by (cases fuel) simp_all
  then have "searchLoop fuel' c tok magic t [] 0 d' = (Inr L, d')"
    using searchLoop_pages [OF t(2), of 0 fuel' tok] assms(1) by simp
  then show ?thesis by (simp add: search_def f e t bindS_apply)
qed

definition pagedClient :: "KeyEntry list \<Rightarrow> unit Client" where
  "pagedClient L = deafClient\<lparr>SearchKeys := (\<lambda>token pat off n.
     if token = [] then failS (HemError 401 ''token'') else returnS (int (length L), take n (drop off L)))\<rparr>"

theorem search_complete_witness:
  "search 4 (pagedClient (replicate 60 \<lparr>keKID = ''k'', keLabel = [], keDescr = [], keCreated = 0\<rparr>))
     (\<lambda>_. returnS ''t'') MagicPeer () =
   (Inr (replicate 60 \<lparr>keKID = ''k'', keLabel = [], keDescr = [], keCreated = 0\<rparr>), ())"
  by (rule search_complete) (simp_all add: pagedClient_def pages_def isAuthError_def)

subsection \<open>Choosing and listing\<close>

text \<open>
  The choosing rule.  With no identity there is an error, with one it is used and nobody is
  asked, with several the question is put with the list oldest first, and an answer is
  accepted only when it names one of the records the device returned.  The list holds every
  record exactly once, in the order of creation and then of identifier.
\<close>

theorem pick_rule:
  assumes "pick sz entries chooser d = (Inr e, d')"
  shows "e \<in> set entries \<and>
     (length entries = 1 \<longrightarrow> d' = d) \<and>
     (1 < length entries \<longrightarrow> (\<exists>ask kid. chooser = Some ask \<and>
        ask (describe sz entries) d = (Inr kid, d') \<and> keKID e = kid)) \<and>
     mset (map idKID (describe sz entries)) = mset (map keKID entries) \<and>
     sorted (map (\<lambda>i. (idCreated i, idKID i)) (describe sz entries))"
proof -
  have "mset (map idKID (describe sz entries)) = mset (map keKID entries)"
    by (simp add: describe_def describeOne_def o_def image_mset.compositionality)
  moreover have "sorted (map (\<lambda>i. (idCreated i, idKID i)) (describe sz entries))"
    by (simp add: describe_def)
  moreover have "e \<in> set entries \<and> (length entries = 1 \<longrightarrow> d' = d) \<and>
     (1 < length entries \<longrightarrow> (\<exists>ask kid. chooser = Some ask \<and>
        ask (describe sz entries) d = (Inr kid, d') \<and> keKID e = kid))"
    using assms
  proof (cases "1 < length entries")
    case True
    then obtain a b es where es: "entries = a # b # es"
      by (cases entries; cases "tl entries") auto
    with assms obtain ask kid where "chooser = Some ask"
      and "ask (describe sz entries) d = (Inr kid, d')" and f: "find (\<lambda>e. keKID e = kid) entries = Some e"
      by (auto simp: pick_def result_inv simp del: find.simps split: option.splits)
    with find_SomeD [OF f] es show ?thesis by auto
  qed (cases entries; auto simp: pick_def)
  ultimately show ?thesis by blast
qed


theorem pick_rule_witness:
  "\<exists>e. fst (pick size_default [\<lparr>keKID = ''b'', keLabel = [], keDescr = [], keCreated = 2\<rparr>,
       \<lparr>keKID = ''a'', keLabel = [], keDescr = [], keCreated = 1\<rparr>]
       (Some (\<lambda>ids. returnS (idKID (hd ids)))) ()) = Inr e \<and> keKID e = ''a''"
proof -
  let ?es = "[\<lparr>keKID = ''b'', keLabel = [], keDescr = [], keCreated = 2\<rparr>,
       \<lparr>keKID = ''a'', keLabel = [], keDescr = [], keCreated = 1\<rparr>]"
  let ?ask = "\<lambda>ids. returnS (idKID (hd ids)) :: (unit, error, string) io"
  have d: "describe size_default ?es = map (describeOne size_default) (rev ?es)"
    by (simp add: describe_def describeOne_def)
  then have p: "pick size_default ?es (Some ?ask) () = (Inr (?es ! 1), ())"
    by (simp add: pick_def describeOne_def bindS_apply)
  from pick_rule [OF p] p show ?thesis by auto
qed

subsection \<open>Everything loaded has been checked\<close>

definition peer_ok :: "size_tags \<Rightarrow> ConfigPeer \<Rightarrow> bool" where
  "peer_ok sz p \<longleftrightarrow> KID (cpPubKey p) = cpKID p \<and> length (cpPubKey p) = PubKeyLen \<and>
     length (cpRaw p) = Size sz \<and> DecodePeer sz (cpRaw p) = Inr (cpPeer p)"

text \<open>
  What a tree promises its users: every key is the one its identifier names, every record is
  the padded form of what it decodes to, and the peers are the ones the interface record
  references, in that order.
\<close>

definition tree_ok :: "size_tags \<Rightarrow> Tree \<Rightarrow> bool" where
  "tree_ok sz t \<longleftrightarrow> KID (IfPubKey t) = IfKID t \<and> length (IfPubKey t) = PubKeyLen \<and>
     length (IfRaw t) = Size sz \<and> DecodeInterface sz (IfRaw t) = Inr (Iface t) \<and>
     Peers t \<noteq> [] \<and> map (\<lambda>p. MakePeerRef (cpPubKey p)) (Peers t) = PeerRefs (Iface t) \<and>
     (\<forall>p \<in> set (Peers t). peer_ok sz p)"

lemma resolve_Inr:
  "resolve c tok r kid d = (Inr (pub, r'), d') \<Longrightarrow> KID pub = kid \<and> length pub = PubKeyLen"
  by (auto simp: resolve_def result_inv split: if_splits)

definition keyed :: "(PeerRef \<Rightarrow> KeyEntry option) \<Rightarrow> bool" where
  "keyed m \<longleftrightarrow> (\<forall>ref e. m ref = Some e \<longrightarrow> PeerRefFromKID (keKID e) = Inr ref)"

lemma indexPeers_Inr: "indexPeers es m = Inr m' \<Longrightarrow> keyed m \<Longrightarrow> keyed m'"
proof (induction es arbitrary: m)
  case (Cons e es)
  show ?case
  proof (cases "PeerRefFromKID (keKID e)")
    case (Inl x)
    with Cons show ?thesis by simp
  next
    case (Inr ref)
    with Cons.prems(1) have "indexPeers es (m(ref := Some e)) = Inr m'" by (simp split: if_splits)
    moreover have "keyed (m(ref := Some e))" using Inr Cons.prems(2) by (simp add: keyed_def)
    ultimately show ?thesis by (rule Cons.IH)
  qed
qed simp

lemma loadPeers_Inr:
  "loadPeers sz c tok byRef refs r seen d = (Inr (ps, seen'), d') \<Longrightarrow>
   keyed byRef \<Longrightarrow> map (\<lambda>p. MakePeerRef (cpPubKey p)) ps = refs \<and> (\<forall>p \<in> set ps. peer_ok sz p)"
proof (induction refs arbitrary: r seen d ps)
  case (Cons ref refs)
  from Cons.prems(1) obtain e pub r' d1 raw p ps' where
    e: "byRef ref = Some e" and r: "resolve c tok r (keKID e) d = (Inr (pub, r'), d1)"
    and raw: "Normalize sz (keDescr e) = Inr raw" and p: "DecodePeer sz raw = Inr p"
    and rest: "loadPeers sz c tok byRef refs r' (sizes_add (length (keDescr e)) seen) d1 = (Inr (ps', seen'), d')"
    and ps: "ps = \<lparr>cpKID = keKID e, cpLabel = keLabel e, cpPubKey = pub, cpRaw = raw, cpPeer = p\<rparr> # ps'"
    by (auto simp: result_inv Let_def split: option.splits)
  have pub: "KID pub = keKID e" "length pub = PubKeyLen" using resolve_Inr [OF r] by simp_all
  have "MakePeerRef pub = ref"
    using Cons.prems(2) e pub(1) PeerRefFromKID_KID [of pub] by (simp add: keyed_def)
  moreover have "length raw = Size sz"
    using raw by (auto simp: Normalize_def split: if_splits)
  ultimately show ?case
    using Cons.IH [OF rest Cons.prems(2)] ps pub p by (simp add: peer_ok_def)
qed simp

lemma loadFrom_Inr:
  assumes "loadFrom fuel sz c tok entry r d = (Inr t, d')"
  shows "tree_ok sz t \<and> IfKID t = keKID entry \<and>
     (\<exists>useTok d1. Verify sz c useTok (IfKID t) (IfPubKey t) (IfRaw t) (map recordOf (Peers t)) d1 = (Inr (), d'))"
proof -
  obtain raw iface pub r' d1 es d2 byRef ps seen d3 useTok d4 where
    raw: "Normalize sz (keDescr entry) = Inr raw" and iface: "DecodeInterface sz raw = Inr iface"
    and refs: "PeerRefs iface \<noteq> []"
    and pub: "resolve c tok r (keKID entry) d = (Inr (pub, r'), d1)"
    and byRef: "indexPeers es (\<lambda>_. None) = Inr byRef"
    and ps: "loadPeers sz c tok byRef (PeerRefs iface) r' (newSizes (length (keDescr entry))) d2
              = (Inr (ps, seen), d3)"
    and v: "Verify sz c useTok (keKID entry) pub raw (map recordOf ps) d4 = (Inr (), d')"
    and t: "t = \<lparr>IfKID = keKID entry, IfLabel = keLabel entry, IfPubKey = pub, IfRaw = raw,
                 Iface = iface, Peers = ps\<rparr>"
    using assms by (auto simp: loadFrom_def Let_def result_inv split: if_splits)
  have inv: "keyed byRef" by (rule indexPeers_Inr [OF byRef]) (simp add: keyed_def)
  have "length raw = Size sz" using raw by (auto simp: Normalize_def split: if_splits)
  then have "tree_ok sz t"
    using loadPeers_Inr [OF ps inv] resolve_Inr [OF pub] iface refs by (auto simp: t tree_ok_def)
  with v show ?thesis by (auto simp: t)
qed


lemma Load_loadFrom:
  "Load fuel sz c tok chooser d = (Inr t, d') \<Longrightarrow>
   \<exists>e r d1. loadFrom fuel sz c tok e r d1 = (Inr t, d')"
  by (auto simp: Load_def result_inv)

lemma loadNamed_loadFrom:
  "loadNamed fuel sz c tok kid r d = (Inr t, d') \<Longrightarrow>
   \<exists>e d1. loadFrom fuel sz c tok e r d1 = (Inr t, d') \<and> keKID e = kid"
proof -
  assume "loadNamed fuel sz c tok kid r d = (Inr t, d')"
  then obtain es e d1 where e: "find (\<lambda>e. keKID e = kid) es = Some e"
    and l: "loadFrom fuel sz c tok e r d1 = (Inr t, d')"
    by (auto simp: loadNamed_def result_inv split: option.splits)
  from find_SomeD [OF e] l show ?thesis by blast
qed

lemma loadFrom_authentic:
  assumes "\<And>token kid. honest_hmac c token kid (h kid)" and "loadFrom fuel sz c tok e r d = (Inr t, d')"
  shows "tree_ok sz t \<and> HasMAC (Iface t) \<and>
     (\<exists>msg. Canonical sz (IfPubKey t) (IfRaw t) (map recordOf (Peers t)) = Inr msg \<and>
        MAC (Iface t) = h (IfKID t) msg)"
proof -
  from loadFrom_Inr [OF assms(2)] obtain useTok d2 where ok: "tree_ok sz t"
    and v: "Verify sz c useTok (IfKID t) (IfPubKey t) (IfRaw t) (map recordOf (Peers t)) d2 = (Inr (), d')"
    by blast
  from v have "fst (Verify sz c useTok (IfKID t) (IfPubKey t) (IfRaw t) (map recordOf (Peers t)) d2) = Inr ()"
    by simp
  from this [unfolded Verify_Inr [OF assms(1)]] ok show ?thesis
    by (auto simp: tree_ok_def)
qed

text \<open>
  C3: nothing is returned that has not been authenticated.  A tree from any of the three ways
  to load one - chosen, named, or named with keys supplied by a caller who is not trusted -
  has every key checked against its identifier, its peers in the order of the references,
  and carries the MAC the device computes over exactly these keys and records.
\<close>

theorem loaded_tree_is_authentic:
  assumes "\<And>token kid. honest_hmac c token kid (h kid)"
    and "Load fuel sz c tok chooser d = (Inr t, d') \<or> LoadIdentity fuel sz c tok kid d = (Inr t, d') \<or>
      LoadIdentityWithKeys fuel sz c tok kid keys d = (Inr t, d')"
  shows "tree_ok sz t \<and> HasMAC (Iface t) \<and>
     (\<exists>msg. Canonical sz (IfPubKey t) (IfRaw t) (map recordOf (Peers t)) = Inr msg \<and>
        MAC (Iface t) = h (IfKID t) msg)"
proof -
  obtain e r d1 where "loadFrom fuel sz c tok e r d1 = (Inr t, d')"
    using assms(2) Load_loadFrom loadNamed_loadFrom
    unfolding LoadIdentity_def LoadIdentityWithKeys_def by metis
  from loadFrom_authentic [OF assms(1) this] show ?thesis .
qed

text \<open>
  Asking for an identity by name never yields another one, whichever side the keys come
  from, and a public key supplied for a peer or for the identity is used only when its own
  identifier is the one the device returned.
\<close>

theorem named_identity_is_loaded:
  assumes "loadNamed fuel sz c tok kid r d = (Inr t, d')"
  shows "IfKID t = kid \<and> KID (IfPubKey t) = kid \<and> (\<forall>p \<in> set (Peers t). KID (cpPubKey p) = cpKID p)"
proof -
  obtain e d1 where l: "loadFrom fuel sz c tok e r d1 = (Inr t, d')" and k: "keKID e = kid"
    using loadNamed_loadFrom [OF assms] by blast
  from loadFrom_Inr [OF l] k show ?thesis by (auto simp: tree_ok_def peer_ok_def)
qed

subsection \<open>What loading can depend on\<close>

text \<open>
  Two clients that agree on the calls that read.  Everything that loads or lists a
  configuration is the same for both.
\<close>

locale same_reads =
  fixes c c' :: "'d Client"
  assumes SearchKeys_eq: "SearchKeys c' = SearchKeys c" and GetPubKey_eq: "GetPubKey c' = GetPubKey c"
    and HmacVerify_eq: "HmacVerify c' = HmacVerify c"
begin

lemma searchLoop_eq: "searchLoop n c' tok magic token all off = searchLoop n c tok magic token all off"
proof (induction n arbitrary: token all off)
  case (Suc n)
  show ?case unfolding searchLoop.simps SearchKeys_eq Suc.IH ..
qed simp

lemma search_eq: "search n c' tok magic = search n c tok magic"
  by (simp add: search_def searchLoop_eq)

lemma ring_eq: "ring c' tok r kid = ring c tok r kid"
  by (cases r) (simp_all add: GetPubKey_eq)

lemma resolve_eq: "resolve c' tok r kid = resolve c tok r kid"
  by (simp add: resolve_def ring_eq)

lemma Verify_eq: "Verify sz c' token kid pk b ps = Verify sz c token kid pk b ps"
  unfolding Verify_def HmacVerify_eq ..

lemma loadPeers_eq: "loadPeers sz c' tok byRef refs r seen = loadPeers sz c tok byRef refs r seen"
proof (induction refs arbitrary: r seen)
  case (Cons ref refs)
  show ?case unfolding loadPeers.simps resolve_eq Cons.IH ..
qed simp

lemma loadFrom_eq: "loadFrom n sz c' tok e r = loadFrom n sz c tok e r"
  unfolding loadFrom_def resolve_eq search_eq loadPeers_eq Verify_eq ..

lemma Load_eq: "Load n sz c' tok ch = Load n sz c tok ch"
  unfolding Load_def search_eq loadFrom_eq ..

lemma loadNamed_eq: "loadNamed n sz c' tok kid r = loadNamed n sz c tok kid r"
  unfolding loadNamed_def search_eq loadFrom_eq ..

lemma Identities_eq: "Identities n sz c' tok = Identities n sz c tok"
  by (simp add: Identities_def search_eq)

end

interpretation read_only: same_reads c
    "c\<lparr>CreateKey := f1, ImportKey := f2, UpdateKey := f3, DeleteKey := f4, CipherWrap := f5, CipherUnwrap := f6,
       ECDH := f7, HmacHash := f8\<rparr>"
  for c f1 f2 f3 f4 f5 f6 f7 f8
  by unfold_locales simp_all

text \<open>
  C31: loading writes nothing.  Whatever the calls that create, import, change or delete a key,
  compute a tag, wrap, unwrap or derive a secret would do, none of the ways to load a tree
  or to list the identities depends on it: they use the search, the public keys and the MAC
  check, and tokens.
\<close>

theorem loading_writes_nothing:
  "let c' = c\<lparr>CreateKey := f1, ImportKey := f2, UpdateKey := f3, DeleteKey := f4, CipherWrap := f5,
       CipherUnwrap := f6, ECDH := f7, HmacHash := f8\<rparr> in
   Load fuel sz c' tok chooser = Load fuel sz c tok chooser \<and>
   LoadIdentity fuel sz c' tok kid = LoadIdentity fuel sz c tok kid \<and>
   LoadIdentityWithKeys fuel sz c' tok kid keys = LoadIdentityWithKeys fuel sz c tok kid keys \<and>
   Identities fuel sz c' tok = Identities fuel sz c tok"
  unfolding Let_def LoadIdentity_def LoadIdentityWithKeys_def
  by (simp add: read_only.Load_eq read_only.loadNamed_eq read_only.Identities_eq)

subsection \<open>A device that holds the example tree\<close>

text \<open>Keys are handed out in the order they are asked for: the identity's, then the peer's.\<close>

definition exampleDevice :: "bytes \<Rightarrow> nat Client" where
  "exampleDevice tag = deafClient
     \<lparr>SearchKeys := (\<lambda>token pat off n. if pat = bytes_of MagicInterface
        then returnS (1, [\<lparr>keKID = KID exampleIfKey, keLabel = ''id'', keDescr = exampleIfRecord tag, keCreated = 1\<rparr>])
        else returnS (1, [\<lparr>keKID = KID examplePeerKey, keLabel = ''peer'', keDescr = examplePeerRecord, keCreated = 2\<rparr>])),
      GetPubKey := (\<lambda>token kid n. (Inr \<lparr>keyPubKey = (if n = 0 then exampleIfKey else examplePeerKey),
        keyTypeOf = ''CURVE25519''\<rparr>, Suc n)),
      HmacHash := (\<lambda>_ _ msg _. returnS (toyTag msg)),
      HmacVerify := (\<lambda>_ _ msg tag _. if tag = toyTag msg then returnS () else failS (HemError 406 ''mismatch''))\<rparr>"

lemma exampleDevice_honest: "honest_hmac (exampleDevice tag) token kid toyTag"
  by (simp add: honest_hmac_def exampleDevice_def toyTag_def)

definition exampleTree :: "bytes \<Rightarrow> Tree" where
  "exampleTree tag =
     \<lparr>IfKID = KID exampleIfKey, IfLabel = ''id'', IfPubKey = exampleIfKey, IfRaw = exampleIfRecord tag,
      Iface = canonInterface (exampleIf\<lparr>MAC := tag\<rparr>),
      Peers = [\<lparr>cpKID = KID examplePeerKey, cpLabel = ''peer'', cpPubKey = examplePeerKey,
                cpRaw = examplePeerRecord, cpPeer = canonPeer examplePeer\<rparr>]\<rparr>"

lemma example_records: "map recordOf (Peers (exampleTree tag)) = examplePeers"
  by (simp add: exampleTree_def recordOf_def examplePeers_def)

lemma example_search:
  "search (Suc n) (exampleDevice tag) tok MagicInterface k =
     (Inr [\<lparr>keKID = KID exampleIfKey, keLabel = ''id'', keDescr = exampleIfRecord tag, keCreated = 1\<rparr>], k)"
  "search (Suc n) (exampleDevice tag) tok MagicPeer k =
     (Inr [\<lparr>keKID = KID examplePeerKey, keLabel = ''peer'', keDescr = examplePeerRecord, keCreated = 2\<rparr>], k)"
  by (simp_all add: search_def exampleDevice_def MagicInterface_def MagicPeer_def)

lemma Verify_example:
  assumes "Canonical size_descr64 key (exampleIfRecord zeroMAC) examplePeers = Inr msg"
    and "HmacVerify c = HmacVerify (exampleDevice tag)"
  shows "Verify size_descr64 c token kid key (exampleIfRecord (toyTag msg)) examplePeers k
    = (Inr (), k)"
proof -
  have l: "length (toyTag msg) = MACLen" by (simp add: toyTag_def)
  have dec: "DecodeInterface size_descr64 (exampleIfRecord (toyTag msg)) = Inr (canonInterface (exampleIf\<lparr>MAC := toyTag msg\<rparr>))"
    by (rule Interface_enc_dec [OF exampleIf_wf [OF l] exampleIf_Encode [OF l]])
  have "HasMAC (exampleIf\<lparr>MAC := toyTag msg\<rparr>)" by simp
  then have mac: "HasMAC (canonInterface (exampleIf\<lparr>MAC := toyTag msg\<rparr>))" 
    "MAC (canonInterface (exampleIf\<lparr>MAC := toyTag msg\<rparr>)) = toyTag msg"
    by (simp_all add: canonInterface_def)
  have "Canonical size_descr64 key (exampleIfRecord (toyTag msg)) examplePeers = Inr msg"
    using assms(1) by (simp add: example_Canonical_eq [OF l])
  with dec mac show ?thesis
    by (simp add: Verify_def bindS_apply mapErrS_def assms(2) exampleDevice_def)
qed


lemma example_load:
  assumes "Canonical size_descr64 exampleIfKey (exampleIfRecord zeroMAC) examplePeers = Inr msg"
  shows "Load 1 size_descr64 (exampleDevice (toyTag msg)) (\<lambda>_. returnS ''t'') None 0
      = (Inr (exampleTree (toyTag msg)), 2)"
    and "loadNamed 1 size_descr64 (exampleDevice (toyTag msg)) (\<lambda>_. returnS ''t'') (KID exampleIfKey)
      (fromDevice []) 0 = (Inr (exampleTree (toyTag msg)), 2)"
proof -
  let ?c = "exampleDevice (toyTag msg)"
  have l: "length (toyTag msg) = MACLen" by (simp add: toyTag_def)
  have dec: "DecodeInterface size_descr64 (exampleIfRecord (toyTag msg)) = Inr (canonInterface (exampleIf\<lparr>MAC := toyTag msg\<rparr>))"
    by (rule Interface_enc_dec [OF exampleIf_wf [OF l] exampleIf_Encode [OF l]])
  have norm: "Normalize size_descr64 (exampleIfRecord (toyTag msg)) = Inr (exampleIfRecord (toyTag msg))"
    "Normalize size_descr64 examplePeerRecord = Inr examplePeerRecord"
    by (simp_all add: Normalize_padded example_lengths examplePeerRecord_def)
  have pdec: "DecodePeer size_descr64 examplePeerRecord = Inr (canonPeer examplePeer)"
    by (rule Peer_enc_dec [OF examplePeer_wf examplePeer_Encode])
  have refs: "PeerRefs (canonInterface (exampleIf\<lparr>MAC := toyTag msg\<rparr>)) = [MakePeerRef examplePeerKey]"
    by (simp add: canonInterface_def exampleIf_def)
  have keys: "GetPubKey ?c tk kid 0 = (Inr \<lparr>keyPubKey = exampleIfKey, keyTypeOf = ''CURVE25519''\<rparr>, 1)"
    "GetPubKey ?c tk kid (Suc 0) = (Inr \<lparr>keyPubKey = examplePeerKey, keyTypeOf = ''CURVE25519''\<rparr>, 2)" for tk kid
    by (simp_all add: exampleDevice_def)
  have lens: "length examplePeerKey = PubKeyLen" by (simp add: examplePeerKey_def PubKeyLen_def)
  have ld: "loadFrom 1 size_descr64 ?c (\<lambda>_. returnS ''t'') \<lparr>keKID = KID exampleIfKey, keLabel = ''id'',
      keDescr = exampleIfRecord (toyTag msg), keCreated = 1\<rparr> (fromDevice []) 0 = (Inr (exampleTree (toyTag msg)), 2)"
    by (simp add: loadFrom_def bindS_apply example_search [of 0, simplified] Let_def norm dec pdec refs
        resolve_def keys example_lengths lens mapErrS_def PeerRefFromKID_KID recordOf_def
        Verify_example [OF assms refl, unfolded examplePeers_def] exampleTree_def)
  show "Load 1 size_descr64 ?c (\<lambda>_. returnS ''t'') None 0 = (Inr (exampleTree (toyTag msg)), 2)"
    using ld by (simp add: Load_def bindS_apply example_search [of 0, simplified] pick_def)
  show "loadNamed 1 size_descr64 ?c (\<lambda>_. returnS ''t'') (KID exampleIfKey) (fromDevice []) 0
      = (Inr (exampleTree (toyTag msg)), 2)"
    using ld by (simp add: loadNamed_def bindS_apply example_search [of 0, simplified])
qed

theorem loaded_tree_is_authentic_witness:
  "\<exists>tag t d. Load 1 size_descr64 (exampleDevice tag) (\<lambda>_. returnS ''t'') None 0 = (Inr t, d) \<and>
     tree_ok size_descr64 t \<and> HasMAC (Iface t)"
proof -
  obtain msg where "Canonical size_descr64 exampleIfKey (exampleIfRecord zeroMAC) examplePeers = Inr msg"
    using example_Canonical [of zeroMAC] by auto
  from example_load(1) [OF this]
  have l: "Load 1 size_descr64 (exampleDevice (toyTag msg)) (\<lambda>_. returnS ''t'') None 0
    = (Inr (exampleTree (toyTag msg)), 2)" .
  from loaded_tree_is_authentic [OF exampleDevice_honest disjI1 [OF l]] l show ?thesis by blast
qed

theorem named_identity_is_loaded_witness:
  "\<exists>tag t d. loadNamed 1 size_descr64 (exampleDevice tag) (\<lambda>_. returnS ''t'') (KID exampleIfKey)
     (fromDevice []) 0 = (Inr t, d) \<and> IfKID t = KID exampleIfKey"
proof -
  obtain msg where "Canonical size_descr64 exampleIfKey (exampleIfRecord zeroMAC) examplePeers = Inr msg"
    using example_Canonical [of zeroMAC] by auto
  from example_load(2) [OF this] named_identity_is_loaded [OF example_load(2) [OF this]]
  show ?thesis by blast
qed

end
