(* ===== verification/Uapi.thy ===== *)
theory Uapi
  imports Hsm Config
begin

text \<open>
  The text protocol of the WireGuard device: what \<open>internal/tunnel/uapi.go\<close> writes into it
  and how \<open>internal/runtime/uapi.go\<close> reads a running interface's state back.  A response is
  a list of lines; running out of lines before the empty one is the read error of a closed
  connection.
\<close>

subsection \<open>Configuring\<close>

definition lf :: string where "lf = [CHR 0x0A]"

definition writePeer :: "ConfigPeer \<Rightarrow> bytes \<Rightarrow> string" where
  "writePeer peer psk =
     ''public_key='' @ hexEncodeToString (cpPubKey peer) @ lf @
     (if IsZero (peerEndpoint (cpPeer peer)) then []
      else ''endpoint='' @ Endpoint_String (peerEndpoint (cpPeer peer)) @ lf) @
     concat (map (\<lambda>a. ''allowed_ip='' @ PrefixString a @ lf) (AllowedIPs (cpPeer peer))) @
     (if Keepalive (cpPeer peer) = 0 then []
      else ''persistent_keepalive_interval='' @ FormatUint (unat (Keepalive (cpPeer peer))) @ lf) @
     (if psk = [] then [] else ''preshared_key='' @ hexEncodeToString psk @ lf)"

definition uapiConfig :: "Tree \<Rightarrow> ConfigPeer \<Rightarrow> bytes \<Rightarrow> string" where
  "uapiConfig tree peer psk =
     ''private_key='' @ replicate 64 (CHR ''0'') @ lf @
     (if ListenPort (Iface tree) = 0 then []
      else ''listen_port='' @ FormatUint (unat (ListenPort (Iface tree))) @ lf) @
     writePeer peer psk @ lf"

definition uapiReplacePeer :: "ConfigPeer \<Rightarrow> bytes \<Rightarrow> string" where
  "uapiReplacePeer peer psk = ''replace_peers=true'' @ lf @ writePeer peer psk @ lf"

definition dnsServers :: "Tree \<Rightarrow> string list" where
  "dnsServers tree = map AddrString (DNS (Iface tree))"

subsection \<open>Reading the state back\<close>

text \<open>\<open>LastHandshake\<close> is the time set by \<open>time.Unix\<close>, absent for the zero time.\<close>

record PeerStatus =
  stPublicKey :: bytes
  stEndpoint :: string
  LastHandshake :: "(int \<times> int) option"
  RxBytes :: nat
  TxBytes :: nat
  stKeepalive :: nat
  HasPSK :: bool

record DeviceStatus =
  stListenPort :: nat
  stPeers :: "PeerStatus list"

text \<open>
  \<open>strconv\<close> with the error dropped: a number that leaves the range is the nearest one in range,
  whatever follows the digit at which it does, other text is zero.
\<close>

fun uintLoop :: "nat \<Rightarrow> string \<Rightarrow> nat" where
  "uintLoop n [] = n"
| "uintLoop n (c # cs) =
     (case digit_val c of
        None \<Rightarrow> 0
      | Some d \<Rightarrow> if 10 * n + d \<ge> 2 ^ 64 then 2 ^ 64 - 1 else uintLoop (10 * n + d) cs)"

definition ParseUintClamp :: "string \<Rightarrow> nat" where
  "ParseUintClamp s = uintLoop 0 s"

definition ParseIntClamp :: "string \<Rightarrow> int" where
  "ParseIntClamp s =
     (let neg = HasPrefix s ''-'';
          n = int (ParseUintClamp (if neg \<or> HasPrefix s ''+'' then tl s else s))
      in if neg then max (- n) (- (2 ^ 63)) else min n (2 ^ 63 - 1))"

definition newPeerStatus :: "bytes \<Rightarrow> PeerStatus" where
  "newPeerStatus k = \<lparr>stPublicKey = k, stEndpoint = [], LastHandshake = None, RxBytes = 0, TxBytes = 0,
     stKeepalive = 0, HasPSK = False\<rparr>"

record statusState =
  ssStatus :: DeviceStatus
  sec :: int
  nsec :: int

definition onLast :: "('a \<Rightarrow> 'a) \<Rightarrow> 'a list \<Rightarrow> 'a list" where
  "onLast f xs = (if xs = [] then [] else butlast xs @ [f (last xs)])"

definition onLastPeer :: "(PeerStatus \<Rightarrow> PeerStatus) \<Rightarrow> statusState \<Rightarrow> statusState" where
  "onLastPeer f s = s\<lparr>ssStatus := (ssStatus s)\<lparr>stPeers := onLast f (stPeers (ssStatus s))\<rparr>\<rparr>"

definition flush :: "statusState \<Rightarrow> statusState" where
  "flush s =
     (if stPeers (ssStatus s) = [] then s
      else (if sec s \<noteq> 0 \<or> nsec s \<noteq> 0 then onLastPeer (\<lambda>p. p\<lparr>LastHandshake := Some (sec s, nsec s)\<rparr>) s else s)
        \<lparr>sec := 0, nsec := 0\<rparr>)"

definition peerKey :: "string \<Rightarrow> string \<Rightarrow> statusState \<Rightarrow> statusState" where
  "peerKey key value s =
     (if stPeers (ssStatus s) = [] then s
      else if key = ''endpoint'' then onLastPeer (\<lambda>p. p\<lparr>stEndpoint := value\<rparr>) s
      else if key = ''last_handshake_time_sec'' then s\<lparr>sec := ParseIntClamp value\<rparr>
      else if key = ''last_handshake_time_nsec'' then s\<lparr>nsec := ParseIntClamp value\<rparr>
      else if key = ''rx_bytes'' then onLastPeer (\<lambda>p. p\<lparr>RxBytes := ParseUintClamp value\<rparr>) s
      else if key = ''tx_bytes'' then onLastPeer (\<lambda>p. p\<lparr>TxBytes := ParseUintClamp value\<rparr>) s
      else if key = ''persistent_keepalive_interval'' then
        (case ParseUint value 16 of None \<Rightarrow> s | Some n \<Rightarrow> onLastPeer (\<lambda>p. p\<lparr>stKeepalive := n\<rparr>) s)
      else if key = ''preshared_key'' then onLastPeer (\<lambda>p. p\<lparr>HasPSK := (value \<noteq> replicate 64 (CHR ''0''))\<rparr>) s
      else s)"

definition statusLine :: "string \<Rightarrow> statusState \<Rightarrow> error + statusState" where
  "statusLine line s =
     (case Cut line (CHR ''='') of
        None \<Rightarrow> Inr s
      | Some (key, value) \<Rightarrow>
          if key = ''errno'' then
            (if value \<noteq> ''0'' then Inl (Msg ''the interface reported errno %s'') else Inr s)
          else if key = ''listen_port'' then
            (case ParseUint value 16 of
               None \<Rightarrow> Inr s
             | Some n \<Rightarrow> Inr (s\<lparr>ssStatus := (ssStatus s)\<lparr>stListenPort := n\<rparr>\<rparr>))
          else if key = ''public_key'' then
            (let s = flush s in
             case hexDecodeString value of
               None \<Rightarrow> Inl (Msg ''the interface reported a malformed public key %q'')
             | Some raw \<Rightarrow>
                 if length raw \<noteq> 32 then Inl (Msg ''the interface reported a malformed public key %q'')
                 else Inr (s\<lparr>ssStatus := (ssStatus s)\<lparr>stPeers := stPeers (ssStatus s) @ [newPeerStatus raw]\<rparr>\<rparr>))
          else Inr (peerKey key value s))"

fun statusLoop :: "string list \<Rightarrow> statusState \<Rightarrow> error + DeviceStatus" where
  "statusLoop [] s = Inl (Msg ''reading the interface state: %w'')"
| "statusLoop (line # lines) s =
     (if line = [] then Inr (ssStatus (flush s))
      else bindE (statusLine line s) (statusLoop lines))"

definition emptyStatus :: statusState where
  "emptyStatus = \<lparr>ssStatus = \<lparr>stListenPort = 0, stPeers = []\<rparr>, sec = 0, nsec = 0\<rparr>"

definition parseStatus :: "string list \<Rightarrow> error + DeviceStatus" where
  "parseStatus lines = statusLoop lines emptyStatus"

subsection \<open>A response read section by section\<close>

text \<open>
  A reference reading: split the lines at the public keys, and take from each section the
  last value of each field.
\<close>

fun valueOf :: "string \<Rightarrow> (string \<Rightarrow> bool) \<Rightarrow> string list \<Rightarrow> string option" where
  "valueOf key ok [] = None"
| "valueOf key ok (l # ls) =
     (case valueOf key ok ls of
        Some v \<Rightarrow> Some v
      | None \<Rightarrow> (case Cut l (CHR ''='') of Some (k, v) \<Rightarrow> if k = key \<and> ok v then Some v else None | None \<Rightarrow> None))"

fun sectionsOf :: "string list \<Rightarrow> string list \<times> (string \<times> string list) list" where
  "sectionsOf [] = ([], [])"
| "sectionsOf (l # ls) =
     (case sectionsOf ls of (h, ss) \<Rightarrow>
        (case Cut l (CHR ''='') of
           Some (k, v) \<Rightarrow> if k = ''public_key'' then ([], (v, h) # ss) else (l # h, ss)
         | None \<Rightarrow> (l # h, ss)))"

definition valueInt :: "string \<Rightarrow> string list \<Rightarrow> int" where
  "valueInt key ls = (case valueOf key (\<lambda>_. True) ls of None \<Rightarrow> 0 | Some v \<Rightarrow> ParseIntClamp v)"

definition valueNat :: "string \<Rightarrow> string list \<Rightarrow> nat" where
  "valueNat key ls = (case valueOf key (\<lambda>_. True) ls of None \<Rightarrow> 0 | Some v \<Rightarrow> ParseUintClamp v)"

definition value16 :: "string \<Rightarrow> string list \<Rightarrow> nat" where
  "value16 key ls =
     (case valueOf key (\<lambda>v. ParseUint v 16 \<noteq> None) ls of None \<Rightarrow> 0 | Some v \<Rightarrow> the (ParseUint v 16))"

definition sectionPeer :: "string \<times> string list \<Rightarrow> PeerStatus" where
  "sectionPeer s = (case s of (key, ls) \<Rightarrow>
     \<lparr>stPublicKey = the (hexDecodeString key),
      stEndpoint = (case valueOf ''endpoint'' (\<lambda>_. True) ls of None \<Rightarrow> [] | Some v \<Rightarrow> v),
      LastHandshake = None,
      RxBytes = valueNat ''rx_bytes'' ls, TxBytes = valueNat ''tx_bytes'' ls,
      stKeepalive = value16 ''persistent_keepalive_interval'' ls,
      HasPSK = (case valueOf ''preshared_key'' (\<lambda>_. True) ls of None \<Rightarrow> False | Some v \<Rightarrow> v \<noteq> replicate 64 (CHR ''0''))\<rparr>)"

definition sectionTime :: "string list \<Rightarrow> (int \<times> int) option" where
  "sectionTime ls =
     (let t = (valueInt ''last_handshake_time_sec'' ls, valueInt ''last_handshake_time_nsec'' ls) in
      if t = (0, 0) then None else Some t)"

definition sectionStatus :: "string \<times> string list \<Rightarrow> PeerStatus" where
  "sectionStatus s = (sectionPeer s)\<lparr>LastHandshake := sectionTime (snd s)\<rparr>"

definition statusBySection :: "string list \<Rightarrow> DeviceStatus" where
  "statusBySection ls =
     \<lparr>stListenPort = value16 ''listen_port'' ls, stPeers = map sectionStatus (snd (sectionsOf ls))\<rparr>"

definition badLine :: "string \<Rightarrow> bool" where
  "badLine l \<longleftrightarrow>
     (case Cut l (CHR ''='') of
        Some (k, v) \<Rightarrow> (k = ''errno'' \<and> v \<noteq> ''0'') \<or>
          (k = ''public_key'' \<and> (case hexDecodeString v of None \<Rightarrow> True | Some raw \<Rightarrow> length raw \<noteq> 32))
      | None \<Rightarrow> False)"

lemma valueOf_snoc:
  "valueOf key ok (ls @ [l]) =
     (case Cut l (CHR ''='') of
        Some (k, v) \<Rightarrow> if k = key \<and> ok v then Some v else valueOf key ok ls
      | None \<Rightarrow> valueOf key ok ls)"
  by (induction ls) (auto split: option.splits)

lemma sectionsOf_snoc:
  "sectionsOf (ls @ [l]) =
     (case sectionsOf ls of (h, ss) \<Rightarrow>
        (case Cut l (CHR ''='') of
           Some (k, v) \<Rightarrow>
             if k = ''public_key'' then (h, ss @ [(v, [])])
             else if ss = [] then (h @ [l], [])
             else (h, butlast ss @ [(fst (last ss), snd (last ss) @ [l])])
         | None \<Rightarrow>
             if ss = [] then (h @ [l], [])
             else (h, butlast ss @ [(fst (last ss), snd (last ss) @ [l])])))"
  by (induction ls) (auto split: option.splits prod.splits)

lemma valueOf_other:
  "(\<And>v. Cut l (CHR ''='') \<noteq> Some (key, v)) \<Longrightarrow> valueOf key ok (ls @ [l]) = valueOf key ok ls"
  by (auto simp: valueOf_snoc split: option.splits)

definition represents :: "string list \<Rightarrow> statusState \<Rightarrow> bool" where
  "represents ls s \<longleftrightarrow> stListenPort (ssStatus s) = value16 ''listen_port'' ls \<and>
     (let ss = snd (sectionsOf ls) in
      if ss = [] then stPeers (ssStatus s) = [] \<and> sec s = 0 \<and> nsec s = 0
      else stPeers (ssStatus s) = map sectionStatus (butlast ss) @ [sectionPeer (last ss)] \<and>
        sec s = valueInt ''last_handshake_time_sec'' (snd (last ss)) \<and>
        nsec s = valueInt ''last_handshake_time_nsec'' (snd (last ss)))"

lemma sectionPeer_time [simp]: "LastHandshake (sectionPeer s) = None"
  by (cases s) (simp add: sectionPeer_def)

lemma flush_represents:
  assumes "represents ls s"
  shows "ssStatus (flush s) = statusBySection ls" and "sec (flush s) = 0" "nsec (flush s) = 0"
proof -
  let ?ss = "snd (sectionsOf ls)"
  have "ssStatus (flush s) = statusBySection ls \<and> sec (flush s) = 0 \<and> nsec (flush s) = 0"
  proof (cases "?ss = []")
    case True
    with assms show ?thesis
      by (cases "ssStatus s") (simp add: represents_def flush_def statusBySection_def)
  next
    case False
    then have "?ss = butlast ?ss @ [last ?ss]" by simp
    then have m: "map sectionStatus ?ss = map sectionStatus (butlast ?ss) @ [sectionStatus (last ?ss)]"
      by (metis list.simps(8,9) map_append)
    have z: "sectionStatus x = (if sectionTime (snd x) = None then sectionPeer x
        else (sectionPeer x)\<lparr>LastHandshake := sectionTime (snd x)\<rparr>)" for x
    proof -
      have "(sectionPeer x)\<lparr>LastHandshake := None\<rparr> = sectionPeer x"
        using sectionPeer_time [of x] by (cases "sectionPeer x") simp
      then show ?thesis by (simp add: sectionStatus_def)
    qed
    from False assms have s: "stPeers (ssStatus s) = map sectionStatus (butlast ?ss) @ [sectionPeer (last ?ss)]"
      "sec s = valueInt ''last_handshake_time_sec'' (snd (last ?ss))"
      "nsec s = valueInt ''last_handshake_time_nsec'' (snd (last ?ss))"
      "stListenPort (ssStatus s) = value16 ''listen_port'' ls" by (simp_all add: represents_def Let_def)
    have t: "sectionTime (snd (last ?ss)) = (if sec s = 0 \<and> nsec s = 0 then None else Some (sec s, nsec s))"
      by (simp add: sectionTime_def s(2,3) Let_def)
    show ?thesis
      unfolding flush_def statusBySection_def m z [of "last ?ss"] t
      using s(1,4) by (cases "ssStatus s") (simp add: onLastPeer_def onLast_def)
  qed
  then show "ssStatus (flush s) = statusBySection ls" "sec (flush s) = 0" "nsec (flush s) = 0" by simp_all
qed

text \<open>One line that does not end the reading with an error.\<close>

definition statusStep :: "string \<Rightarrow> statusState \<Rightarrow> statusState" where
  "statusStep l s = (case statusLine l s of Inl _ \<Rightarrow> s | Inr s' \<Rightarrow> s')"

lemma statusLine_bad: "badLine l \<longleftrightarrow> \<not> isOk (statusLine l s)"
  by (auto simp: badLine_def statusLine_def Let_def split: option.splits)

lemma sectionsOf_key:
  "Cut l (CHR ''='') = Some (''public_key'', v) \<Longrightarrow> snd (sectionsOf (ls @ [l])) = snd (sectionsOf ls) @ [(v, [])]"
  by (simp add: sectionsOf_snoc split: prod.splits)

lemma sectionsOf_line:
  assumes "\<And>v. Cut l (CHR ''='') \<noteq> Some (''public_key'', v)"
  shows "snd (sectionsOf (ls @ [l])) =
    (let ss = snd (sectionsOf ls) in
     if ss = [] then [] else butlast ss @ [(fst (last ss), snd (last ss) @ [l])])"
  using assms by (auto simp: sectionsOf_snoc split: prod.splits option.splits)

lemmas value_defs = valueInt_def valueNat_def value16_def

lemma represents_key:
  assumes r: "represents ls s" and c: "Cut l (CHR ''='') = Some (''public_key'', v)" and b: "\<not> badLine l"
  shows "represents (ls @ [l]) (statusStep l s)"
proof -
  obtain raw where raw: "hexDecodeString v = Some raw" "length raw = 32"
    using b c by (auto simp: badLine_def split: option.splits)
  have st: "statusStep l s = (flush s)\<lparr>ssStatus := (ssStatus (flush s))\<lparr>stPeers := stPeers (ssStatus (flush s)) @ [newPeerStatus raw]\<rparr>\<rparr>"
    using c raw by (simp add: statusStep_def statusLine_def Let_def)
  have new: "sectionPeer (v, []) = newPeerStatus raw"
    using raw by (simp add: sectionPeer_def newPeerStatus_def value_defs)
  have port: "value16 ''listen_port'' (ls @ [l]) = value16 ''listen_port'' ls"
    using c by (simp add: value16_def valueOf_other)
  show ?thesis
    unfolding represents_def st sectionsOf_key [OF c] port
    using flush_represents [OF r] new
    by (simp add: statusBySection_def valueInt_def)
qed

lemma sectionPeer_snoc:
  assumes kv: "Cut l (CHR ''='') = Some (k, v)"
    and p: "stPeers (ssStatus s) = xs @ [sectionPeer (key, sl)]"
    and t: "sec s = valueInt ''last_handshake_time_sec'' sl" "nsec s = valueInt ''last_handshake_time_nsec'' sl"
  shows "stPeers (ssStatus (peerKey k v s)) = xs @ [sectionPeer (key, sl @ [l])] \<and>
    sec (peerKey k v s) = valueInt ''last_handshake_time_sec'' (sl @ [l]) \<and>
    nsec (peerKey k v s) = valueInt ''last_handshake_time_nsec'' (sl @ [l])"
proof -
  have vs: "valueOf f ok (sl @ [l]) = (if k = f \<and> ok v then Some v else valueOf f ok sl)" for f ok
    by (simp add: valueOf_snoc kv)
  consider "k = ''endpoint''" | "k = ''last_handshake_time_sec''" | "k = ''last_handshake_time_nsec''"
    | "k = ''rx_bytes''" | "k = ''tx_bytes''" | "k = ''persistent_keepalive_interval''" | "k = ''preshared_key''"
    | "k \<noteq> ''endpoint''" "k \<noteq> ''last_handshake_time_sec''" "k \<noteq> ''last_handshake_time_nsec''"
      "k \<noteq> ''rx_bytes''" "k \<noteq> ''tx_bytes''" "k \<noteq> ''persistent_keepalive_interval''" "k \<noteq> ''preshared_key''"
    by fast
  then show ?thesis
  proof cases
    case 6
    then show ?thesis using p t
      by (cases "ParseUint v 16") (simp_all add: peerKey_def onLastPeer_def onLast_def sectionPeer_def value_defs vs)
  qed (use p t in \<open>simp_all add: peerKey_def onLastPeer_def onLast_def sectionPeer_def value_defs vs\<close>)
qed

lemma peerKey_port [simp]: "stListenPort (ssStatus (peerKey k v s)) = stListenPort (ssStatus s)"
  by (simp add: peerKey_def onLastPeer_def split: option.splits)

lemma peerKey_none: "stPeers (ssStatus s) = [] \<Longrightarrow> peerKey k v s = s"
  by (simp add: peerKey_def)

lemma peerKey_other: "k \<in> {''errno'', ''listen_port''} \<Longrightarrow> peerKey k v s = s"
  by (auto simp: peerKey_def)

lemma represents_line:
  assumes r: "represents ls s" and c: "\<And>v. Cut l (CHR ''='') \<noteq> Some (''public_key'', v)" and b: "\<not> badLine l"
  shows "represents (ls @ [l]) (statusStep l s)"
proof (cases "Cut l (CHR ''='')")
  case None
  then have "statusStep l s = s" by (simp add: statusStep_def statusLine_def)
  moreover have "valueOf key ok (xs @ [l]) = valueOf key ok xs" for key ok xs
    using None by (simp add: valueOf_other)
  ultimately show ?thesis
    using r by (simp add: represents_def sectionsOf_line [OF c] Let_def value_defs sectionPeer_def split: prod.splits)
next
  case (Some kv)
  obtain k v where kv: "Cut l (CHR ''='') = Some (k, v)" using Some by (cases kv) simp
  have k: "k \<noteq> ''public_key''" using c kv by auto
  let ?s = "statusStep l s" and ?ss = "snd (sectionsOf ls)"
  have port: "value16 ''listen_port'' (ls @ [l]) =
      (if k = ''listen_port'' then (case ParseUint v 16 of None \<Rightarrow> value16 ''listen_port'' ls | Some n \<Rightarrow> n)
       else value16 ''listen_port'' ls)"
    by (simp add: value16_def valueOf_snoc kv split: option.splits)
  have step: "stPeers (ssStatus ?s) = stPeers (ssStatus (peerKey k v s)) \<and> sec ?s = sec (peerKey k v s) \<and>
      nsec ?s = nsec (peerKey k v s) \<and> stListenPort (ssStatus ?s) =
      (if k = ''listen_port'' then (case ParseUint v 16 of None \<Rightarrow> stListenPort (ssStatus s) | Some n \<Rightarrow> n)
       else stListenPort (ssStatus s))"
  proof -
    consider "k = ''errno''" | "k = ''listen_port''" | "k \<notin> {''errno'', ''listen_port''}" by blast
    then show ?thesis
    proof cases
      case 2
      then show ?thesis
        by (simp add: statusStep_def statusLine_def kv peerKey_other split: option.splits)
    qed (use b k kv in \<open>auto simp: statusStep_def statusLine_def badLine_def peerKey_other\<close>)
  qed
  show ?thesis
  proof (cases "?ss = []")
    case True
    with r step port show ?thesis
      by (simp add: represents_def sectionsOf_line [OF c] peerKey_none split: option.splits)
  next
    case False
    with r have p: "stPeers (ssStatus s) = map sectionStatus (butlast ?ss) @ [sectionPeer (fst (last ?ss), snd (last ?ss))]"
      "sec s = valueInt ''last_handshake_time_sec'' (snd (last ?ss))"
      "nsec s = valueInt ''last_handshake_time_nsec'' (snd (last ?ss))"
      "stListenPort (ssStatus s) = value16 ''listen_port'' ls" by (simp_all add: represents_def Let_def)
    from sectionPeer_snoc [OF kv p(1-3)] step port p(4) False show ?thesis
      by (simp add: represents_def sectionsOf_line [OF c] Let_def split: option.splits)
  qed
qed


lemma represents_step: "represents ls s \<Longrightarrow> \<not> badLine l \<Longrightarrow> represents (ls @ [l]) (statusStep l s)"
  using represents_key represents_line by blast

lemma statusLoop_represents:
  "represents done s \<Longrightarrow> \<forall>l \<in> set ls. l \<noteq> [] \<Longrightarrow>
   (case statusLoop (ls @ [] # rest) s of
      Inl e \<Rightarrow> \<exists>l \<in> set ls. badLine l
    | Inr st \<Rightarrow> (\<forall>l \<in> set ls. \<not> badLine l) \<and> st = statusBySection (done @ ls)) \<and>
   \<not> isOk (statusLoop ls s)"
proof (induction ls arbitrary: s "done")
  case Nil
  then show ?case by (simp add: flush_represents)
next
  case (Cons l ls)
  show ?case
  proof (cases "statusLine l s")
    case (Inl e)
    then have "badLine l" by (simp add: statusLine_bad [of l s])
    with Inl Cons.prems(2) show ?thesis by simp
  next
    case (Inr s')
    then have "\<not> badLine l" by (simp add: statusLine_bad [of l s])
    then have "represents (done @ [l]) s'"
      using represents_step [OF Cons.prems(1) \<open>\<not> badLine l\<close>] Inr by (simp add: statusStep_def)
    from Cons.IH [OF this] Cons.prems(2) Inr \<open>\<not> badLine l\<close> show ?thesis
      by (auto split: sum.splits)
  qed
qed

text \<open>
  C23: the running state carried from line to line says the same as the plain reading of the
  response.  A response that ends properly either has a line the parser refuses - an error
  number, a malformed key - or is read as the reference reads it: each peer's counters,
  endpoint and handshake time are the last values between its public key and the next, and
  no handshake time is carried over to another peer.  Without the closing empty line there is
  an error.
\<close>

theorem status_is_read_by_section:
  assumes "\<forall>l \<in> set body. l \<noteq> []"
  shows "(case parseStatus (body @ [] # rest) of
      Inl e \<Rightarrow> \<exists>l \<in> set body. badLine l
    | Inr st \<Rightarrow> (\<forall>l \<in> set body. \<not> badLine l) \<and> st = statusBySection body) \<and>
   \<not> isOk (parseStatus body)"
proof -
  have "represents [] emptyStatus" by (simp add: represents_def emptyStatus_def value16_def)
  from statusLoop_represents [OF this assms, of rest] show ?thesis
    unfolding parseStatus_def append_Nil .
qed

theorem status_is_read_by_section_witness:
  "isOk (parseStatus [''listen_port=51820'', ''errno=0'', []]) \<and> \<not> isOk (parseStatus [''errno=5''])"
proof -
  let ?b = "[''listen_port=51820'', ''errno=0'']"
  have g: "\<not> badLine l" if "l \<in> set ?b" for l
    using that by (auto simp: badLine_def Cut_def)
  from status_is_read_by_section [of ?b "[]"] g have "isOk (parseStatus (?b @ [[]]))"
    by (auto simp: isOk_iff split: sum.splits)
  moreover from status_is_read_by_section [of "[''errno=5'']" "[]"] have "\<not> isOk (parseStatus [''errno=5''])"
    by simp
  ultimately show ?thesis by simp
qed

end
