(* ===== verification/Session.thy ===== *)
theory Session
  imports Routing
begin

text \<open>
  \<open>internal/session/state.go\<close>: what a running tunnel leaves behind so that another
  invocation can find it.  The JSON encoding is the standard library's and is a pair of
  functions, an encoder and a decoder that may refuse a text.
\<close>

definition stateSuffix :: string where "stateSuffix = ''.wg-hem.json''"

definition ErrNotRunning :: error where
  "ErrNotRunning = Msg ''no tunnel is running under that name''"

definition ErrAmbiguous :: error where
  "ErrAmbiguous = Msg ''several tunnels are running''"

definition Dir :: string where "Dir = ''/var/run/wireguard''"

record State =
  sPID :: int
  sInterface :: string
  sIfKID :: string
  sPeerKID :: string
  sPeerLabel :: string
  sEndpoint :: string
  sHEMURL :: string
  sStarted :: int
  sTokenExpiry :: int

definition Path :: "string \<Rightarrow> string" where
  "Path ifname = Dir @ ''/'' @ ifname @ stateSuffix"

definition Save :: "(State \<Rightarrow> string) \<Rightarrow> 'w Platform \<Rightarrow> State \<Rightarrow> ('w, error, unit) io" where
  "Save json P s =
     bindS (MkdirAll P Dir) (\<lambda>_. WriteFile P (Path (sInterface s)) (json s @ [CHR 0x0A]))"

definition LoadState :: "(string \<Rightarrow> State option) \<Rightarrow> 'w Platform \<Rightarrow> string \<Rightarrow> ('w, error, State) io" where
  "LoadState unjson P ifname =
     bindS (mapErrS (\<lambda>e. if e = ErrNotExist then Wrap ''%w: %s'' [ErrNotRunning]
                         else Wrap ''reading the state of %s: %w'' [e])
              (ReadFile P (Path ifname))) (\<lambda>raw.
       case unjson raw of
         None \<Rightarrow> failS (Msg ''the state file of %s is unreadable: %w'')
       | Some s \<Rightarrow> returnS s)"

definition CutSuffix :: "string \<Rightarrow> string \<Rightarrow> string option" where
  "CutSuffix s suffix = (if HasSuffix s suffix then Some (take (length s - length suffix) s) else None)"

definition runningNames :: "(string \<times> bool) list \<Rightarrow> string list" where
  "runningNames entries =
     List.map_filter (\<lambda>(name, isDir). if isDir then None else CutSuffix name stateSuffix) entries"

definition Running :: "'w Platform \<Rightarrow> ('w, error, string list) io" where
  "Running P = bindS (ReadDir P Dir) (\<lambda>entries. returnS (runningNames entries))"

definition Resolve :: "(string \<Rightarrow> State option) \<Rightarrow> 'w Platform \<Rightarrow> string \<Rightarrow> bool \<Rightarrow> ('w, error, State) io" where
  "Resolve unjson P ifname explicit =
     (\<lambda>w. case LoadState unjson P ifname w of
        (Inr s, w') \<Rightarrow> (Inr s, w')
      | (Inl e, w') \<Rightarrow>
          if explicit then (Inl e, w')
          else (case Running P w' of
              (Inl _, w'') \<Rightarrow> (Inl e, w'')
            | (Inr names, w'') \<Rightarrow>
                (case names of
                   [] \<Rightarrow> (Inl e, w'')
                 | [name] \<Rightarrow> LoadState unjson P name w''
                 | _ \<Rightarrow> (Inl (Wrap ''%w: no tunnel named %s, and %d others are running (%s)'' [ErrAmbiguous]), w''))))"

definition RemoveState :: "'w Platform \<Rightarrow> string \<Rightarrow> ('w, error, unit) io" where
  "RemoveState P ifname = ignoreS (RemoveFile P (Path ifname))"

end
