(* ===== verification/Tunnel.thy ===== *)
theory Tunnel
  imports Uapi Session
begin

text \<open>
  \<open>internal/tunnel\<close>: one interface's life, from the device that holds its key to the kernel
  objects it made, and the walk over the stored peers when one does not answer.  What happens
  while a tunnel is up arrives from outside, in an order nobody controls; it is a list of
  events, the order in which the \<open>select\<close> statements see them.  A list that runs out means
  the tunnel is still up.  What the tunnel says about itself (\<open>Notify\<close>) is not modelled.
\<close>

subsection \<open>State\<close>

record Opts =
  oTree :: Tree
  oUseTok :: string
  oHEMURL :: string
  oIfname :: string

record Tunnel =
  tIfname :: string
  tDev :: bool
  tHsm :: "HSM option"
  tPins :: "Pins option"
  dnsSet :: bool
  blind :: bool
  tPeer :: "ConfigPeer option"
  tPsk :: bytes
  hemInside :: bool
  hemHost :: string

text \<open>What the process knows that the code asks the system for.\<close>

record Env =
  ePID :: int
  eNow :: int
  eTokenExpiry :: "string \<Rightarrow> int"
  eJSON :: "State \<Rightarrow> string"

definition New :: "Opts \<Rightarrow> Tunnel" where
  "New opts = \<lparr>tIfname = oIfname opts, tDev = False, tHsm = None, tPins = None, dnsSet = False, blind = False,
     tPeer = None, tPsk = [], hemInside = False, hemHost = []\<rparr>"

definition Tunnel_Addrs :: "Opts \<Rightarrow> Prefix list" where
  "Tunnel_Addrs opts = Addrs (Iface (oTree opts))"

definition Refresh :: "string \<Rightarrow> Tunnel \<Rightarrow> error + Tunnel" where
  "Refresh token t =
     (case tHsm t of
        None \<Rightarrow> Inl (Fail KindDevice ''the tunnel is not up yet'' [])
      | Some h \<Rightarrow> Inr (t\<lparr>tHsm := Some (SetToken token h)\<rparr>))"

definition readS :: "('s \<Rightarrow> ('w \<times> 's, 'e, 'a) io) \<Rightarrow> ('w \<times> 's, 'e, 'a) io" where
  "readS f = (\<lambda>s. f (snd s) s)"

text \<open>A platform or device call whose error becomes a message of the given kind.\<close>

definition callS :: "Kind \<Rightarrow> string \<Rightarrow> ('w, error, 'a) io \<Rightarrow> ('w \<times> 's, error, 'a) io" where
  "callS k msg m = mapErrS (\<lambda>_. Fail k msg []) (onDevice m)"

definition pubPath :: "string \<Rightarrow> string" where
  "pubPath ifname = Dir @ ''/'' @ ifname @ ''.pub''"

subsection \<open>Coming up\<close>

definition openDevice :: "'w Client \<Rightarrow> 'w Platform \<Rightarrow> Opts \<Rightarrow> ('w \<times> Tunnel, error, unit) io" where
  "openDevice c P opts =
     bindS (mapErrS (\<lambda>e. Classify e KindDevice ''reading the interface public key'')
              (onDevice (GetPubKey c (oUseTok opts) (IfKID (oTree opts))))) (\<lambda>ifPub.
     bindS (updS (\<lambda>t. t\<lparr>tHsm := Some (NewHSM (oUseTok opts) (IfKID (oTree opts)) (copy32 (keyPubKey ifPub)))\<rparr>)) (\<lambda>_.
     bindS (readS (\<lambda>t. callS KindDevice ''creating the tunnel interface: %v''
                         (CreateTUN P (tIfname t) (unat (Tree_MTU (oTree opts)))))) (\<lambda>name.
     bindS (updS (\<lambda>t. t\<lparr>tIfname := (if name \<noteq> [] then name else tIfname t), tDev := True\<rparr>)) (\<lambda>_.
     bindS (callS KindDevice ''bringing the tunnel device up: %v'' (devUp P)) (\<lambda>_.
     bindS (ignoreS (onDevice (MkdirAll P Dir))) (\<lambda>_.
       readS (\<lambda>t. ignoreS (onDevice (WriteFile P (pubPath (tIfname t)) (b64Encode (keyPubKey ifPub) @ lf))))))))))"

text \<open>Calls on the pinned routes; \<open>Run\<close> has made the set before.\<close>

definition onPins :: "('w \<times> Pins, error, 'a) io \<Rightarrow> ('w \<times> Tunnel, error, 'a) io" where
  "onPins m =
     (\<lambda>(w, t). case tPins t of
        None \<Rightarrow> (Inl Panic, (w, t))
      | Some ps \<Rightarrow> (case m (w, ps) of (r, (w', ps')) \<Rightarrow> (r, (w', t\<lparr>tPins := Some ps'\<rparr>))))"

definition rtPeer :: "ConfigPeer \<Rightarrow> RtPeer" where
  "rtPeer p = \<lparr>rpEndpoint = Endpoint_String (peerEndpoint (cpPeer p)), rpAllowedIPs = AllowedIPs (cpPeer p)\<rparr>"

definition usePeer :: "'w Client \<Rightarrow> 'w Platform \<Rightarrow> Opts \<Rightarrow> ConfigPeer \<Rightarrow> ('w \<times> Tunnel, error, unit) io" where
  "usePeer c P opts peer =
     bindS (mapErrS (\<lambda>e. Classify e KindDevice ''pre-shared key'')
              (onDevice (UnwrapPSK c (oTree opts) (oUseTok opts) peer))) (\<lambda>unwrapped.
     let psk = (case unwrapped of None \<Rightarrow> [] | Some k \<Rightarrow> k) in
     bindS (updS (\<lambda>t. t\<lparr>tHsm := map_option (AddPeerKID (cpPubKey peer) (cpKID peer)) (tHsm t)\<rparr>)) (\<lambda>_.
     bindS (callS KindNetwork ''%v'' (PlanRouting P [rtPeer peer] (oHEMURL opts))) (\<lambda>plan.
     bindS (mapErrS (\<lambda>_. Fail KindDevice ''%v'' []) (onPins (Pins_Add P (Endpoints plan)))) (\<lambda>_.
     bindS (readS (\<lambda>t.
       if tPeer t = None then callS KindDevice ''configuring the tunnel: %v'' (IpcSet P (uapiConfig (oTree opts) peer psk))
       else bindS (callS KindDevice ''installing routes: %v'' (AddRoutes P (tIfname t) (AllowedIPs (cpPeer peer)))) (\<lambda>_.
         callS KindDevice ''configuring the tunnel: %v'' (IpcSet P (uapiReplacePeer peer psk))))) (\<lambda>_.
       updS (\<lambda>t. t\<lparr>tPeer := Some peer, tPsk := psk, hemInside := HEMInside plan, hemHost := planHEMHost plan\<rparr>))))))"

definition allowedIPsDiffer :: "ConfigPeer \<Rightarrow> ConfigPeer \<Rightarrow> string list" where
  "allowedIPsDiffer old new =
     (let claimed = map PrefixString (AllowedIPs (cpPeer new)) in
      filter (\<lambda>a. a \<notin> set claimed) (map PrefixString (AllowedIPs (cpPeer old))))"

definition configureInterface :: "'w Client \<Rightarrow> 'w Platform \<Rightarrow> Opts \<Rightarrow> ('w \<times> Tunnel, error, unit) io" where
  "configureInterface c P opts =
     bindS (readS (\<lambda>t. callS KindDevice ''bringing %s up: %v'' (ifUp P (tIfname t) (Addrs (Iface (oTree opts)))))) (\<lambda>_.
     bindS (readS (\<lambda>t. callS KindDevice ''setting the MTU: %v'' (SetMTU P (tIfname t) (unat (Tree_MTU (oTree opts)))))) (\<lambda>_.
     bindS (readS (\<lambda>t. case tPeer t of
              None \<Rightarrow> failS Panic
            | Some p \<Rightarrow> callS KindDevice ''installing routes: %v'' (AddRoutes P (tIfname t) (AllowedIPs (cpPeer p))))) (\<lambda>_.
     bindS (if dnsServers (oTree opts) = [] then returnS ()
            else bindS (readS (\<lambda>t. callS KindDevice ''setting DNS: %v'' (SetDNS P (tIfname t) (dnsServers (oTree opts))))) (\<lambda>_.
              updS (\<lambda>t. t\<lparr>dnsSet := True\<rparr>))) (\<lambda>_.
       readS (\<lambda>t. if hemInside t then callS KindNetwork ''%v'' (ProbeHEM c (hemHost t)) else returnS ())))))"

subsection \<open>Going down\<close>

definition teardown :: "'w Platform \<Rightarrow> ('w \<times> Tunnel, error, unit) io" where
  "teardown P =
     bindS (readS (\<lambda>t. if dnsSet t then ignoreS (onDevice (RevertDNS P (tIfname t))) else returnS ())) (\<lambda>_.
     bindS (readS (\<lambda>t. if tDev t then ignoreS (onDevice (devClose P)) else returnS ())) (\<lambda>_.
     bindS (readS (\<lambda>t. ignoreS (onDevice (ifDown P (tIfname t))))) (\<lambda>_.
     bindS (readS (\<lambda>t. if tPins t = None then returnS () else onPins (Pins_Restore P))) (\<lambda>_.
     bindS (updS (\<lambda>t. t\<lparr>tPsk := Zero (tPsk t)\<rparr>)) (\<lambda>_.
     bindS (readS (\<lambda>t. ignoreS (onDevice (RemoveFile P (pubPath (tIfname t)))))) (\<lambda>_.
       readS (\<lambda>t. onDevice (RemoveState P (tIfname t)))))))))"

subsection \<open>Waiting for a peer to answer\<close>

text \<open>
  \<open>Ending\<close> is the closed channel \<open>ending\<close>: a signal, a lost listener, a closed device, a
  cancelled context or a dead device session.  \<open>Tick\<close> carries what the interface then
  answers, nothing when it does not.
\<close>

datatype event = Ending | Deadline | Tick "DeviceStatus option"

definition handshaken :: "DeviceStatus \<Rightarrow> bool" where
  "handshaken st \<longleftrightarrow> list_ex (\<lambda>p. LastHandshake p \<noteq> None) (stPeers st)"

fun awaitHandshake :: "event list \<Rightarrow> (bool \<times> event list) option" where
  "awaitHandshake [] = None"
| "awaitHandshake (Ending # es) = Some (False, Ending # es)"
| "awaitHandshake (Deadline # es) = Some (False, es)"
| "awaitHandshake (Tick None # es) = awaitHandshake es"
| "awaitHandshake (Tick (Some st) # es) = (if handshaken st then Some (True, es) else awaitHandshake es)"

lemma awaitHandshake_shorter:
  "awaitHandshake es = Some (b, es') \<Longrightarrow> es' \<noteq> [] \<and> hd es' = Ending \<or> length es' < length es"
  by (induction es rule: awaitHandshake.induct) (auto split: if_splits)

text \<open>Whoever answers failover keeps a state of its own.\<close>

type_synonym 's Select = "Tree \<Rightarrow> ConfigPeer option \<Rightarrow> 's \<Rightarrow> (error + ConfigPeer) \<times> 's"

definition WalkPeers :: "(string \<Rightarrow> bool) Select" where
  "WalkPeers tree failed tried =
     (let tried = (case failed of None \<Rightarrow> tried | Some p \<Rightarrow> tried(cpKID p := True)) in
      case find (\<lambda>p. \<not> tried (cpKID p)) (Peers tree) of
        Some p \<Rightarrow> (Inr p, tried)
      | None \<Rightarrow> (Inl (Fail KindNetwork ''no peer answered: %s, each given %s'' []), tried))"

definition newPeerState :: "State \<Rightarrow> ConfigPeer \<Rightarrow> State" where
  "newPeerState st p = st\<lparr>sPeerKID := cpKID p, sPeerLabel := cpLabel p,
     sEndpoint := Endpoint_String (peerEndpoint (cpPeer p))\<rparr>"

text \<open>The result is absent while the tunnel is still up.\<close>

function hold :: "'w Client \<Rightarrow> 'w Platform \<Rightarrow> Env \<Rightarrow> Opts \<Rightarrow> 's Select \<Rightarrow> event list \<Rightarrow> 's \<Rightarrow> State \<Rightarrow> 'w \<times> Tunnel \<Rightarrow>
    (error + unit) option \<times> 's \<times> 'w \<times> Tunnel" where
  "hold c P E opts sel es x st s =
     (if blind (snd s) then (if Ending \<in> set es then Some (Inr ()) else None, x, s)
      else case awaitHandshake es of
          None \<Rightarrow> (None, x, s)
        | Some (True, es') \<Rightarrow> (if Ending \<in> set es' then Some (Inr ()) else None, x, s)
        | Some (False, es') \<Rightarrow>
            if es' \<noteq> [] \<and> hd es' = Ending then (Some (Inr ()), x, s)
            else (case tPeer (snd s) of
                None \<Rightarrow> (Some (Inl Panic), x, s)
              | Some failed \<Rightarrow>
                  (case sel (oTree opts) (Some failed) x of
                     (Inl e, x') \<Rightarrow> (Some (Inl e), x', s)
                   | (Inr next, x') \<Rightarrow>
                       (case usePeer c P opts next s of
                          (Inl e, s') \<Rightarrow> (Some (Inl e), x', s')
                        | (Inr _, s') \<Rightarrow>
                            (let st' = newPeerState st next in
                             hold c P E opts sel es' x' st' (snd (onDevice (Save (eJSON E) P st') s')))))))"
  by pat_completeness auto
termination
  by (relation "measure (\<lambda>(c, P, E, opts, sel, es, x, st, s). length es)")
    (auto dest: awaitHandshake_shorter)

declare hold.simps [simp del]

subsection \<open>A run\<close>

definition initialState :: "Env \<Rightarrow> Opts \<Rightarrow> ConfigPeer \<Rightarrow> string \<Rightarrow> State" where
  "initialState E opts peer ifname =
     \<lparr>sPID = ePID E, sInterface = ifname, sIfKID = IfKID (oTree opts), sPeerKID = cpKID peer,
      sPeerLabel = cpLabel peer, sEndpoint = Endpoint_String (peerEndpoint (cpPeer peer)),
      sHEMURL = oHEMURL opts, sStarted = eNow E, sTokenExpiry = eTokenExpiry E (oUseTok opts)\<rparr>"

text \<open>A listener that does not open is a loss of sight, not an error.\<close>

definition listenUAPI :: "'w Platform \<Rightarrow> ('w \<times> Tunnel, error, unit) io" where
  "listenUAPI P =
     (\<lambda>(w, t). case UAPIListen P (tIfname t) w of
        (Inl _, w') \<Rightarrow> (Inr (), (w', t\<lparr>blind := True\<rparr>))
      | (Inr _, w') \<Rightarrow> (Inr (), (w', t)))"

text \<open>From the chosen peer to the listener; every error on the way is torn down after.\<close>

definition comeUp :: "'w Client \<Rightarrow> 'w Platform \<Rightarrow> Env \<Rightarrow> Opts \<Rightarrow> ConfigPeer \<Rightarrow> ('w \<times> Tunnel, error, State) io" where
  "comeUp c P E opts peer =
     bindS (usePeer c P opts peer) (\<lambda>_.
     bindS (configureInterface c P opts) (\<lambda>_.
       readS (\<lambda>t. let st = initialState E opts peer (tIfname t) in
         bindS (callS KindDevice ''recording the interface state: %v'' (Save (eJSON E) P st)) (\<lambda>_.
         bindS (listenUAPI P) (\<lambda>_. returnS st)))))"

definition Tunnel_Run :: "'w Client \<Rightarrow> 'w Platform \<Rightarrow> Env \<Rightarrow> Opts \<Rightarrow> 's Select \<Rightarrow> event list \<Rightarrow> 's \<Rightarrow> ConfigPeer \<Rightarrow>
    'w \<times> Tunnel \<Rightarrow> (error + unit) option \<times> 's \<times> 'w \<times> Tunnel" where
  "Tunnel_Run c P E opts sel es x peer s =
     (case openDevice c P opts s of
        (Inl e, s1) \<Rightarrow> (Some (Inl e), x, s1)
      | (Inr _, s1) \<Rightarrow>
          (case bindS (updS (\<lambda>t. t\<lparr>tPins := Some []\<rparr>)) (\<lambda>_. comeUp c P E opts peer) s1 of
             (Inl e, s2) \<Rightarrow> (Some (Inl e), x, snd (teardown P s2))
           | (Inr st, s2) \<Rightarrow>
               (case hold c P E opts sel es x st s2 of
                  (None, x', s3) \<Rightarrow> (None, x', s3)
                | (Some r, x', s3) \<Rightarrow> (Some r, x', snd (teardown P s3)))))"

end
