(* ===== verification/Failover.thy ===== *)
theory Failover
  imports Tunnel
begin

text \<open>
  Properties of \<open>hold\<close> and of the two ways to answer it: the walk over the stored order and the
  prompt of \<open>cmd/wg-hem/failover.go\<close>, which is modelled here.  The locale
  \<open>peer_selector\<close> is the contract between the tunnel and whoever chooses.
\<close>

subsection \<open>Failover stays in the configuration\<close>

lemma readS_keeps [keeps_intros]: "(\<And>t. keeps I (f t)) \<Longrightarrow> keeps I (readS f)"
  by (simp add: keeps_def readS_def)

lemma callS_keeps [keeps_intros]: "keeps I (onDevice m) \<Longrightarrow> keeps I (callS k msg m)"
  unfolding callS_def by (rule keeps_mapErrS)

lemma ignoreS_keeps [keeps_intros]: "keeps I m \<Longrightarrow> keeps I (ignoreS m)"
  by (simp add: keeps_def ignoreS_def)

text \<open>Invariants of the tunnel's own fields: a device or platform call leaves them alone.\<close>

definition onTunnel :: "(Tunnel \<Rightarrow> bool) \<Rightarrow> 'w \<times> Tunnel \<Rightarrow> bool" where
  "onTunnel I s \<longleftrightarrow> I (snd s)"

lemma onTunnel_onDevice [keeps_intros]: "keeps (onTunnel I) (onDevice m)"
  by (auto simp: keeps_def onTunnel_def onDevice_def split: prod.splits)

lemma onTunnel_updS [keeps_intros]: "(\<And>t. I t \<Longrightarrow> I (f t)) \<Longrightarrow> keeps (onTunnel I) (updS f)"
  by (auto simp: keeps_def onTunnel_def updS_def)

lemma onTunnel_onPins [keeps_intros]: "(\<And>t ps. I t \<Longrightarrow> I (t\<lparr>tPins := Some ps\<rparr>)) \<Longrightarrow> keeps (onTunnel I) (onPins m)"
  by (auto simp: keeps_def onTunnel_def onPins_def split: prod.splits option.splits)

lemma usePeer_keeps:
  assumes "\<And>t h. I t \<Longrightarrow> I (t\<lparr>tHsm := h\<rparr>)" "\<And>t ps. I t \<Longrightarrow> I (t\<lparr>tPins := Some ps\<rparr>)"
    and "\<And>t psk i h. I t \<Longrightarrow> I (t\<lparr>tPeer := Some peer, tPsk := psk, hemInside := i, hemHost := h\<rparr>)"
  shows "keeps (onTunnel I) (usePeer c P opts peer)"
  unfolding usePeer_def Let_def by (intro keeps_intros assms)

lemma usePeer_Inr:
  assumes "usePeer c P opts peer s = (Inr u, s')"
  shows "tPeer (snd s') = Some peer" and "blind (snd s') = blind (snd s)"
proof -
  show "tPeer (snd s') = Some peer"
    using assms unfolding usePeer_def Let_def by (auto simp: result_inv)
  have "keeps (onTunnel (\<lambda>t. blind t = blind (snd s))) (usePeer c P opts peer)"
    by (rule usePeer_keeps) simp_all
  from keepsD [OF this _ assms] show "blind (snd s') = blind (snd s)" by (simp add: onTunnel_def)
qed

definition inTree :: "Tree \<Rightarrow> Tunnel \<Rightarrow> bool" where
  "inTree tree t \<longleftrightarrow> (\<forall>p. tPeer t = Some p \<longrightarrow> p \<in> set (Peers tree))"

lemma inTree_simps [simp]:
  "inTree tree (t\<lparr>tHsm := h\<rparr>) = inTree tree t" "inTree tree (t\<lparr>tPins := ps\<rparr>) = inTree tree t"
  "inTree tree (t\<lparr>tIfname := n, tDev := b\<rparr>) = inTree tree t" "inTree tree (t\<lparr>dnsSet := b\<rparr>) = inTree tree t"
  "inTree tree (t\<lparr>blind := b\<rparr>) = inTree tree t" "inTree tree (t\<lparr>tPsk := k\<rparr>) = inTree tree t"
  by (simp_all add: inTree_def)

lemma usePeer_inTree: "p \<in> set (Peers tree) \<Longrightarrow> keeps (onTunnel (inTree tree)) (usePeer c P opts p)"
  by (rule usePeer_keeps) (simp_all add: inTree_def)

lemma hold_keeps:
  assumes u: "\<And>f x p x'. sel (oTree opts) f x = (Inr p, x') \<Longrightarrow> keeps I (usePeer c P opts p)"
    and v: "\<And>st. keeps I (onDevice (Save (eJSON E) P st))"
  shows "I s \<Longrightarrow> I (snd (snd (hold c P E opts sel es x st s)))"
proof (induction es arbitrary: x st s rule: length_induct)
  case (1 es)
  let ?h = "hold c P E opts sel"
  show ?case
  proof (cases "\<not> blind (snd s) \<and> (\<exists>es' f q x'. awaitHandshake es = Some (False, es') \<and> \<not> (es' \<noteq> [] \<and> hd es' = Ending) \<and>
      tPeer (snd s) = Some f \<and> sel (oTree opts) (Some f) x = (Inr q, x'))")
    case False
    with 1(2) show ?thesis
      by (subst hold.simps) (auto split: option.splits prod.splits sum.splits bool.splits)
  next
    case True
    then obtain es' f q x' where a: "awaitHandshake es = Some (False, es')" "\<not> (es' \<noteq> [] \<and> hd es' = Ending)"
      and f: "tPeer (snd s) = Some f" and q: "sel (oTree opts) (Some f) x = (Inr q, x')" and b: "\<not> blind (snd s)" by blast
    have len: "length es' < length es" using awaitHandshake_shorter [OF a(1)] a(2) by blast
    obtain r s1 where r: "usePeer c P opts q s = (r, s1)" by (metis surj_pair)
    have s1: "I s1" by (rule keepsD [OF u [OF q] 1(2) r])
    have "I (snd (onDevice (Save (eJSON E) P (newPeerState st q)) s1))"
      using v [of "newPeerState st q", unfolded keeps_def] s1 by blast
    with 1(1) len have "I (snd (snd (?h es' x' (newPeerState st q) (snd (onDevice (Save (eJSON E) P (newPeerState st q)) s1)))))"
      by blast
    then show ?thesis
      using a f q b r s1 by (subst hold.simps) (auto simp: Let_def split: sum.splits)
  qed
qed

text \<open>
  What the tunnel relies on in whoever answers failover: the answer is one of the peers of
  the tree that was handed over.
\<close>

locale peer_selector =
  fixes sel :: "'s Select"
  assumes offered: "sel tree failed x = (Inr p, x') \<Longrightarrow> p \<in> set (Peers tree)"
begin

lemma hold_inTree:
  assumes "inTree (oTree opts) (snd s)"
  shows "inTree (oTree opts) (snd (snd (snd (hold c P E opts sel es x st s))))"
proof -
  have "onTunnel (inTree (oTree opts)) (snd (snd (hold c P E opts sel es x st s)))"
  proof (rule hold_keeps)
    show "keeps (onTunnel (inTree (oTree opts))) (usePeer c P opts p)" if "sel (oTree opts) f x = (Inr p, x')" for f x p x'
      by (rule usePeer_inTree [OF offered [OF that]])
    show "onTunnel (inTree (oTree opts)) s" using assms by (simp add: onTunnel_def)
  qed (rule onTunnel_onDevice)
  then show ?thesis by (simp add: onTunnel_def)
qed

end

lemma teardown_inTree: "keeps (onTunnel (inTree tree)) (teardown P)"
  unfolding teardown_def by (intro keeps_intros) simp_all

lemma openDevice_inTree: "keeps (onTunnel (inTree tree)) (openDevice c P opts)"
  unfolding openDevice_def by (intro keeps_intros) simp_all

lemma listen_inTree [keeps_intros]: "keeps (onTunnel (inTree tree)) (listenUAPI P)"
  by (auto simp: keeps_def onTunnel_def listenUAPI_def split: prod.splits sum.splits)

lemma comeUp_inTree: "p \<in> set (Peers tree) \<Longrightarrow> keeps (onTunnel (inTree tree)) (comeUp c P E opts p)"
  unfolding comeUp_def configureInterface_def Let_def by (intro keeps_intros usePeer_inTree) simp_all

context peer_selector
begin

lemma Run_inTree:
  assumes "peer \<in> set (Peers (oTree opts))"
  shows "inTree (oTree opts) (snd (snd (snd (Tunnel_Run c P E opts sel es x peer (w, New opts)))))"
proof -
  let ?I = "onTunnel (inTree (oTree opts))"
  have 0: "?I (w, New opts)" by (simp add: onTunnel_def inTree_def New_def)
  obtain r s1 where o: "openDevice c P opts (w, New opts) = (r, s1)" by (metis surj_pair)
  have 1: "?I s1" by (rule keepsD [OF openDevice_inTree 0 o])
  have k: "keeps ?I (bindS (updS (\<lambda>t. t\<lparr>tPins := Some []\<rparr>)) (\<lambda>_. comeUp c P E opts peer))"
    using comeUp_inTree [OF assms] by (intro keeps_intros) simp_all
  obtain r2 s2 where u: "bindS (updS (\<lambda>t. t\<lparr>tPins := Some []\<rparr>)) (\<lambda>_. comeUp c P E opts peer) s1 = (r2, s2)"
    by (metis surj_pair)
  have 2: "?I s2" by (rule keepsD [OF k 1 u])
  have td: "?I (snd (teardown P s))" if "?I s" for s
    using teardown_inTree that unfolding keeps_def by blast
  have 3: "?I (snd (snd (hold c P E opts sel es x st s2)))" for st
    using hold_inTree [of opts s2] 2 by (simp add: onTunnel_def)
  have "?I (snd (snd (Tunnel_Run c P E opts sel es x peer (w, New opts))))"
  proof (cases r)
    case Inl
    with 1 o show ?thesis by (simp add: Tunnel_Run_def)
  next
    case r: (Inr v)
    show ?thesis
    proof (cases r2)
      case Inl
      with td [OF 2] o u r show ?thesis by (simp add: Tunnel_Run_def)
    next
      case (Inr st)
      obtain q x' s3 where h: "hold c P E opts sel es x st s2 = (q, x', s3)" by (metis prod_cases3)
      with 3 [of st] have "?I s3" by simp
      with td [OF this] o u r Inr h show ?thesis by (cases q) (simp_all add: Tunnel_Run_def)
    qed
  qed
  then show ?thesis by (simp add: onTunnel_def)
qed

end


text \<open>
  The interactive answer (\<open>cmd/wg-hem/failover.go\<close>): the next peer in the stored order is
  suggested and an empty line takes it.  The state is what the terminal will answer.
\<close>

definition suggestion :: "Tree \<Rightarrow> ConfigPeer \<Rightarrow> nat" where
  "suggestion tree failed =
     (case find (\<lambda>i. cpKID (Peers tree ! i) = cpKID failed) [0..<length (Peers tree)] of
        None \<Rightarrow> 1
      | Some i \<Rightarrow> Suc i mod length (Peers tree) + 1)"

definition repromptPeer :: "(error + string) list Select" where
  "repromptPeer tree failed answers =
     (case failed of
        None \<Rightarrow> (Inl Panic, answers)
      | Some f \<Rightarrow>
          (case answers of
             [] \<Rightarrow> (Inl (failf exitNetwork ''peer %q is not responding and there is nobody to ask: %w'' []), [])
           | Inl e # rest \<Rightarrow>
               (Inl (failf exitNetwork ''peer %q is not responding and there is nobody to ask: %w'' [e]), rest)
           | Inr line # rest \<Rightarrow>
               (let line = TrimSpace line in
                if line = [] then
                  (if Peers tree = [] then (Inl Panic, rest) else (Inr (Peers tree ! (suggestion tree f - 1)), rest))
                else case Atoi line of
                    None \<Rightarrow> (Inl (failf exitUsage ''%q is not one of the %d peers offered'' []), rest)
                  | Some n \<Rightarrow>
                      if n < 1 \<or> n > int (length (Peers tree))
                      then (Inl (failf exitUsage ''%q is not one of the %d peers offered'' []), rest)
                      else (Inr (Peers tree ! nat (n - 1)), rest))))"

lemma suggestion_less: "Peers tree \<noteq> [] \<Longrightarrow> suggestion tree f - Suc 0 < length (Peers tree)"
  by (auto simp: suggestion_def split: option.splits)

interpretation walk: peer_selector WalkPeers
  by unfold_locales (auto simp: WalkPeers_def Let_def dest: find_SomeD split: option.splits)

interpretation reprompt: peer_selector repromptPeer
  by unfold_locales
    (auto simp: repromptPeer_def Let_def nth_mem suggestion_less split: option.splits list.splits sum.splits if_splits)

text \<open>
  C16: a tunnel only ever points at a peer of the configuration it was opened with, whichever
  events arrive in whichever order, and whether the stored order is walked or somebody at a
  terminal answers.  With a loaded tree this is a peer the device has authenticated.
\<close>

theorem tunnel_stays_in_the_configuration:
  assumes "peer \<in> set (Peers (oTree opts))"
  shows "inTree (oTree opts) (snd (snd (snd (Tunnel_Run c P E opts WalkPeers es tried peer (w, New opts))))) \<and>
    inTree (oTree opts) (snd (snd (snd (Tunnel_Run c P E opts repromptPeer es answers peer (w, New opts)))))"
  by (rule conjI [OF walk.Run_inTree [OF assms] reprompt.Run_inTree [OF assms]])

subsection \<open>The walk ends\<close>

definition untried :: "Tree \<Rightarrow> (string \<Rightarrow> bool) \<Rightarrow> nat" where
  "untried tree tried = length (filter (\<lambda>p. \<not> tried (cpKID p)) (Peers tree))"

definition quiet :: "event \<Rightarrow> bool" where
  "quiet e \<longleftrightarrow> (case e of Ending \<Rightarrow> False | Deadline \<Rightarrow> True | Tick None \<Rightarrow> True | Tick (Some st) \<Rightarrow> \<not> handshaken st)"

definition deadlines :: "event list \<Rightarrow> nat" where
  "deadlines es = length (filter (\<lambda>e. e = Deadline) es)"

lemma await_quiet:
  "\<forall>e \<in> set es. quiet e \<Longrightarrow> deadlines es > 0 \<Longrightarrow>
   \<exists>es'. awaitHandshake es = Some (False, es') \<and> (\<forall>e \<in> set es'. quiet e) \<and> deadlines es = Suc (deadlines es')"
  by (induction es rule: awaitHandshake.induct) (auto simp: quiet_def deadlines_def)

lemma untried_less:
  assumes "p \<in> set (Peers tree)" and "\<not> tried (cpKID p)"
  shows "untried tree (tried(cpKID p := True)) < untried tree tried"
proof -
  have "filter (\<lambda>q. \<not> (tried(cpKID p := True)) (cpKID q)) (Peers tree) =
      filter (\<lambda>q. cpKID q \<noteq> cpKID p) (filter (\<lambda>q. \<not> tried (cpKID q)) (Peers tree))"
    by (auto simp: filter_filter intro!: filter_cong)
  moreover have "length (filter (\<lambda>q. cpKID q \<noteq> cpKID p) (filter (\<lambda>q. \<not> tried (cpKID q)) (Peers tree))) <
      length (filter (\<lambda>q. \<not> tried (cpKID q)) (Peers tree))"
    using assms by (intro length_filter_less [where x = p]) auto
  ultimately show ?thesis by (simp add: untried_def)
qed

lemma WalkPeers_next:
  "WalkPeers tree (Some f) tried =
     (case find (\<lambda>p. \<not> (tried(cpKID f := True)) (cpKID p)) (Peers tree) of
        Some p \<Rightarrow> (Inr p, tried(cpKID f := True))
      | None \<Rightarrow> (Inl (Fail KindNetwork ''no peer answered: %s, each given %s'' []), tried(cpKID f := True)))"
  by (simp add: WalkPeers_def Let_def)

text \<open>
  A peer that can be configured: in any state of a run that has its set of pins, which \<open>Run\<close>
  makes before the first peer is used and keeps to the end.
\<close>

definition usable :: "'w Client \<Rightarrow> 'w Platform \<Rightarrow> Opts \<Rightarrow> ConfigPeer \<Rightarrow> bool" where
  "usable c P opts q \<longleftrightarrow> (\<forall>w t. tPins t \<noteq> None \<longrightarrow> isOk (fst (usePeer c P opts q (w, t))))"

definition allUsable :: "'w Client \<Rightarrow> 'w Platform \<Rightarrow> Opts \<Rightarrow> Tunnel \<Rightarrow> bool" where
  "allUsable c P opts t \<longleftrightarrow> tPins t \<noteq> None \<and> (\<forall>q \<in> set (Peers (oTree opts)). usable c P opts q)"

lemma usePeer_pins: "keeps (onTunnel (\<lambda>t. tPins t \<noteq> None)) (usePeer c P opts q)"
  by (rule usePeer_keeps) simp_all

lemma walk_ends:
  assumes "\<not> blind (snd s)" and "tPeer (snd s) = Some p" and "p \<in> set (Peers (oTree opts))" and "\<not> tried (cpKID p)"
    and "\<forall>e \<in> set es. quiet e" and "untried (oTree opts) tried \<le> deadlines es"
  shows "\<exists>e tried' s'. hold c P E opts WalkPeers es tried st s = (Some (Inl e), tried', s') \<and>
     (allUsable c P opts (snd s) \<longrightarrow>
        e = Fail KindNetwork ''no peer answered: %s, each given %s'' [] \<and> (\<forall>q \<in> set (Peers (oTree opts)). tried' (cpKID q)))"
  using assms
proof (induction es arbitrary: s st p tried rule: length_induct)
  case (1 es)
  let ?tree = "oTree opts" and ?tried = "tried(cpKID p := True)"
  have less: "untried ?tree ?tried < untried ?tree tried" using untried_less [of p ?tree tried] 1(4,5) by simp
  with 1(7) have "deadlines es > 0" by simp
  from await_quiet [OF 1(6) this] obtain es' where a: "awaitHandshake es = Some (False, es')"
    and es': "\<forall>e \<in> set es'. quiet e" "deadlines es = Suc (deadlines es')" by blast
  have noend: "\<not> (es' \<noteq> [] \<and> hd es' = Ending)"
    using es'(1) by (cases es') (auto simp: quiet_def)
  have len: "length es' < length es" using awaitHandshake_shorter [OF a] noend by blast
  show ?case
  proof (cases "find (\<lambda>q. \<not> ?tried (cpKID q)) (Peers ?tree)")
    case None
    then have "\<forall>q \<in> set (Peers ?tree). ?tried (cpKID q)" by (auto simp: find_None_iff)
    with None show ?thesis
      by (subst hold.simps) (simp add: 1(2,3) a noend WalkPeers_next)
  next
    case (Some q)
    from find_SomeD [OF Some] have q: "q \<in> set (Peers ?tree)" "\<not> ?tried (cpKID q)" by auto
    obtain r s1 where u: "usePeer c P opts q s = (r, s1)" by (metis surj_pair)
    show ?thesis
    proof (cases r)
      case (Inl e)
      with u have "\<not> isOk (fst (usePeer c P opts q (fst s, snd s)))" by simp
      with q(1) have "\<not> allUsable c P opts (snd s)" unfolding allUsable_def usable_def by blast
      with Some u Inl show ?thesis
        by (subst hold.simps) (auto simp: 1(2,3) a noend WalkPeers_next)
    next
      case (Inr v)
      let ?s = "snd (onDevice (Save (eJSON E) P (newPeerState st q)) s1)"
      have t: "snd ?s = snd s1" by (cases s1) (simp add: onDevice_def split: prod.splits)
      have keep: "allUsable c P opts (snd s) \<Longrightarrow> allUsable c P opts (snd ?s)"
        using keepsD [OF usePeer_pins _ u] by (simp add: allUsable_def onTunnel_def t)
      have "\<exists>e tried' s'. hold c P E opts WalkPeers es' ?tried (newPeerState st q) ?s = (Some (Inl e), tried', s') \<and>
          (allUsable c P opts (snd ?s) \<longrightarrow>
            e = Fail KindNetwork ''no peer answered: %s, each given %s'' [] \<and> (\<forall>q \<in> set (Peers ?tree). tried' (cpKID q)))"
        using 1(1) [rule_format, OF len, of ?s q ?tried "newPeerState st q"] usePeer_Inr [OF u [unfolded Inr]] 1(2,7) t q es' less
        by simp
      with Some u Inr keep show ?thesis
        by (subst hold.simps) (simp add: 1(2,3) a noend WalkPeers_next Let_def, blast)
    qed
  qed
qed

text \<open>
  C14: the walk gives up.  From any state on a peer of the configuration, events that bring
  neither a handshake nor an ending, with as many deadlines among them as there are peers,
  end the run with an error; and when the run has its pins and every peer of the
  configuration can be configured, the error is a network error and every peer has had its
  turn.
\<close>

theorem failover_walk_ends:
  assumes "\<not> blind (snd s)" and "tPeer (snd s) = Some p" and "p \<in> set (Peers (oTree opts))"
    and "\<forall>e \<in> set es. quiet e" and "length (Peers (oTree opts)) \<le> deadlines es"
  shows "\<exists>e tried s'. hold c P E opts WalkPeers es (\<lambda>_. False) st s = (Some (Inl e), tried, s') \<and>
     (allUsable c P opts (snd s) \<longrightarrow>
        KindOf e = KindNetwork \<and> (\<forall>q \<in> set (Peers (oTree opts)). tried (cpKID q)))"
proof -
  have "untried (oTree opts) (\<lambda>_. False) \<le> deadlines es" using assms(5) by (simp add: untried_def)
  from walk_ends [OF assms(1-3) _ assms(4) this, of c P E st] obtain e tried s' where
    "hold c P E opts WalkPeers es (\<lambda>_. False) st s = (Some (Inl e), tried, s')"
    "allUsable c P opts (snd s) \<longrightarrow>
       e = Fail KindNetwork ''no peer answered: %s, each given %s'' [] \<and> (\<forall>q \<in> set (Peers (oTree opts)). tried (cpKID q))"
    by blast
  then show ?thesis by (auto simp: KindOf_def AsSessionError_def Fail_def)
qed

definition exampleOpts :: Opts where
  "exampleOpts = \<lparr>oTree = exampleTree zeroMAC, oUseTok = ''t'', oHEMURL = ''hem'', oIfname = ''wg0''\<rparr>"

definition exampleEnv :: Env where
  "exampleEnv = \<lparr>ePID = 1, eNow = 0, eTokenExpiry = (\<lambda>_. 0), eJSON = (\<lambda>_. [])\<rparr>"

definition exampleState :: State where
  "exampleState = initialState exampleEnv exampleOpts (hd (Peers (exampleTree zeroMAC))) ''wg0''"

text \<open>A run over two peers without a pre-shared key, on a platform that does all it is asked.\<close>

definition walkPeer :: "string \<Rightarrow> ConfigPeer" where
  "walkPeer kid = (hd (Peers (exampleTree zeroMAC)))\<lparr>cpKID := kid, cpPeer := (canonPeer examplePeer)\<lparr>PSKWrapped := []\<rparr>\<rparr>"

definition walkOpts :: Opts where
  "walkOpts = exampleOpts\<lparr>oTree := (exampleTree zeroMAC)\<lparr>Peers := [walkPeer ''a'', walkPeer ''b'']\<rparr>\<rparr>"

definition walkTunnel :: Tunnel where
  "walkTunnel = (New walkOpts)\<lparr>tPins := Some [], tPeer := Some (walkPeer ''a'')\<rparr>"

lemma example_plans: "\<exists>plan. PlanRouting examplePlatform peers ''hem'' w = (Inr plan, w)"
proof -
  have r: "\<exists>as. resolveHost examplePlatform h w = (Inr as, w)" for h
    by (cases "ParseAddr h") (simp_all add: resolveHost_def examplePlatform_def bindS_apply)
  have "\<exists>eps'. planEndpoints examplePlatform peers rest eps w = (Inr eps', w)" for rest eps
  proof (induction rest arbitrary: eps)
    case (Cons q rest)
    obtain as where "resolveHost examplePlatform (HostOf (rpEndpoint q)) w = (Inr as, w)" using r by blast
    with Cons show ?case by (simp add: bindS_apply mapErrS_def)
  qed simp
  then obtain eps where "planEndpoints examplePlatform peers peers [] w = (Inr eps, w)" by blast
  moreover obtain as where "resolveHost examplePlatform ''hem'' w = (Inr as, w)" using r by blast
  ultimately show ?thesis by (simp add: PlanRouting_def bindS_apply mapErrS_def example_HEMHost)
qed

lemma example_pins: "\<exists>ps'. Pins_Add examplePlatform as (w, ps) = (Inr (), (w, ps'))"
  by (induction as arbitrary: ps) (simp_all add: bindS_apply mapErrS_def onDevice_def updS_def examplePlatform_def)

lemma example_usable:
  fixes c :: "'w Client"
  assumes "PSKWrapped (cpPeer q) = []" and "oHEMURL opts = ''hem''"
  shows "usable c examplePlatform opts q"
  unfolding usable_def
proof (intro allI impI)
  fix w :: 'w and t :: Tunnel assume "tPins t \<noteq> None"
  then obtain ps where ps: "tPins t = Some ps" by auto
  obtain plan where "PlanRouting examplePlatform [rtPeer q] ''hem'' w = (Inr plan, w)" using example_plans [of "[rtPeer q]" w] by auto
  moreover obtain ps' where "Pins_Add examplePlatform (Endpoints plan) (w, ps) = (Inr (), (w, ps'))" using example_pins [of "Endpoints plan" w ps] by auto
  moreover have "IpcSet examplePlatform x w = (Inr (), w)" "AddRoutes examplePlatform n as w = (Inr (), w)" for x n as
    by (simp_all add: examplePlatform_def)
  ultimately show "isOk (fst (usePeer c examplePlatform opts q (w, t)))" using ps assms
    by (cases "tPeer t") (simp_all add: usePeer_def UnwrapPSK_def bindS_apply mapErrS_def onDevice_def updS_def readS_def
      callS_def onPins_def Let_def)
qed

theorem failover_walk_ends_witness:
  "\<exists>e tried s'. hold (deafClient :: unit Client) examplePlatform exampleEnv walkOpts WalkPeers
     [Tick None, Deadline, Tick (Some \<lparr>stListenPort = 0, stPeers = []\<rparr>), Deadline] (\<lambda>_. False) exampleState ((), walkTunnel)
     = (Some (Inl e), tried, s') \<and> KindOf e = KindNetwork \<and> tried ''a'' \<and> tried ''b''"
proof -
  let ?es = "[Tick None, Deadline, Tick (Some \<lparr>stListenPort = 0, stPeers = []\<rparr>), Deadline]"
  have ps: "Peers (oTree walkOpts) = [walkPeer ''a'', walkPeer ''b'']" by (simp add: walkOpts_def)
  have "allUsable deafClient (examplePlatform :: unit Platform) walkOpts (snd ((), walkTunnel))"
    by (simp add: allUsable_def ps example_usable walkPeer_def walkTunnel_def walkOpts_def exampleOpts_def)
  moreover have "\<not> blind (snd ((), walkTunnel))" "tPeer (snd ((), walkTunnel)) = Some (walkPeer ''a'')"
    "walkPeer ''a'' \<in> set (Peers (oTree walkOpts))" "\<forall>e \<in> set ?es. quiet e" "length (Peers (oTree walkOpts)) \<le> deadlines ?es"
    by (simp_all add: ps walkTunnel_def New_def quiet_def handshaken_def deadlines_def)
  note failover_walk_ends [OF this, of deafClient examplePlatform exampleEnv exampleState]
  moreover have "cpKID (walkPeer kid) = kid" for kid by (simp add: walkPeer_def)
  ultimately show ?thesis by (simp add: ps)
qed

theorem tunnel_stays_in_the_configuration_witness:
  "inTree (oTree exampleOpts) (snd (snd (snd (Tunnel_Run (deafClient :: unit Client) examplePlatform exampleEnv
     exampleOpts WalkPeers [Deadline] (\<lambda>_. False) (hd (Peers (oTree exampleOpts))) ((), New exampleOpts)))))"
proof -
  have "hd (Peers (oTree exampleOpts)) \<in> set (Peers (oTree exampleOpts))"
    by (simp add: exampleOpts_def exampleTree_def)
  from conjunct1 [OF tunnel_stays_in_the_configuration [OF this]] show ?thesis .
qed

end
