(* ===== verification/Teardown.thy ===== *)
theory Teardown
  imports Failover
begin

text \<open>
  What a run of a tunnel does to the host, on a platform that keeps a log of it: every route
  that was pinned, the resolver setting, the device and the files.  The invariant of a run on
  its way is \<open>booked\<close>: the tunnel's own fields are the account of what has to be undone.
\<close>

subsection \<open>What a run leaves behind\<close>

fun addedPin :: "call \<Rightarrow> pinnedRoute option" where
  "addedPin (PinAdded a g i) = Some \<lparr>prAddr = a, prGw = g, prIface = i\<rparr>"
| "addedPin k = None"

fun removedPin :: "call \<Rightarrow> pinnedRoute option" where
  "removedPin (PinRemoved a g i) = Some \<lparr>prAddr = a, prGw = g, prIface = i\<rparr>"
| "removedPin k = None"

definition pinsAdded :: "call list \<Rightarrow> Pins" where "pinsAdded l = List.map_filter addedPin l"
definition pinsRemoved :: "call list \<Rightarrow> Pins" where "pinsRemoved l = List.map_filter removedPin l"

definition gaveDNS :: "call list \<Rightarrow> bool" where "gaveDNS l \<longleftrightarrow> (\<exists>n. DNSSet n \<in> set l)"
definition tookDNS :: "call list \<Rightarrow> bool" where "tookDNS l \<longleftrightarrow> (\<exists>n. DNSReverted n \<in> set l)"

lemma log_append [simp]:
  "pinsAdded (l @ l') = pinsAdded l @ pinsAdded l'" "pinsRemoved (l @ l') = pinsRemoved l @ pinsRemoved l'"
  "gaveDNS (l @ l') \<longleftrightarrow> gaveDNS l \<or> gaveDNS l'" "tookDNS (l @ l') \<longleftrightarrow> tookDNS l \<or> tookDNS l'"
  by (auto simp: pinsAdded_def pinsRemoved_def gaveDNS_def tookDNS_def map_filter_def)

lemma log_simps [simp]:
  "pinsAdded [] = []" "pinsRemoved [] = []" "\<not> gaveDNS []" "\<not> tookDNS []"
  "pinsAdded (k # l) = (case addedPin k of None \<Rightarrow> pinsAdded l | Some p \<Rightarrow> p # pinsAdded l)"
  "pinsRemoved (k # l) = (case removedPin k of None \<Rightarrow> pinsRemoved l | Some p \<Rightarrow> p # pinsRemoved l)"
  "gaveDNS (k # l) \<longleftrightarrow> (\<exists>n. k = DNSSet n) \<or> gaveDNS l" "tookDNS (k # l) \<longleftrightarrow> (\<exists>n. k = DNSReverted n) \<or> tookDNS l"
  by (auto simp: pinsAdded_def pinsRemoved_def gaveDNS_def tookDNS_def map_filter_simps split: option.splits)

lemma map_added [simp]: "pinsAdded (map added rs) = rs" "pinsRemoved (map added rs) = []"
  "\<not> gaveDNS (map added rs)" "\<not> tookDNS (map added rs)"
  by (induction rs) auto

lemma map_removed [simp]: "pinsRemoved (map removed rs) = rs" "pinsAdded (map removed rs) = []"
  "\<not> gaveDNS (map removed rs)" "\<not> tookDNS (map removed rs)"
  by (induction rs) auto

text \<open>
  The accounts of a tunnel on its way: the routes pinned so far are those it remembers, the
  flags say what was given and made, and nothing has been taken back yet.
\<close>

definition accounts :: "call list \<Rightarrow> Tunnel \<Rightarrow> bool" where
  "accounts l t \<longleftrightarrow> pinsAdded l = (case tPins t of None \<Rightarrow> [] | Some ps \<Rightarrow> ps) \<and> pinsRemoved l = [] \<and>
     (dnsSet t \<longleftrightarrow> gaveDNS l) \<and> \<not> tookDNS l \<and> (tDev t \<longleftrightarrow> DevCreated \<in> set l) \<and> DevClosed \<notin> set l"

definition booked :: "('w \<times> call list) \<times> Tunnel \<Rightarrow> bool" where
  "booked s \<longleftrightarrow> accounts (snd (fst s)) (snd s)"

text \<open>Calls that are no entry in these accounts.\<close>

fun plain :: "call \<Rightarrow> bool" where
  "plain (LinkDown n) = True"
| "plain (FileWritten p) = True"
| "plain (FileRemoved p) = True"
| "plain k = False"

definition plainS :: "('w \<times> call list, error, 'a) io \<Rightarrow> bool" where
  "plainS m \<longleftrightarrow> (\<forall>w l. \<exists>l'. snd (snd (m (w, l))) = l @ l' \<and> list_all plain l')"

named_theorems plain_intros \<open>computations with no entry in the accounts\<close>

lemma plain_log: "list_all plain l \<Longrightarrow> pinsAdded l = [] \<and> pinsRemoved l = [] \<and> \<not> gaveDNS l \<and> \<not> tookDNS l \<and>
    DevCreated \<notin> set l \<and> DevClosed \<notin> set l"
proof (induction l)
  case (Cons k l)
  then show ?case by (cases k) auto
qed simp

lemma plain_onDevice [plain_intros]: "plainS (onDevice m)"
  unfolding plainS_def onDevice_def by (auto split: prod.splits)

lemma plain_leaf [plain_intros]: "plainS (returnS x)" "plainS (failS e)" "plainS (liftE r)"
  unfolding plainS_def by simp_all

lemma plain_bindS [plain_intros]:
  assumes "plainS m" and "\<And>x. plainS (f x)"
  shows "plainS (bindS m f)"
  unfolding plainS_def
proof (intro allI)
  fix w l
  obtain r w1 l1 where m: "m (w, l) = (r, (w1, l1))" by (metis prod_cases3)
  from assms(1) [unfolded plainS_def, rule_format, of w l] m obtain a where a: "l1 = l @ a" "list_all plain a" by auto
  show "\<exists>l'. snd (snd (bindS m f (w, l))) = l @ l' \<and> list_all plain l'"
  proof (cases r)
    case Inl
    with m a show ?thesis by (simp add: bindS_apply)
  next
    case (Inr x)
    from assms(2) [unfolded plainS_def, rule_format, of x w1 l1] obtain b where
      "snd (snd (f x (w1, l1))) = l1 @ b" "list_all plain b" by auto
    with m a Inr show ?thesis by (intro exI [of _ "a @ b"]) (simp add: bindS_apply)
  qed
qed

lemma plain_mapErrS [plain_intros]: "plainS m \<Longrightarrow> plainS (mapErrS g m)"
  unfolding plainS_def mapErrS_def by (auto split: prod.splits) (metis snd_conv)

lemma plain_logTry [plain_intros]: "plain k \<Longrightarrow> plainS (logTry k m)"
  unfolding plainS_def logTry_def by (auto split: prod.splits)

lemma plain_if [plain_intros]: "(b \<Longrightarrow> plainS m) \<Longrightarrow> (\<not> b \<Longrightarrow> plainS m') \<Longrightarrow> plainS (if b then m else m')"
  by simp

lemma plain_option [plain_intros]:
  "plainS m \<Longrightarrow> (\<And>x. plainS (f x)) \<Longrightarrow> plainS (case v of None \<Rightarrow> m | Some x \<Rightarrow> f x)"
  by (cases v) simp_all

lemma plain_ignoreS [plain_intros]: "plainS m \<Longrightarrow> plainS (ignoreS m)"
  unfolding plainS_def ignoreS_def by auto

lemma booked_plain [keeps_intros]: "plainS m \<Longrightarrow> keeps booked (onDevice m)"
  unfolding keeps_def
proof (intro allI impI)
  fix s :: "('a \<times> call list) \<times> Tunnel"
  assume m: "plainS m" and b: "booked s"
  obtain w l t where s: "s = ((w, l), t)" by (metis prod.collapse)
  obtain r w' l1 where e: "m (w, l) = (r, (w', l1))" by (metis prod_cases3)
  from m [unfolded plainS_def, rule_format, of w l] e obtain l' where "l1 = l @ l'" "list_all plain l'" by auto
  with b e plain_log [of l'] show "booked (snd (onDevice m s))"
    by (simp add: s onDevice_def booked_def accounts_def)
qed

lemma booked_updS [keeps_intros]:
  "(\<And>t. tPins (f t) = tPins t \<and> dnsSet (f t) = dnsSet t \<and> tDev (f t) = tDev t) \<Longrightarrow> keeps booked (updS f)"
  by (auto simp: keeps_def updS_def booked_def accounts_def)

lemma plain_planEndpoints [plain_intros]: "plainS (planEndpoints (traced P) peers rest eps)"
proof (induction rest arbitrary: eps)
  case (Cons p rest)
  then show ?case
    unfolding planEndpoints.simps resolveHost_def traced_sel by (intro plain_intros)
qed (simp add: plain_leaf)

lemma plain_PlanRouting [plain_intros]: "plainS (PlanRouting (traced P) peers url)"
  unfolding PlanRouting_def resolveHost_def traced_sel by (intro plain_intros)

lemma booked_Pins_Add [keeps_intros]: "keeps booked (onPins (Pins_Add (traced P) as))"
  unfolding keeps_def
proof (intro allI impI)
  fix s :: "('a \<times> call list) \<times> Tunnel"
  assume b: "booked s"
  obtain w l t where s: "s = ((w, l), t)" by (metis prod.collapse)
  show "booked (snd (onPins (Pins_Add (traced P) as) s))"
  proof (cases "tPins t")
    case (Some ps)
    obtain r s' where a: "Pins_Add (traced P) as ((w, l), ps) = (r, s')" by (metis surj_pair)
    from Pins_Add_traced [OF a] obtain new w' where "s' = ((w', l @ map added new), ps @ new)" by blast
    moreover have "DevCreated \<notin> set (map added new)" "DevClosed \<notin> set (map added new)" by auto
    ultimately show ?thesis using b a Some by (simp add: s onPins_def booked_def accounts_def)
  qed (use b in \<open>simp add: s onPins_def\<close>)
qed

lemma liftClient_sel [simp]:
  "CipherUnwrap (liftClient c) t k b opts = onDevice (CipherUnwrap c t k b opts)"
  "GetPubKey (liftClient c) t k = onDevice (GetPubKey c t k)" "GetVersion (liftClient c) = onDevice (GetVersion c)"
  by (simp_all add: liftClient_def)

lemma booked_usePeer: "keeps booked (usePeer (liftClient c) (traced P) opts peer)"
  unfolding usePeer_def Let_def UnwrapPSK_def liftClient_sel traced_sel by (intro keeps_intros plain_intros) simp_all

lemma booked_Save: "keeps booked (onDevice (Save json (traced P) st))"
  unfolding Save_def traced_sel by (intro keeps_intros plain_intros) simp_all


lemma booked_SetDNS:
  "keeps booked (bindS (readS (\<lambda>t. callS k msg (SetDNS (traced P) (tIfname t) servers))) (\<lambda>_.
     updS (\<lambda>t. t\<lparr>dnsSet := True\<rparr>)))"
  unfolding keeps_def
proof (intro allI impI)
  fix s :: "('a \<times> call list) \<times> Tunnel"
  assume b: "booked s"
  obtain w l t where s: "s = ((w, l), t)" by (metis prod.collapse)
  obtain r w' where "SetDNS P (tIfname t) servers w = (r, w')" by (metis surj_pair)
  with b show "booked (snd (bindS (readS (\<lambda>t. callS k msg (SetDNS (traced P) (tIfname t) servers))) (\<lambda>_.
     updS (\<lambda>t. t\<lparr>dnsSet := True\<rparr>)) s))"
    by (cases r) (auto simp: s io_eval readS_def callS_def booked_def accounts_def)
qed

lemma booked_listen [keeps_intros]: "keeps booked (listenUAPI (traced P))"
  unfolding keeps_def
proof (intro allI impI)
  fix s :: "('a \<times> call list) \<times> Tunnel"
  assume b: "booked s"
  obtain w l t where s: "s = ((w, l), t)" by (metis prod.collapse)
  obtain r w' where "UAPIListen P (tIfname t) w = (r, w')" by (metis surj_pair)
  with b show "booked (snd (listenUAPI (traced P) s))"
    by (cases r) (auto simp: s listenUAPI_def onDevice_def booked_def accounts_def)
qed

lemma booked_comeUp: "keeps booked (comeUp (liftClient c) (traced P) E opts peer)"
  unfolding comeUp_def configureInterface_def Let_def ProbeHEM_def liftClient_sel
  by (intro keeps_intros booked_usePeer booked_SetDNS; (unfold traced_sel Save_def)?; (intro plain_intros)?) simp_all

lemma openDevice_booked:
  assumes "openDevice (liftClient c) (traced P) opts ((w, []), New opts) = (Inr u, s)"
  shows "booked (fst s, (snd s)\<lparr>tPins := Some []\<rparr>)" and "tDev (snd s)"
  using assms unfolding openDevice_def
  by (auto simp: result_inv readS_def callS_def ignoreS_def New_def onDevice_def logOk_def logTry_def booked_def accounts_def
      split: prod.splits)

text \<open>When it fails, the device alone may have been made; nothing else was given to the host.\<close>

lemma openDevice_failed:
  assumes "openDevice (liftClient c) (traced P) opts ((w, []), New opts) = (Inl e, ((w', log), t))"
  shows "log = (if tDev t then [DevCreated] else []) \<and> tPins t = None"
proof -
  obtain g w1 where g: "GetPubKey c (oUseTok opts) (IfKID (oTree opts)) w = (g, w1)" by (metis surj_pair)
  obtain n w2 where n: "CreateTUN P (oIfname opts) (unat (Tree_MTU (oTree opts))) w1 = (n, w2)" by (metis surj_pair)
  obtain u w3 where u: "devUp P w2 = (u, w3)" by (metis surj_pair)
  show ?thesis using assms g n u
    by (cases g; cases n; cases u) (auto simp: openDevice_def io_eval readS_def callS_def New_def split: prod.splits)
qed

definition built :: "Tunnel \<Rightarrow> bool" where
  "built t \<longleftrightarrow> tDev t \<and> tPins t \<noteq> None"

lemma built_simps [simp]:
  "built (t\<lparr>tHsm := h\<rparr>) = built t" "built (t\<lparr>dnsSet := b\<rparr>) = built t" "built (t\<lparr>blind := b\<rparr>) = built t"
  "built (t\<lparr>tPeer := p, tPsk := k, hemInside := i, hemHost := n\<rparr>) = built t"
  "built t \<Longrightarrow> built (t\<lparr>tPins := Some ps\<rparr>)"
  by (auto simp: built_def)

lemma usePeer_built: "keeps (onTunnel built) (usePeer c P opts p)"
  by (rule usePeer_keeps) simp_all

lemma listen_built [keeps_intros]: "keeps (onTunnel built) (listenUAPI P)"
  by (auto simp: keeps_def onTunnel_def listenUAPI_def split: prod.splits sum.splits)

lemma comeUp_built: "keeps (onTunnel built) (comeUp c P E opts p)"
  unfolding comeUp_def configureInterface_def Let_def by (intro keeps_intros usePeer_built) simp_all

definition takenDown :: "string \<Rightarrow> call list \<Rightarrow> call list" where
  "takenDown n up = (if gaveDNS up then [DNSReverted n] else []) @ [DevClosed, LinkDown n] @
     map removed (pinsAdded up) @ [FileRemoved (pubPath n), FileRemoved (Path n)]"

lemma teardown_traced:
  assumes "booked ((w, l), t)" and "built t"
  shows "\<exists>w'. teardown (traced P) ((w, l), t) =
    (Inr (), ((w', l @ takenDown (tIfname t) l), t\<lparr>tPins := Some [], tPsk := Zero (tPsk t)\<rparr>))"
proof -
  let ?n = "tIfname t"
  obtain ps where ps: "tPins t = Some ps" "pinsAdded l = ps" and dev: "tDev t" and dns: "dnsSet t \<longleftrightarrow> gaveDNS l"
    using assms by (auto simp: booked_def accounts_def built_def)
  obtain w1 where w1: "(if dnsSet t then snd (RevertDNS P ?n w) else w) = w1" by simp
  let ?l1 = "l @ (if gaveDNS l then [DNSReverted ?n] else [])"
  obtain r w2 where w2: "devClose P w1 = (r, w2)" by (metis surj_pair)
  obtain r3 w3 where w3: "ifDown P ?n w2 = (r3, w3)" by (metis surj_pair)
  obtain w4 where w4: "delRoutes (traced P) ps (w3, ?l1 @ [DevClosed, LinkDown ?n])
      = (Inr (), (w4, (?l1 @ [DevClosed, LinkDown ?n]) @ map removed ps))"
    using delRoutes_traced [of P ps w3 "?l1 @ [DevClosed, LinkDown ?n]"] by blast
  show ?thesis
    using w1 w2 w3 w4 ps dev dns
    by (cases "gaveDNS l"; cases "RevertDNS P ?n w")
      (simp_all add: teardown_def io_eval readS_def onPins_def Pins_Restore_def RemoveState_def takenDown_def
        split: prod.splits)
qed


lemma hold_booked:
  assumes "booked s" and "built (snd s)" and "hold (liftClient c) (traced P) E opts sel es x st s = (r, x', s')"
  shows "booked s' \<and> built (snd s')"
proof -
  have "booked (snd (snd (hold (liftClient c) (traced P) E opts sel es x st s)))"
    by (rule hold_keeps [OF booked_usePeer booked_Save assms(1)])
  moreover have "onTunnel built (snd (snd (hold (liftClient c) (traced P) E opts sel es x st s)))"
    by (rule hold_keeps [OF usePeer_built onTunnel_onDevice]) (simp add: onTunnel_def assms(2))
  ultimately show ?thesis using assms(3) by (simp add: onTunnel_def)
qed

lemma opened_run_takes_back:
  assumes o: "openDevice (liftClient c) (traced P) opts ((w, []), New opts) = (Inr u, s1)"
    and "Tunnel_Run (liftClient c) (traced P) E opts sel es x peer ((w, []), New opts) = (Some r, x', ((w', log), t'))"
  shows "\<exists>up n. log = up @ takenDown n up \<and> pinsRemoved up = [] \<and> \<not> tookDNS up \<and>
     DevCreated \<in> set up \<and> DevClosed \<notin> set up \<and>
     pinsAdded log = pinsRemoved log \<and> tPins t' = Some [] \<and> list_all (\<lambda>b. b = 0) (tPsk t')"
proof -
  let ?s1 = "(fst s1, (snd s1)\<lparr>tPins := Some []\<rparr>)"
  have b1: "booked ?s1" "built (snd ?s1)"
    using openDevice_booked [OF o] by (simp_all add: built_def)
  obtain q s2 where u: "comeUp (liftClient c) (traced P) E opts peer ?s1 = (q, s2)" by (metis surj_pair)
  have b2: "booked s2" "built (snd s2)"
    using keepsD [OF booked_comeUp b1(1) u] keepsD [OF comeUp_built _ u] b1(2) by (simp_all add: onTunnel_def)
  have run: "\<exists>s3. booked s3 \<and> built (snd s3) \<and> ((w', log), t') = snd (teardown (traced P) s3)"
  proof (cases q)
    case Inl
    with assms(2) o u b2 show ?thesis
      by (intro exI [of _ s2]) (auto simp: Tunnel_Run_def bindS_apply updS_def split: prod.splits)
  next
    case (Inr st)
    obtain v x3 s3 where h: "hold (liftClient c) (traced P) E opts sel es x st s2 = (v, x3, s3)" by (metis prod_cases3)
    from hold_booked [OF b2 h] assms(2) o u Inr h show ?thesis
      by (intro exI [of _ s3], cases v) (auto simp: Tunnel_Run_def bindS_apply updS_def split: prod.splits)
  qed
  then obtain wu up t where b3: "booked ((wu, up), t)" "built t" and
    td: "((w', log), t') = snd (teardown (traced P) ((wu, up), t))" by auto
  obtain w4 where "teardown (traced P) ((wu, up), t) =
      (Inr (), ((w4, up @ takenDown (tIfname t) up), t\<lparr>tPins := Some [], tPsk := Zero (tPsk t)\<rparr>))"
    using teardown_traced [OF b3] by blast
  with td b3 show ?thesis
    by (intro exI [of _ up] exI [of _ "tIfname t"])
      (auto simp: takenDown_def booked_def accounts_def built_def Zero_def list_all_iff)
qed

text \<open>
  C10: the host is left as it was found.  On any platform, once \<open>openDevice\<close> has succeeded, every
  way a run ends - by an error while coming up, by a failed peer, by giving up, or because it
  was told to - ends with the same sequence: DNS is taken back if it was given and before the
  device is closed, the device is closed, the link goes down, exactly the pinned routes are
  removed, and the two files; the pre-shared key is zeroed.  When \<open>openDevice\<close> fails, the run
  ends with its error and nothing is taken down: no route, resolver setting or file was given
  by then, and the log is empty or has the device that was made and did not come up, which
  stays open.
\<close>

theorem run_takes_back_what_it_gave:
  assumes "Tunnel_Run (liftClient c) (traced P) E opts sel es x peer ((w, []), New opts) = (Some r, x', ((w', log), t'))"
  shows "case fst (openDevice (liftClient c) (traced P) opts ((w, []), New opts)) of
      Inl e \<Rightarrow> r = Inl e \<and> log = (if tDev t' then [DevCreated] else []) \<and> tPins t' = None
    | Inr _ \<Rightarrow> \<exists>up n. log = up @ takenDown n up \<and> pinsRemoved up = [] \<and> \<not> tookDNS up \<and>
        DevCreated \<in> set up \<and> DevClosed \<notin> set up \<and>
        pinsAdded log = pinsRemoved log \<and> tPins t' = Some [] \<and> list_all (\<lambda>b. b = 0) (tPsk t')"
proof -
  obtain q s1 where o: "openDevice (liftClient c) (traced P) opts ((w, []), New opts) = (q, s1)" by (metis surj_pair)
  show ?thesis
  proof (cases q)
    case (Inl e)
    with assms o have "r = Inl e" "s1 = ((w', log), t')" by (simp_all add: Tunnel_Run_def)
    with o Inl openDevice_failed [of c P opts w e w' log t'] show ?thesis by simp
  next
    case (Inr u)
    from opened_run_takes_back [OF o [unfolded Inr] assms] o Inr show ?thesis by simp
  qed
qed

definition exampleHost :: "unit Client" where
  "exampleHost = deafClient\<lparr>GetPubKey := (\<lambda>_ _. returnS \<lparr>keyPubKey = exampleIfKey, keyTypeOf = ''CURVE25519''\<rparr>)\<rparr>"

lemma example_openDevice:
  "isOk (fst (openDevice (liftClient exampleHost) (traced examplePlatform) exampleOpts (((), []), New exampleOpts)))"
  by (simp add: openDevice_def io_eval readS_def callS_def New_def exampleOpts_def)
    (simp add: exampleHost_def examplePlatform_def io_eval)

theorem run_takes_back_what_it_gave_witness:
  "\<exists>r x' w' log t'. Tunnel_Run (liftClient exampleHost) (traced examplePlatform) exampleEnv exampleOpts WalkPeers
     [Ending] (\<lambda>_. False) (hd (Peers (oTree exampleOpts))) (((), []), New exampleOpts) = (Some r, x', ((w', log), t')) \<and>
     pinsAdded log = pinsRemoved log"
proof -
  let ?run = "Tunnel_Run (liftClient exampleHost) (traced examplePlatform) exampleEnv exampleOpts WalkPeers
     [Ending] (\<lambda>_. False) (hd (Peers (oTree exampleOpts))) (((), []), New exampleOpts)"
  have "fst ?run \<noteq> None"
    using example_openDevice
    by (subst Tunnel_Run_def) (auto simp: hold.simps split: prod.splits sum.splits)
  then obtain r x' w' log t' where t: "?run = (Some r, x', ((w', log), t'))"
    by (metis option.exhaust prod.collapse)
  from run_takes_back_what_it_gave [OF t] example_openDevice have "pinsAdded log = pinsRemoved log"
    by (auto split: sum.splits)
  with t show ?thesis by blast
qed

text \<open>
  A device that comes into being and does not come up is left as it is: this way out does
  not go through \<open>teardown\<close>.
\<close>

lemma failed_device_is_not_closed:
  "\<exists>e w log t. Tunnel_Run (liftClient exampleHost) (traced (examplePlatform\<lparr>devUp := failS (Msg ''no'')\<rparr>)) exampleEnv
     exampleOpts WalkPeers [Ending] (\<lambda>_. False) peer (((), []), New exampleOpts) = (Some (Inl e), (\<lambda>_. False), ((w, log), t)) \<and>
     DevCreated \<in> set log \<and> DevClosed \<notin> set log"
  by (simp add: Tunnel_Run_def openDevice_def io_eval readS_def callS_def New_def exampleOpts_def)
    (simp add: exampleHost_def examplePlatform_def io_eval)

end
