(* ===== verification/Ipc.thy ===== *)
theory Ipc
  imports Errors
begin

text \<open>
  \<open>internal/ipc\<close>: the requests a window may send to the component that runs tunnels, and the
  framing both sides share (\<open>proto.go\<close>, \<open>transport.go\<close>).  JSON is the standard library's;
  frames are over the bytes it produces.  Reading from a connection is reading from the bytes
  that are still to come, and a stream that ends early is the read error.
\<close>

subsection \<open>Requests\<close>

datatype Op = OpStart | OpStop | OpRefresh | OpWhoami | OpOther string

record Build =
  Release :: string
  bDescr :: nat

definition Matches :: "Build \<Rightarrow> Build \<Rightarrow> bool" where
  "Matches b other \<longleftrightarrow> Release b = Release other \<and> bDescr b = bDescr other"

definition Current :: "string \<Rightarrow> size_tags \<Rightarrow> Build" where
  "Current version sz = \<lparr>Release = version, bDescr = Size sz\<rparr>"

record Request =
  rOp :: Op
  rBuild :: Build
  rHEMURL :: string
  rIdentity :: string
  rPeer :: string
  rToken :: string
  rPubKeys :: "(string \<times> string) list"

definition Request_Validate :: "Request \<Rightarrow> error + unit" where
  "Request_Validate r =
     (case rOp r of
        OpStart \<Rightarrow>
          if rHEMURL r = [] then Inl (Msg ''start needs the address of the device'')
          else if rIdentity r = [] then Inl (Msg ''start needs an interface key id: the token names one key and means nothing without it'')
          else if rToken r = [] then Inl (Msg ''start needs a token; the component authenticates nothing itself'')
          else if Release (rBuild r) = [] then Inl (Msg ''start needs to say which build is asking'')
          else Inr ()
      | OpRefresh \<Rightarrow> if rToken r = [] then Inl (Msg ''refresh needs a token'') else Inr ()
      | OpStop \<Rightarrow> Inr ()
      | OpWhoami \<Rightarrow> Inr ()
      | OpOther _ \<Rightarrow> Inl (Msg ''unknown operation %q''))"

text \<open>What a reply carries.\<close>

record Reply =
  rOK :: bool
  rErr :: "error option"
  rKind :: string
  rAnswer :: "Build option"
  rWho :: string

definition refusal :: "Kind \<Rightarrow> error \<Rightarrow> Reply" where
  "refusal k e = \<lparr>rOK = False, rErr = Some e, rKind = Kind_String k, rAnswer = None, rWho = []\<rparr>"

definition refusalFrom :: "error \<Rightarrow> Reply" where
  "refusalFrom e = refusal (KindOf e) e"

subsection \<open>Frames\<close>

definition maxMessage :: nat where "maxMessage = 64 * 2 ^ 10"

definition WriteMsg :: "bytes \<Rightarrow> error + bytes" where
  "WriteMsg b =
     (if length b > maxMessage then Inl (Msg ''message of %d bytes exceeds the limit'')
      else Inr (be_bytes 4 (length b) @ b))"

definition ReadFull :: "nat \<Rightarrow> bytes \<Rightarrow> error + bytes \<times> bytes" where
  "ReadFull n stream = (if length stream < n then Inl (Msg ''EOF'') else Inr (take n stream, drop n stream))"

definition ReadMsg :: "bytes \<Rightarrow> error + bytes \<times> bytes" where
  "ReadMsg stream =
     bindE (ReadFull 4 stream) (\<lambda>(hdr, rest).
     (let n = be_nat hdr in
      if n > maxMessage then Inl (Msg ''message of %d bytes exceeds the limit'')
      else ReadFull n rest))"

lemma ReadMsg_shorter: "ReadMsg stream = Inr (b, rest) \<Longrightarrow> length rest < length stream"
  by (auto simp: ReadMsg_def ReadFull_def result_inv Let_def split: if_splits)

text \<open>
  Everything a connection delivers until it ends: the messages, and whether it ended between
  two of them.
\<close>

function readAll :: "bytes \<Rightarrow> bytes list \<times> bool" where
  "readAll stream =
     (case ReadMsg stream of
        Inl _ \<Rightarrow> ([], stream = [])
      | Inr (b, rest) \<Rightarrow> (case readAll rest of (bs, clean) \<Rightarrow> (b # bs, clean)))"
  by pat_completeness auto

termination readAll
  by (relation "measure length") (auto dest: ReadMsg_shorter)

declare readAll.simps [simp del]

lemma ReadMsg_WriteMsg: "WriteMsg b = Inr f \<Longrightarrow> ReadMsg (f @ rest) = Inr (b, rest)"
proof -
  assume "WriteMsg b = Inr f"
  then have len: "length b \<le> maxMessage" and f: "f = be_bytes 4 (length b) @ b"
    by (auto simp: WriteMsg_def split: if_splits)
  have "length b < 256 ^ 4" using len by (simp add: maxMessage_def)
  then have "be_nat (be_bytes 4 (length b)) = length b" by simp
  with len show ?thesis by (simp add: f ReadMsg_def ReadFull_def Let_def)
qed

text \<open>
  C35: frames neither merge nor split.  Any messages within the limit, written one after the
  other, are read back as they were, whatever is cut off after them; and nothing longer than
  the limit is ever read, whatever the four bytes of a header say.
\<close>

theorem frames_roundtrip:
  assumes "list_all2 (\<lambda>b f. WriteMsg b = Inr f) bs fs" and "\<not> isOk (ReadMsg tail)"
  shows "readAll (concat fs @ tail) = (bs, tail = []) \<and>
     (\<forall>s b rest. ReadMsg s = Inr (b, rest) \<longrightarrow> length b \<le> maxMessage)"
proof -
  have "readAll (concat fs @ tail) = (bs, tail = [])"
    using assms
  proof (induction rule: list_all2_induct)
    case Nil
    then show ?case by (cases "ReadMsg tail") (simp_all add: readAll.simps [of tail])
  next
    case (Cons b bs f fs)
    have "ReadMsg ((f @ concat fs) @ tail) = Inr (b, concat fs @ tail)"
      using ReadMsg_WriteMsg [OF Cons.hyps(1)] by simp
    with Cons show ?case by (subst readAll.simps) simp
  qed
  moreover have "length b \<le> maxMessage" if "ReadMsg s = Inr (b, rest)" for s b rest
    using that by (auto simp: ReadMsg_def ReadFull_def result_inv Let_def split: if_splits)
  ultimately show ?thesis by blast
qed

theorem frames_roundtrip_witness:
  "readAll (concat [[0, 0, 0, 1, 7], [0, 0, 0, 0]] @ [0, 0]) = ([[7], []], False)"
proof -
  have w: "WriteMsg [7] = Inr [0, 0, 0, 1, 7]" "WriteMsg [] = Inr [0, 0, 0, 0]"
    by (simp_all add: WriteMsg_def maxMessage_def be_bytes_def le_bytes_numeral)
  have "\<not> isOk (ReadMsg [0, 0])" by (simp add: ReadMsg_def ReadFull_def)
  from frames_roundtrip [of "[[7], []]" "[[0, 0, 0, 1, 7], [0, 0, 0, 0]]", OF _ this] w show ?thesis by simp
qed

end
