(* ===== verification/Daemon.thy ===== *)
theory Daemon
  imports Ipc
begin

text \<open>
  \<open>internal/daemon\<close>: the component that runs one tunnel at a time on behalf of whoever asks.
  Every connection is served by its own goroutine and they meet in the fields of \<open>Server\<close>,
  each access in a critical section of its mutex.  The model has one step for each critical
  section together with what the goroutine does up to the next one, and the steps of all
  goroutines interleave freely.  A start request creates a session: a context that can be
  cancelled, and from then on the call of \<open>Open\<close> and the goroutine around \<open>Run\<close>.  What
  \<open>Open\<close>, \<open>Run\<close>, \<open>Refresh\<close> and the network answer, and when, is arbitrary.  Events sent to the
  window and the log are not modelled.
\<close>

subsection \<open>State\<close>

type_synonym Principal = string

text \<open>The cancel function and the tunnel are named by the session they belong to.\<close>

record Server =
  sBuild :: Build
  running :: bool
  owner :: Principal
  cancel :: "nat option"
  tun :: "nat option"

datatype phase = Opening | Serving | Over

record Session =
  sWho :: Principal
  sConn :: nat
  cancelled :: bool
  phase :: phase
  sToken :: string

text \<open>Where the goroutine of a connection is between two critical sections.\<close>

datatype pc = Reading | Starting nat | Refreshing string | Closed

record Conn =
  cWho :: Principal
  started :: bool
  pc :: pc
  sent :: "Reply list"

record world =
  srv :: Server
  sessions :: "Session list"
  conns :: "Conn list"

definition initial :: "Build \<Rightarrow> world" where
  "initial b = \<lparr>srv = \<lparr>sBuild = b, running = False, owner = [], cancel = None, tun = None\<rparr>, sessions = [], conns = []\<rparr>"

definition onSession :: "nat \<Rightarrow> (Session \<Rightarrow> Session) \<Rightarrow> world \<Rightarrow> world" where
  "onSession n f w = w\<lparr>sessions := (sessions w)[n := f (sessions w ! n)]\<rparr>"

definition onConn :: "nat \<Rightarrow> (Conn \<Rightarrow> Conn) \<Rightarrow> world \<Rightarrow> world" where
  "onConn i f w = w\<lparr>conns := (conns w)[i := f (conns w ! i)]\<rparr>"

definition reply :: "nat \<Rightarrow> Reply \<Rightarrow> world \<Rightarrow> world" where
  "reply i r = onConn i (\<lambda>c. c\<lparr>sent := sent c @ [r]\<rparr>)"

definition okReply :: Reply where
  "okReply = \<lparr>rOK = True, rErr = None, rKind = [], rAnswer = None, rWho = []\<rparr>"

subsection \<open>The critical sections\<close>

definition startLock :: "Principal \<Rightarrow> Request \<Rightarrow> nat \<Rightarrow> Server \<Rightarrow> (error + unit) \<times> Server" where
  "startLock who req n s =
     (if \<not> Matches (sBuild s) (rBuild req) then
        (Inl (Fail KindDevice ''this component is %s and the window is %s; they cannot drive each other'' []), s)
      else if running s then
        (if owner s \<noteq> who
         then (Inl (Fail KindDevice ''a tunnel is already running, and it belongs to another user'' []), s)
         else (Inl (Fail KindDevice ''a tunnel is already running'' []), s))
      else (Inr (), s\<lparr>running := True, owner := who, cancel := Some n\<rparr>))"

definition clear :: "Server \<Rightarrow> Server" where
  "clear s = s\<lparr>running := False, cancel := None, tun := None\<rparr>"

text \<open>The return of \<open>Open\<close>: an error, after which the context is cancelled, or a tunnel.\<close>

definition afterOpen :: "nat \<Rightarrow> nat \<Rightarrow> error option \<Rightarrow> world \<Rightarrow> world" where
  "afterOpen i n res w =
     (case res of
        Some e \<Rightarrow> reply i (refusalFrom e) (onConn i (\<lambda>c. c\<lparr>pc := Reading\<rparr>)
          (onSession n (\<lambda>s. s\<lparr>cancelled := True, phase := Over\<rparr>) (w\<lparr>srv := clear (srv w)\<rparr>)))
      | None \<Rightarrow> reply i (okReply\<lparr>rAnswer := Some (sBuild (srv w))\<rparr>) (onConn i (\<lambda>c. c\<lparr>pc := Reading, started := True\<rparr>)
          (onSession n (\<lambda>s. s\<lparr>phase := Serving\<rparr>) (w\<lparr>srv := (srv w)\<lparr>tun := Some n\<rparr>\<rparr>))))"

text \<open>The return of \<open>Run\<close>.\<close>

definition afterRun :: "nat \<Rightarrow> world \<Rightarrow> world" where
  "afterRun n w = onSession n (\<lambda>s. s\<lparr>cancelled := True, phase := Over\<rparr>) (w\<lparr>srv := clear (srv w)\<rparr>)"

definition stop :: "Principal \<Rightarrow> world \<Rightarrow> world" where
  "stop who w =
     (if \<not> running (srv w) \<or> owner (srv w) \<noteq> who then w
      else case cancel (srv w) of None \<Rightarrow> w | Some n \<Rightarrow> onSession n (\<lambda>s. s\<lparr>cancelled := True\<rparr>) w)"

definition refreshCheck :: "Principal \<Rightarrow> Server \<Rightarrow> error + unit" where
  "refreshCheck who s =
     (if \<not> running s then Inl (Fail KindDevice ''no tunnel is running'' [])
      else if owner s \<noteq> who then Inl (Fail KindDevice ''that tunnel belongs to another user'' [])
      else Inr ())"

text \<open>The second section of a refresh; what the tunnel's own \<open>Refresh\<close> answers comes from outside.\<close>

definition refreshTun :: "nat \<Rightarrow> string \<Rightarrow> error option \<Rightarrow> world \<Rightarrow> world" where
  "refreshTun i token res w =
     onConn i (\<lambda>c. c\<lparr>pc := Reading\<rparr>)
       (case tun (srv w) of
          None \<Rightarrow> reply i (refusalFrom (Fail KindDevice ''no tunnel is running'' [])) w
        | Some n \<Rightarrow>
            (case res of
               Some e \<Rightarrow> reply i (refusalFrom e) w
             | None \<Rightarrow> reply i okReply (onSession n (\<lambda>s. s\<lparr>sToken := token\<rparr>) w)))"

subsection \<open>A connection\<close>

definition accept :: "error + Principal \<Rightarrow> world \<Rightarrow> world" where
  "accept res w =
     w\<lparr>conns := conns w @
       [case res of
          Inl e \<Rightarrow> \<lparr>cWho = [], started = False, pc = Closed,
            sent = [refusal KindAuth (Msg ''this connection's owner could not be determined'')]\<rparr>
        | Inr who \<Rightarrow> \<lparr>cWho = who, started = False, pc = Reading, sent = []\<rparr>]\<rparr>"

definition handleRequest :: "nat \<Rightarrow> error + Request \<Rightarrow> world \<Rightarrow> world" where
  "handleRequest i decoded w =
     (let who = cWho (conns w ! i) in
      case decoded of
        Inl e \<Rightarrow> reply i (refusal KindDevice (Wrap ''unreadable request: '' [e])) w
      | Inr req \<Rightarrow>
          (case Request_Validate req of
             Inl e \<Rightarrow> reply i (refusal KindDevice e) w
           | Inr _ \<Rightarrow>
               (case rOp req of
                  OpStart \<Rightarrow>
                    (case startLock who req (length (sessions w)) (srv w) of
                       (Inl e, _) \<Rightarrow> reply i (refusalFrom e) w
                     | (Inr _, s) \<Rightarrow> onConn i (\<lambda>c. c\<lparr>pc := Starting (length (sessions w))\<rparr>)
                         (w\<lparr>srv := s, sessions := sessions w @
                            [\<lparr>sWho = who, sConn = i, cancelled = False, phase = Opening, sToken = rToken req\<rparr>]\<rparr>))
                | OpStop \<Rightarrow> reply i okReply (onConn i (\<lambda>c. c\<lparr>started := False\<rparr>) (stop who w))
                | OpRefresh \<Rightarrow>
                    (case refreshCheck who (srv w) of
                       Inl e \<Rightarrow> reply i (refusalFrom e) w
                     | Inr _ \<Rightarrow> onConn i (\<lambda>c. c\<lparr>pc := Refreshing (rToken req)\<rparr>) w)
                | OpWhoami \<Rightarrow> reply i (okReply\<lparr>rAnswer := Some (sBuild (srv w)), rWho := who\<rparr>) w
                | OpOther _ \<Rightarrow> w)))"

text \<open>The read error that ends the loop, and the deferred function.\<close>

definition hangUp :: "nat \<Rightarrow> world \<Rightarrow> world" where
  "hangUp i w =
     onConn i (\<lambda>c. c\<lparr>pc := Closed\<rparr>) (if started (conns w ! i) then stop (cWho (conns w ! i)) w else w)"

subsection \<open>All goroutines together\<close>

datatype action =
    Accept "error + Principal"
  | Receive nat "error + Request"
  | HangUp nat
  | OpenReturns nat "error option"
  | RefreshGoesOn nat "error option"
  | RunReturns nat

inductive daemon_step :: "action \<Rightarrow> world \<Rightarrow> world \<Rightarrow> bool" where
  step_accept: "daemon_step (Accept res) w (accept res w)"
| step_receive: "i < length (conns w) \<Longrightarrow> pc (conns w ! i) = Reading \<Longrightarrow>
    daemon_step (Receive i decoded) w (handleRequest i decoded w)"
| step_hangUp: "i < length (conns w) \<Longrightarrow> pc (conns w ! i) = Reading \<Longrightarrow> daemon_step (HangUp i) w (hangUp i w)"
| step_open: "i < length (conns w) \<Longrightarrow> pc (conns w ! i) = Starting n \<Longrightarrow>
    daemon_step (OpenReturns i res) w (afterOpen i n res w)"
| step_refresh: "i < length (conns w) \<Longrightarrow> pc (conns w ! i) = Refreshing token \<Longrightarrow>
    daemon_step (RefreshGoesOn i res) w (refreshTun i token res w)"
| step_run: "n < length (sessions w) \<Longrightarrow> phase (sessions w ! n) = Serving \<Longrightarrow>
    daemon_step (RunReturns n) w (afterRun n w)"

inductive_simps daemon_step_simps:
  "daemon_step (Accept res) w w'" "daemon_step (Receive i decoded) w w'" "daemon_step (HangUp i) w w'"
  "daemon_step (OpenReturns i r) w w'" "daemon_step (RefreshGoesOn i r) w w'" "daemon_step (RunReturns n) w w'"

text \<open>The states a labelled relation goes through, and what it keeps.\<close>

inductive runs :: "('l \<Rightarrow> 's \<Rightarrow> 's \<Rightarrow> bool) \<Rightarrow> 's \<Rightarrow> 'l list \<Rightarrow> 's \<Rightarrow> bool" for step where
  runs_refl: "runs step s [] s"
| runs_step: "runs step s es s1 \<Longrightarrow> step e s1 s2 \<Longrightarrow> runs step s (es @ [e]) s2"

locale preserved =
  fixes step :: "'l \<Rightarrow> 's \<Rightarrow> 's \<Rightarrow> bool" and Inv :: "'s \<Rightarrow> bool"
  assumes step_keeps: "step e s s' \<Longrightarrow> Inv s \<Longrightarrow> Inv s'"
begin

lemma runs_keep: "runs step s es s' \<Longrightarrow> Inv s \<Longrightarrow> Inv s'"
  by (induction rule: runs.induct) (auto intro: step_keeps)

end

subsection \<open>The invariant\<close>

definition live :: "world \<Rightarrow> nat \<Rightarrow> bool" where
  "live w n \<longleftrightarrow> n < length (sessions w) \<and> phase (sessions w ! n) \<noteq> Over"

text \<open>The server's fields describe the one session that is live, if there is one.\<close>

fun serves :: "world \<Rightarrow> nat option \<Rightarrow> bool" where
  "serves w None \<longleftrightarrow> (\<forall>n < length (sessions w). phase (sessions w ! n) = Over) \<and>
     \<not> running (srv w) \<and> cancel (srv w) = None \<and> tun (srv w) = None"
| "serves w (Some n) \<longleftrightarrow> live w n \<and> (\<forall>m < length (sessions w). m \<noteq> n \<longrightarrow> phase (sessions w ! m) = Over) \<and>
     running (srv w) \<and> cancel (srv w) = Some n \<and> owner (srv w) = sWho (sessions w ! n) \<and>
     tun (srv w) = (if phase (sessions w ! n) = Serving then Some n else None)"

text \<open>
  Sessions and connections agree: a session being opened is what its connection is waiting
  for, and one that is being served is cancelled or its connection still answers for it.
\<close>

definition answered :: "world \<Rightarrow> nat \<Rightarrow> bool" where
  "answered w n \<longleftrightarrow>
     (let s = sessions w ! n; c = conns w ! sConn s in
      sConn s < length (conns w) \<and> sWho s = cWho c \<and>
      (phase s = Opening \<longrightarrow> pc c = Starting n) \<and>
      (phase s = Serving \<longrightarrow> cancelled s \<or> started c \<and> pc c \<noteq> Closed))"

definition waiting :: "world \<Rightarrow> nat \<Rightarrow> bool" where
  "waiting w i \<longleftrightarrow>
     (\<forall>n. pc (conns w ! i) = Starting n \<longrightarrow>
        n < length (sessions w) \<and> phase (sessions w ! n) = Opening \<and> sConn (sessions w ! n) = i)"

definition linked :: "world \<Rightarrow> bool" where
  "linked w \<longleftrightarrow> (\<forall>n < length (sessions w). answered w n) \<and> (\<forall>i < length (conns w). waiting w i)"

definition daemon_inv :: "world \<Rightarrow> bool" where
  "daemon_inv w \<longleftrightarrow> linked w \<and> (\<exists>cur. serves w cur)"

lemma world_sel [simp]:
  "srv (onConn i f w) = srv w" "sessions (onConn i f w) = sessions w"
  "length (conns (onConn i f w)) = length (conns w)"
  "srv (onSession n g w) = srv w" "conns (onSession n g w) = conns w"
  "length (sessions (onSession n g w)) = length (sessions w)"
  "j < length (conns w) \<Longrightarrow> conns (onConn i f w) ! j = (if i = j then f (conns w ! j) else conns w ! j)"
  "m < length (sessions w) \<Longrightarrow> sessions (onSession n g w) ! m = (if n = m then g (sessions w ! m) else sessions w ! m)"
  by (simp_all add: onConn_def onSession_def)

lemma reply_sel [simp]:
  "srv (reply i r w) = srv w" "sessions (reply i r w) = sessions w" "length (conns (reply i r w)) = length (conns w)"
  "j < length (conns w) \<Longrightarrow> cWho (conns (reply i r w) ! j) = cWho (conns w ! j)"
  "j < length (conns w) \<Longrightarrow> started (conns (reply i r w) ! j) = started (conns w ! j)"
  "j < length (conns w) \<Longrightarrow> pc (conns (reply i r w) ! j) = pc (conns w ! j)"
  by (simp_all add: reply_def)

lemma serves_cong: "srv w' = srv w \<Longrightarrow> sessions w' = sessions w \<Longrightarrow> serves w' cur = serves w cur"
  by (cases cur) (simp_all add: live_def)

lemma linkedD:
  "linked w \<Longrightarrow> n < length (sessions w) \<Longrightarrow> answered w n" "linked w \<Longrightarrow> i < length (conns w) \<Longrightarrow> waiting w i"
  by (simp_all add: linked_def)

lemma linkedI:
  "(\<And>n. n < length (sessions w) \<Longrightarrow> answered w n) \<Longrightarrow> (\<And>i. i < length (conns w) \<Longrightarrow> waiting w i) \<Longrightarrow> linked w"
  by (simp add: linked_def)

lemma linked_reply [simp]:
  assumes "linked w" shows "linked (reply i r w)"
proof (rule linkedI)
  show "answered (reply i r w) n" if "n < length (sessions (reply i r w))" for n
    using linkedD(1) [OF assms, of n] that by (simp add: answered_def Let_def)
  show "waiting (reply i r w) j" if "j < length (conns (reply i r w))" for j
    using linkedD(2) [OF assms, of j] that by (simp add: waiting_def)
qed

lemma daemon_invI: "linked w \<Longrightarrow> serves w cur \<Longrightarrow> daemon_inv w"
  by (auto simp: daemon_inv_def)

lemma inv_reply [simp]: "daemon_inv w \<Longrightarrow> daemon_inv (reply i r w)"
  by (auto simp: daemon_inv_def serves_cong [of "reply i r w" w])

lemma linked_onConn:
  assumes "linked w" and "i < length (conns w)" and "cWho (f (conns w ! i)) = cWho (conns w ! i)"
    and "\<And>n. pc (conns w ! i) \<noteq> Starting n" and "\<And>n. pc (f (conns w ! i)) \<noteq> Starting n"
    and "\<And>n. n < length (sessions w) \<Longrightarrow> phase (sessions w ! n) = Serving \<Longrightarrow> sConn (sessions w ! n) = i \<Longrightarrow>
      \<not> cancelled (sessions w ! n) \<Longrightarrow> started (f (conns w ! i)) \<and> pc (f (conns w ! i)) \<noteq> Closed"
  shows "linked (onConn i f w)"
proof (rule linkedI)
  show "answered (onConn i f w) n" if "n < length (sessions (onConn i f w))" for n
    using linkedD(1) [OF assms(1), of n] assms(2-5) assms(6) [of n] that by (auto simp: answered_def Let_def)
  show "waiting (onConn i f w) j" if "j < length (conns (onConn i f w))" for j
    using linkedD(2) [OF assms(1), of j] assms(5) that by (auto simp: waiting_def)
qed

lemma inv_onConn:
  assumes "daemon_inv w" and "i < length (conns w)" and "cWho (f (conns w ! i)) = cWho (conns w ! i)"
    and "\<And>n. pc (conns w ! i) \<noteq> Starting n" and "\<And>n. pc (f (conns w ! i)) \<noteq> Starting n"
    and "\<And>n. n < length (sessions w) \<Longrightarrow> phase (sessions w ! n) = Serving \<Longrightarrow> sConn (sessions w ! n) = i \<Longrightarrow>
      \<not> cancelled (sessions w ! n) \<Longrightarrow> started (f (conns w ! i)) \<and> pc (f (conns w ! i)) \<noteq> Closed"
  shows "daemon_inv (onConn i f w)"
proof -
  have "linked (onConn i f w)" using assms by (intro linked_onConn) (auto simp: daemon_inv_def)
  with assms(1) show ?thesis by (auto simp: daemon_inv_def serves_cong [of "onConn i f w" w])
qed

lemma inv_serving:
  assumes "daemon_inv w" and "n < length (sessions w)" and "phase (sessions w ! n) = Serving"
    and "\<not> cancelled (sessions w ! n)"
  shows "started (conns w ! sConn (sessions w ! n)) \<and> pc (conns w ! sConn (sessions w ! n)) \<noteq> Closed"
  using linkedD(1) [of w n] assms by (simp add: daemon_inv_def answered_def Let_def)

lemma inv_onSession:
  assumes "daemon_inv w" and "\<And>s. sWho (g s) = sWho s" and "\<And>s. sConn (g s) = sConn s"
    and "\<And>s. phase (g s) = phase s" and "\<And>s. cancelled s \<Longrightarrow> cancelled (g s)"
  shows "daemon_inv (onSession n g w)"
proof -
  from assms(1) obtain cur where s: "serves w cur" and k: "linked w" by (auto simp: daemon_inv_def)
  have "serves (onSession n g w) cur"
    using s by (cases cur) (simp_all add: assms live_def)
  moreover have "linked (onSession n g w)"
  proof (rule linkedI)
    show "answered (onSession n g w) m" if "m < length (sessions (onSession n g w))" for m
      using linkedD(1) [OF k, of m] that by (auto simp: answered_def Let_def assms)
    show "waiting (onSession n g w) j" if "j < length (conns (onSession n g w))" for j
      using linkedD(2) [OF k, of j] that by (auto simp: waiting_def assms)
  qed
  ultimately show ?thesis by (auto simp: daemon_inv_def)
qed

lemma inv_stop [simp]: "daemon_inv w \<Longrightarrow> daemon_inv (stop who w)"
  by (auto simp: stop_def split: option.splits intro: inv_onSession)

lemma stop_sel [simp]: "conns (stop who w) = conns w" "srv (stop who w) = srv w"
  "length (sessions (stop who w)) = length (sessions w)"
  by (simp_all add: stop_def split: option.splits)

lemma stop_session:
  "m < length (sessions w) \<Longrightarrow> sessions (stop who w) ! m =
     (if running (srv w) \<and> owner (srv w) = who \<and> cancel (srv w) = Some m
      then (sessions w ! m)\<lparr>cancelled := True\<rparr> else sessions w ! m)"
  by (simp add: stop_def split: option.splits)

lemma inv_live:
  assumes "daemon_inv w" and "live w n"
  shows "serves w (Some n)"
proof -
  from assms(1) obtain cur where "serves w cur" by (auto simp: daemon_inv_def)
  with assms(2) show ?thesis by (cases cur) (auto simp: live_def)
qed

lemma stop_cancels:
  assumes "daemon_inv w" and "live w n" and "sWho (sessions w ! n) = who"
  shows "cancelled (sessions (stop who w) ! n)"
  using inv_live [OF assms(1,2)] assms(3) by (simp add: live_def stop_session)

lemma inv_accept: "daemon_inv w \<Longrightarrow> daemon_inv (accept res w)"
proof -
  assume inv: "daemon_inv w"
  then have k: "linked w" by (simp add: daemon_inv_def)
  have "linked (accept res w)"
  proof (rule linkedI)
    show "answered (accept res w) n" if "n < length (sessions (accept res w))" for n
      using linkedD(1) [OF k, of n] that by (simp add: answered_def Let_def accept_def nth_append)
    show "waiting (accept res w) j" if "j < length (conns (accept res w))" for j
      using linkedD(2) [OF k, of j] that
      by (cases "j < length (conns w)") (auto simp: waiting_def accept_def nth_append less_Suc_eq split: sum.splits)
  qed
  with inv show ?thesis by (auto simp: daemon_inv_def accept_def serves_cong [of "w\<lparr>conns := _\<rparr>" w])
qed

text \<open>A start request that gets past the lock.\<close>

lemma inv_start:
  assumes inv: "daemon_inv w" and i: "i < length (conns w)" "pc (conns w ! i) = Reading"
    and s: "startLock (cWho (conns w ! i)) req (length (sessions w)) (srv w) = (Inr u, s')"
  shows "daemon_inv (onConn i (\<lambda>c. c\<lparr>pc := Starting (length (sessions w))\<rparr>) (w\<lparr>srv := s', sessions := sessions w @
    [\<lparr>sWho = cWho (conns w ! i), sConn = i, cancelled = False, phase = Opening, sToken = t\<rparr>]\<rparr>))" (is "daemon_inv ?w")
proof -
  have s': "\<not> running (srv w)" "s' = (srv w)\<lparr>running := True, owner := cWho (conns w ! i), cancel := Some (length (sessions w))\<rparr>"
    using s by (auto simp: startLock_def split: if_splits)
  from inv obtain cur where cur: "serves w cur" and k: "linked w" by (auto simp: daemon_inv_def)
  have none: "serves w None" using cur s'(1) by (cases cur) auto
  have "serves ?w (Some (length (sessions w)))"
    using none by (auto simp: live_def s'(2) nth_append)
  moreover have "linked ?w"
  proof (rule linkedI)
    show "answered ?w n" if n: "n < length (sessions ?w)" for n
    proof (cases "n = length (sessions w)")
      case False
      then have "n < length (sessions w)" using n by simp
      moreover from this none have "phase (sessions w ! n) = Over" by simp
      ultimately show ?thesis using linkedD(1) [OF k, of n] by (auto simp: answered_def Let_def nth_append)
    qed (simp add: answered_def Let_def i)
    show "waiting ?w j" if "j < length (conns ?w)" for j
      using linkedD(2) [OF k, of j] that i by (auto simp: waiting_def nth_append)
  qed
  ultimately show ?thesis by (intro daemon_invI)
qed

lemma inv_handleRequest:
  assumes inv: "daemon_inv w" and i: "i < length (conns w)" "pc (conns w ! i) = Reading"
  shows "daemon_inv (handleRequest i decoded w)"
proof (cases decoded)
  case (Inr req)
  have ans: "sWho (sessions w ! n) = cWho (conns w ! i)" if "n < length (sessions w)" "sConn (sessions w ! n) = i" for n
    using linkedD(1) [of w n] inv that by (auto simp: daemon_inv_def answered_def Let_def)
  have stopped: "daemon_inv (onConn i (\<lambda>c. c\<lparr>started := False\<rparr>) (stop (cWho (conns w ! i)) w))"
  proof (rule inv_onConn)
    fix n
    assume n: "n < length (sessions (stop (cWho (conns w ! i)) w))" "phase (sessions (stop (cWho (conns w ! i)) w) ! n) = Serving"
      "sConn (sessions (stop (cWho (conns w ! i)) w) ! n) = i" "\<not> cancelled (sessions (stop (cWho (conns w ! i)) w) ! n)"
    then have "live w n" "sWho (sessions w ! n) = cWho (conns w ! i)"
      using ans by (auto simp: live_def stop_session split: if_splits)
    from stop_cancels [OF inv this] n(4)
    show "started ((conns (stop (cWho (conns w ! i)) w) ! i)\<lparr>started := False\<rparr>) \<and>
      pc ((conns (stop (cWho (conns w ! i)) w) ! i)\<lparr>started := False\<rparr>) \<noteq> Closed" by simp
  qed (simp_all add: inv i)
  have refreshing: "daemon_inv (onConn i (\<lambda>c. c\<lparr>pc := Refreshing token\<rparr>) w)" for token
    by (rule inv_onConn) (use inv_serving [OF inv] in \<open>auto simp: inv i\<close>)
  show ?thesis
    using inv stopped refreshing inv_start [OF inv i]
    by (auto simp: Inr handleRequest_def Let_def split: sum.splits Op.splits prod.splits)
qed (simp add: handleRequest_def Let_def inv)

lemma inv_afterOpen:
  assumes inv: "daemon_inv w" and i: "i < length (conns w)" "pc (conns w ! i) = Starting n"
  shows "daemon_inv (afterOpen i n res w)"
proof -
  have k: "linked w" using inv by (simp add: daemon_inv_def)
  have n: "n < length (sessions w)" "phase (sessions w ! n) = Opening" "sConn (sessions w ! n) = i"
    using linkedD(2) [OF k i(1)] i(2) by (auto simp: waiting_def)
  have cur: "serves w (Some n)" by (rule inv_live [OF inv]) (simp add: live_def n)
  have others: "sConn (sessions w ! m) < length (conns w) \<and> sWho (sessions w ! m) = cWho (conns w ! sConn (sessions w ! m))"
    if "m < length (sessions w)" for m
    using linkedD(1) [OF k that] by (auto simp: answered_def Let_def)
  have over: "phase (sessions w ! m) = Over" if "m < length (sessions w)" "m \<noteq> n" for m
    using cur that by simp
  have waits: "pc (conns w ! j) \<noteq> Starting m" if "j < length (conns w)" "j \<noteq> i" for j m
    using linkedD(2) [OF k that(1)] that(2) over [of m] n by (cases "m = n") (auto simp: waiting_def)
  show ?thesis
  proof (cases res)
    case None
    have "linked (onConn i (\<lambda>c. c\<lparr>pc := Reading, started := True\<rparr>)
          (onSession n (\<lambda>s. s\<lparr>phase := Serving\<rparr>) (w\<lparr>srv := (srv w)\<lparr>tun := Some n\<rparr>\<rparr>)))" (is "linked ?w")
      by (rule linkedI) (use others over waits n in \<open>auto simp: answered_def waiting_def Let_def split: if_splits\<close>)
    moreover have "serves ?w (Some n)" using cur n by (auto simp: live_def)
    ultimately have "daemon_inv ?w" by (rule daemon_invI)
    then show ?thesis by (simp add: afterOpen_def None)
  next
    case (Some e)
    have "linked (onConn i (\<lambda>c. c\<lparr>pc := Reading\<rparr>)
          (onSession n (\<lambda>s. s\<lparr>cancelled := True, phase := Over\<rparr>) (w\<lparr>srv := clear (srv w)\<rparr>)))" (is "linked ?w")
      by (rule linkedI) (use others over waits n in \<open>auto simp: answered_def waiting_def Let_def split: if_splits\<close>)
    moreover have "serves ?w None" using over by (auto simp: clear_def)
    ultimately have "daemon_inv ?w" by (rule daemon_invI)
    then show ?thesis by (simp add: afterOpen_def Some)
  qed
qed

lemma inv_afterRun:
  assumes inv: "daemon_inv w" and n: "n < length (sessions w)" "phase (sessions w ! n) = Serving"
  shows "daemon_inv (afterRun n w)"
proof -
  have k: "linked w" using inv by (simp add: daemon_inv_def)
  have cur: "serves w (Some n)" by (rule inv_live [OF inv]) (simp add: live_def n)
  have "linked (afterRun n w)"
  proof (rule linkedI)
    show "answered (afterRun n w) m" if "m < length (sessions (afterRun n w))" for m
      using linkedD(1) [OF k, of m] that by (auto simp: answered_def Let_def afterRun_def)
    show "waiting (afterRun n w) j" if "j < length (conns (afterRun n w))" for j
      using linkedD(2) [OF k, of j] that n by (auto simp: waiting_def afterRun_def)
  qed
  moreover have "serves (afterRun n w) None" using cur by (auto simp: clear_def afterRun_def)
  ultimately show ?thesis by (rule daemon_invI)
qed

lemma inv_refreshTun:
  assumes inv: "daemon_inv w" and i: "i < length (conns w)" "pc (conns w ! i) = Refreshing token"
  shows "daemon_inv (refreshTun i token res w)"
proof -
  have reading: "daemon_inv (onConn i (\<lambda>c. c\<lparr>pc := Reading\<rparr>) w')"
    if "daemon_inv w'" "length (conns w') = length (conns w)" "pc (conns w' ! i) = pc (conns w ! i)" for w'
    by (rule inv_onConn) (use inv_serving [OF that(1)] that i in auto)
  show ?thesis
    unfolding refreshTun_def
    by (rule reading) (auto simp: inv i split: option.splits intro!: inv_reply inv_onSession)
qed

lemma inv_hangUp:
  assumes inv: "daemon_inv w" and i: "i < length (conns w)" "pc (conns w ! i) = Reading"
  shows "daemon_inv (hangUp i w)"
proof -
  let ?who = "cWho (conns w ! i)" and ?w = "if started (conns w ! i) then stop (cWho (conns w ! i)) w else w"
  have gone: "cancelled (sessions ?w ! n)"
    if "n < length (sessions w)" "phase (sessions ?w ! n) = Serving" "sConn (sessions ?w ! n) = i" for n
  proof -
    have n: "phase (sessions w ! n) = Serving" "sConn (sessions w ! n) = i"
      using that by (auto simp: stop_session split: if_splits)
    have "sWho (sessions w ! n) = ?who"
      using linkedD(1) [of w n] inv that(1) n by (auto simp: daemon_inv_def answered_def Let_def)
    moreover have "live w n" using that(1) n by (simp add: live_def)
    ultimately show ?thesis using stop_cancels [OF inv] inv_serving [OF inv that(1) n(1)] n by auto
  qed
  have len: "length (sessions ?w) = length (sessions w)" "conns ?w = conns w" by auto
  show ?thesis
    unfolding hangUp_def by (rule inv_onConn) (use gone len i inv in auto)
qed

interpretation daemon: preserved daemon_step daemon_inv
proof
  fix e w w'
  assume "daemon_step e w w'" and "daemon_inv w"
  then show "daemon_inv w'"
    by cases (auto intro: inv_accept inv_handleRequest inv_hangUp inv_afterOpen inv_refreshTun inv_afterRun)
qed

lemma inv_initial: "daemon_inv (initial b)"
  by (rule daemon_invI [of _ None]) (simp_all add: initial_def linked_def)

subsection \<open>Executing a sequence of actions\<close>

definition act :: "action \<Rightarrow> world \<Rightarrow> world option" where
  "act e w =
     (case e of
        Accept res \<Rightarrow> Some (accept res w)
      | Receive i decoded \<Rightarrow>
          if i < length (conns w) \<and> pc (conns w ! i) = Reading then Some (handleRequest i decoded w) else None
      | HangUp i \<Rightarrow> if i < length (conns w) \<and> pc (conns w ! i) = Reading then Some (hangUp i w) else None
      | OpenReturns i res \<Rightarrow>
          if i < length (conns w)
          then (case pc (conns w ! i) of Starting n \<Rightarrow> Some (afterOpen i n res w) | _ \<Rightarrow> None) else None
      | RefreshGoesOn i res \<Rightarrow>
          if i < length (conns w)
          then (case pc (conns w ! i) of Refreshing t \<Rightarrow> Some (refreshTun i t res w) | _ \<Rightarrow> None) else None
      | RunReturns n \<Rightarrow>
          if n < length (sessions w) \<and> phase (sessions w ! n) = Serving then Some (afterRun n w) else None)"

lemma act_iff: "act e w = Some w' \<longleftrightarrow> daemon_step e w w'"
  by (cases e) (auto simp: act_def daemon_step_simps split: pc.splits)

fun acts :: "action list \<Rightarrow> world \<Rightarrow> world option" where
  "acts [] w = Some w"
| "acts (e # es) w = Option.bind (act e w) (acts es)"

lemma runs_Cons: "runs step s1 es s2 \<Longrightarrow> step e s0 s1 \<Longrightarrow> runs step s0 (e # es) s2"
proof (induction rule: runs.induct)
  case (runs_refl s)
  then show ?case using runs.runs_step [where es = "[]", of step s0 s0 e s] runs.runs_refl [of step s0] by simp
next
  case (runs_step s es s1 e' s2)
  from runs.runs_step [OF runs_step.IH [OF runs_step.prems] runs_step.hyps(2)] show ?case by simp
qed

lemma acts_runs: "acts es w = Some w' \<Longrightarrow> runs daemon_step w es w'"
  by (induction es arbitrary: w)
    (auto simp: act_iff bind_eq_Some_conv intro: runs.runs_refl runs_Cons)

subsection \<open>What the daemon promises\<close>

text \<open>
  C12: one tunnel at a time.  However the goroutines of all connections interleave, at most one
  session is being opened or served; while there is one the server says so, names its starter
  as the owner and holds the function that cancels it, and when there is none the server is
  free.
\<close>

theorem one_tunnel_at_a_time:
  assumes "runs daemon_step (initial b) es w"
  shows "(\<forall>n m. live w n \<and> live w m \<longrightarrow> n = m) \<and> (running (srv w) \<longleftrightarrow> (\<exists>n. live w n)) \<and>
    (\<forall>n. live w n \<longrightarrow> owner (srv w) = sWho (sessions w ! n) \<and> cancel (srv w) = Some n \<and>
       sWho (sessions w ! n) = cWho (conns w ! sConn (sessions w ! n)))"
proof -
  have inv: "daemon_inv w" by (rule daemon.runs_keep [OF assms inv_initial])
  then obtain cur where cur: "serves w cur" and k: "linked w" by (auto simp: daemon_inv_def)
  have "sWho (sessions w ! n) = cWho (conns w ! sConn (sessions w ! n))" if "live w n" for n
    using linkedD(1) [OF k, of n] that by (auto simp: live_def answered_def Let_def)
  with cur show ?thesis by (cases cur) (auto simp: live_def)
qed

text \<open>A session that is cancelled and goes on was cancelled by its owner.\<close>

lemma handleRequest_cancels:
  assumes "m < length (sessions w)" and "\<not> cancelled (sessions w ! m)"
    and "cancelled (sessions (handleRequest i decoded w) ! m)"
  shows "owner (srv w) = cWho (conns w ! i) \<and> cancel (srv w) = Some m \<and> (\<exists>req. decoded = Inr req \<and> rOp req = OpStop)"
  using assms by (auto simp: handleRequest_def Let_def stop_session nth_append split: sum.splits Op.splits prod.splits if_splits)

lemma hangUp_cancels:
  assumes "m < length (sessions w)" and "\<not> cancelled (sessions w ! m)" and "cancelled (sessions (hangUp i w) ! m)"
  shows "owner (srv w) = cWho (conns w ! i) \<and> cancel (srv w) = Some m"
  using assms by (auto simp: hangUp_def stop_session split: if_splits)

lemma step_cancels:
  assumes "daemon_step e w w'" and "m < length (sessions w)" and "\<not> cancelled (sessions w ! m)"
    and "cancelled (sessions w' ! m)" and "phase (sessions w' ! m) \<noteq> Over"
  shows "\<exists>i. (e = HangUp i \<or> (\<exists>req. e = Receive i (Inr req) \<and> rOp req = OpStop)) \<and>
    owner (srv w) = cWho (conns w ! i) \<and> cancel (srv w) = Some m"
  using assms
proof cases
  case (step_open i n res)
  with assms show ?thesis by (auto simp: afterOpen_def split: option.splits if_splits)
next
  case (step_refresh i t res)
  with assms show ?thesis by (auto simp: refreshTun_def split: option.splits if_splits)
next
  case (step_run n)
  with assms show ?thesis by (auto simp: afterRun_def split: if_splits)
qed (use assms handleRequest_cancels hangUp_cancels in \<open>auto simp: accept_def\<close>)

text \<open>
  C11: no window, no tunnel, and nobody else's hand.  A session whose connection has closed is
  cancelled, if it has not ended already; and a session that is cancelled while it goes on is
  cancelled by a stop request or by the closing of a connection of the principal who started
  it, never by another user.
\<close>

theorem no_window_no_tunnel:
  assumes "runs daemon_step (initial b) es w" and "live w n"
  shows "(pc (conns w ! sConn (sessions w ! n)) = Closed \<longrightarrow> cancelled (sessions w ! n)) \<and>
    (\<forall>e w'. daemon_step e w w' \<and> live w' n \<and> \<not> cancelled (sessions w ! n) \<and> cancelled (sessions w' ! n) \<longrightarrow>
       (\<exists>i. (e = HangUp i \<or> (\<exists>req. e = Receive i (Inr req) \<and> rOp req = OpStop)) \<and>
          cWho (conns w ! i) = sWho (sessions w ! n)))"
proof -
  have inv: "daemon_inv w" by (rule daemon.runs_keep [OF assms(1) inv_initial])
  have n: "n < length (sessions w)" using assms(2) by (simp add: live_def)
  have "cancelled (sessions w ! n)" if "pc (conns w ! sConn (sessions w ! n)) = Closed"
    using linkedD(1) [of w n] inv n assms(2) that
    by (cases "phase (sessions w ! n)") (auto simp: daemon_inv_def live_def answered_def Let_def)
  moreover have "owner (srv w) = sWho (sessions w ! n)" using inv_live [OF inv assms(2)] by simp
  ultimately show ?thesis using step_cancels [of _ w _ n] n by (fastforce simp: live_def)
qed

subsection \<open>Sequences of actions that show its edges\<close>

definition startReq :: "string \<Rightarrow> Request" where
  "startReq t = \<lparr>rOp = OpStart, rBuild = \<lparr>Release = ''1'', bDescr = 64\<rparr>, rHEMURL = ''https://hem'', rIdentity = ''id'',
     rPeer = [], rToken = t, rPubKeys = []\<rparr>"

definition refreshReq :: "string \<Rightarrow> Request" where
  "refreshReq t = (startReq t)\<lparr>rOp := OpRefresh\<rparr>"

abbreviation aBuild :: Build where
  "aBuild \<equiv> \<lparr>Release = ''1'', bDescr = 64\<rparr>"

lemmas act_eval = act_def initial_def accept_def handleRequest_def startReq_def refreshReq_def Request_Validate_def
  startLock_def Matches_def onConn_def onSession_def reply_def afterOpen_def afterRun_def clear_def hangUp_def stop_def
  refreshCheck_def refreshTun_def Let_def live_def

theorem one_tunnel_at_a_time_witness:
  "\<exists>w. runs daemon_step (initial aBuild) [Accept (Inr ''uid:1''), Receive 0 (Inr (startReq ''t''))] w \<and>
     running (srv w) \<and> owner (srv w) = ''uid:1'' \<and> live w 0 \<and> (\<forall>m. live w m \<longrightarrow> m = 0)"
proof -
  obtain w where w: "acts [Accept (Inr ''uid:1''), Receive 0 (Inr (startReq ''t''))] (initial aBuild) = Some w"
    and l: "live w 0" and o: "owner (srv w) = ''uid:1''"
    by (simp add: act_eval)
  from one_tunnel_at_a_time [OF acts_runs [OF w]] acts_runs [OF w] l o show ?thesis by blast
qed

theorem no_window_no_tunnel_witness:
  "\<exists>w. runs daemon_step (initial aBuild) [Accept (Inr ''uid:1''), Receive 0 (Inr (startReq ''t'')), OpenReturns 0 None, HangUp 0] w \<and>
     live w 0 \<and> cancelled (sessions w ! 0)"
proof -
  obtain w where w: "acts [Accept (Inr ''uid:1''), Receive 0 (Inr (startReq ''t'')), OpenReturns 0 None, HangUp 0] (initial aBuild) = Some w"
    and l: "live w 0" and c: "pc (conns w ! sConn (sessions w ! 0)) = Closed"
    by (simp add: act_eval okReply_def)
  from no_window_no_tunnel [OF acts_runs [OF w] l] c acts_runs [OF w] l show ?thesis by blast
qed

text \<open>
  A connection that closes takes down more than it started: when its own tunnel is over, the
  deferred stop goes by the principal and reaches the tunnel another connection of the same
  user has started since, while that connection is open.
\<close>

lemma closing_reaches_another_window:
  "\<exists>es w. runs daemon_step (initial aBuild) (es @ [HangUp 0]) w \<and> live w 1 \<and> cancelled (sessions w ! 1) \<and>
     sConn (sessions w ! 1) = 1 \<and> started (conns w ! 1) \<and> pc (conns w ! 1) = Reading"
proof -
  let ?es = "[Accept (Inr ''uid:1''), Accept (Inr ''uid:1''), Receive 0 (Inr (startReq ''t'')), OpenReturns 0 None,
    RunReturns 0, Receive 1 (Inr (startReq ''u'')), OpenReturns 1 None]"
  obtain w where w: "acts (?es @ [HangUp 0]) (initial aBuild) = Some w"
    and "live w 1" "cancelled (sessions w ! 1)" "sConn (sessions w ! 1) = 1" "started (conns w ! 1)" "pc (conns w ! 1) = Reading"
    by (simp add: act_eval okReply_def)
  with acts_runs [OF w] show ?thesis by blast
qed

text \<open>
  The two critical sections of a refresh are apart: a token sent by one user can end up in
  the tunnel of another, started between the check of the owner and the use of the tunnel.
\<close>

lemma refresh_reaches_another_user:
  "\<exists>es w. runs daemon_step (initial aBuild) es w \<and> live w 1 \<and> sWho (sessions w ! 1) = ''uid:2'' \<and>
     Receive 0 (Inr (refreshReq ''v'')) \<in> set es \<and> cWho (conns w ! 0) = ''uid:1'' \<and> sToken (sessions w ! 1) = ''v''"
proof -
  let ?es = "[Accept (Inr ''uid:1''), Accept (Inr ''uid:2''), Receive 0 (Inr (startReq ''t'')), OpenReturns 0 None,
    Receive 0 (Inr (refreshReq ''v'')), RunReturns 0, Receive 1 (Inr (startReq ''u'')), OpenReturns 1 None, RefreshGoesOn 0 None]"
  obtain w where w: "acts ?es (initial aBuild) = Some w"
    and "live w 1" "sWho (sessions w ! 1) = ''uid:2''" "cWho (conns w ! 0) = ''uid:1''" "sToken (sessions w ! 1) = ''v''"
    by (simp add: act_eval okReply_def)
  with acts_runs [OF w] show ?thesis by (intro exI [of _ ?es] exI [of _ w]) simp
qed

end
