(* ===== verification/DaemonTunnel.thy ===== *)
theory DaemonTunnel
  imports Teardown Daemon
begin

text \<open>
  \<open>cmd/wg-hem/daemon.go\<close>: what the component puts into the daemon's \<open>Open\<close>, and what it tells the
  window.  \<open>hem.NewClient\<close> and \<open>hem.TokenExpiry\<close> are parameters; the map of public keys in a
  request is the list of its entries.  The adapter's \<open>Run\<close> and \<open>say\<close> only pass events on and
  are not modelled.
\<close>

subsection \<open>Opening a tunnel\<close>

text \<open>One token, for one scope.\<close>

definition requestToken :: "Request \<Rightarrow> 'w TokenFunc" where
  "requestToken req scope =
     (if scope = ''keymgmt:use:'' @ rIdentity req then returnS (rToken req)
      else failS (Fail KindAuth ''no token for %s: this component is given one, scoped to the interface key, and reads records by anonymous search - the device needs allow_keysearch'' []))"

fun decodeKeys :: "(string \<times> string) list \<Rightarrow> error + (string \<Rightarrow> bytes option)" where
  "decodeKeys [] = Inr (\<lambda>_. None)"
| "decodeKeys ((kid, b64) # rest) =
     (case b64Decode b64 of
        None \<Rightarrow> Inl (Msg ''the public key offered for %s is not base64: %w'')
      | Some raw \<Rightarrow> bindE (decodeKeys rest) (\<lambda>out. Inr (out(kid \<mapsto> raw))))"

definition peerByKID :: "Tree \<Rightarrow> string \<Rightarrow> error + ConfigPeer" where
  "peerByKID tree kid =
     (if kid = [] then (case Peers tree of [] \<Rightarrow> Inl Panic | p # _ \<Rightarrow> Inr p)
      else case find (\<lambda>p. cpKID p = kid) (Peers tree) of
        Some p \<Rightarrow> Inr p
      | None \<Rightarrow> Inl (Fail KindIntegrity ''the configuration this component read holds no peer %s; it may have changed since the window looked'' []))"

record daemonTunnel =
  dTree :: Tree
  dPeer :: ConfigPeer
  dExpiry :: int
  dOpts :: Opts

definition openTunnel :: "nat \<Rightarrow> size_tags \<Rightarrow> (string \<Rightarrow> 'w Client) \<Rightarrow> (string \<Rightarrow> int) \<Rightarrow> Request \<Rightarrow>
    ('w, error, daemonTunnel) io" where
  "openTunnel fuel sz newClient tokenExpiry req =
     (let client = newClient (rHEMURL req) in
      bindS (mapErrS (\<lambda>e. Classify e KindNetwork ''checkin'') (Checkin client)) (\<lambda>_.
      bindS (liftE (mapErr (\<lambda>e. Fail KindDevice ''%v'' []) (decodeKeys (rPubKeys req)))) (\<lambda>keys.
      bindS (mapErrS classifyLoadKind
        (LoadIdentityWithKeys fuel sz client (requestToken req) (rIdentity req) keys)) (\<lambda>tree.
      bindS (liftE (peerByKID tree (rPeer req))) (\<lambda>peer.
      returnS \<lparr>dTree = tree, dPeer = peer, dExpiry = tokenExpiry (rToken req),
        dOpts = \<lparr>oTree = tree, oUseTok = rToken req, oHEMURL = rHEMURL req, oIfname = ''wg0''\<rparr>\<rparr>)))))"

subsection \<open>What the window is told\<close>

text \<open>
  A \<open>time.Time\<close> as its seconds since year 1, which wrap at 64 bits, and its nanoseconds; the
  zero time is the pair of zeros.
\<close>

definition timeOf :: "(int \<times> int) option \<Rightarrow> int \<times> int" where
  "timeOf t =
     (case t of
        None \<Rightarrow> (0, 0)
      | Some (s, n) \<Rightarrow> (sint (word_of_int (s + n div 10 ^ 9 + 62135596800) :: 64 word), n mod 10 ^ 9))"

definition After :: "int \<times> int \<Rightarrow> int \<times> int \<Rightarrow> bool" where
  "After t u \<longleftrightarrow> fst t > fst u \<or> fst t = fst u \<and> snd t > snd u"

record Event =
  eState :: string
  eInterface :: string
  eAddrs :: "string list"
  ePeer :: string
  ePeerKID :: string
  eEndpoint :: string
  eRx :: "64 word"
  eTx :: "64 word"
  eLast :: "int \<times> int"
  eExpires :: int
  eNotice :: string

definition addrStrings :: "Prefix list \<Rightarrow> string list" where
  "addrStrings addrs = map PrefixString addrs"

definition addPeer :: "PeerStatus \<Rightarrow> Event \<Rightarrow> Event" where
  "addPeer p e = e\<lparr>eRx := eRx e + of_nat (RxBytes p), eTx := eTx e + of_nat (TxBytes p),
     eLast := (if After (timeOf (LastHandshake p)) (eLast e) then timeOf (LastHandshake p) else eLast e)\<rparr>"

definition snapshot :: "daemonTunnel \<Rightarrow> Tunnel \<Rightarrow> error + DeviceStatus \<Rightarrow> Event" where
  "snapshot d t status =
     (let peer = (case tPeer t of Some current \<Rightarrow> current | None \<Rightarrow> dPeer d);
          e = \<lparr>eState = [], eInterface = tIfname t, eAddrs = addrStrings (Tunnel_Addrs (dOpts d)),
               ePeer = cpLabel peer, ePeerKID = cpKID peer, eEndpoint = Endpoint_String (peerEndpoint (cpPeer peer)),
               eRx = 0, eTx = 0, eLast = (0, 0), eExpires = dExpiry d, eNotice = []\<rparr>
      in case status of Inl _ \<Rightarrow> e | Inr st \<Rightarrow> fold addPeer (stPeers st) e)"

definition report :: "daemonTunnel \<Rightarrow> Tunnel \<Rightarrow> error + DeviceStatus \<Rightarrow> Event" where
  "report d t status =
     (let e = snapshot d t status in
      e\<lparr>eState := (if eLast e = (0, 0) then ''connecting'' else ''connected'')\<rparr>)"

subsection \<open>What an opened tunnel is\<close>

lemma peerByKID_Inr:
  "peerByKID tree kid = Inr p \<Longrightarrow> p \<in> set (Peers tree) \<and> (kid \<noteq> [] \<longrightarrow> cpKID p = kid) \<and> (kid = [] \<longrightarrow> p = hd (Peers tree))"
  by (auto simp: peerByKID_def dest: find_SomeD split: if_splits list.splits option.splits)

lemma openTunnel_Inr:
  assumes "openTunnel fuel sz newClient ex req w = (Inr d, w')"
  shows "\<exists>keys e d1. loadFrom fuel sz (newClient (rHEMURL req)) (requestToken req) e (fromSupplied keys) d1 = (Inr (dTree d), w') \<and>
    keKID e = rIdentity req \<and> peerByKID (dTree d) (rPeer req) = Inr (dPeer d) \<and>
    dOpts d = \<lparr>oTree = dTree d, oUseTok = rToken req, oHEMURL = rHEMURL req, oIfname = ''wg0''\<rparr>"
proof -
  from assms obtain keys tree w1 peer where
    "LoadIdentityWithKeys fuel sz (newClient (rHEMURL req)) (requestToken req) (rIdentity req) keys w1 = (Inr tree, w')"
    "peerByKID tree (rPeer req) = Inr peer"
    "d = \<lparr>dTree = tree, dPeer = peer, dExpiry = ex (rToken req),
        dOpts = \<lparr>oTree = tree, oUseTok = rToken req, oHEMURL = rHEMURL req, oIfname = ''wg0''\<rparr>\<rparr>"
    by (auto simp: openTunnel_def Let_def result_inv)
  with loadNamed_loadFrom show ?thesis unfolding LoadIdentityWithKeys_def by fastforce
qed

text \<open>
  C8: what a window gets.  However a start request was put together - its keys come from a
  process that is not trusted - a tunnel that is opened for it is on a configuration of the
  identity it names, read from the device and authenticated by it, with every key checked
  against its identifier; it starts on the peer the request names, or on the first; and
  whatever happens while it runs, it is never on anything but a peer of that configuration.
\<close>

theorem window_gets_an_authentic_tunnel:
  assumes "\<And>token kid. honest_hmac (newClient (rHEMURL req)) token kid (h kid)"
    and "openTunnel fuel sz newClient ex req w0 = (Inr d, w1)"
  shows "tree_ok sz (dTree d) \<and> IfKID (dTree d) = rIdentity req \<and>
    (\<exists>msg. Canonical sz (IfPubKey (dTree d)) (IfRaw (dTree d)) (map recordOf (Peers (dTree d))) = Inr msg \<and>
       MAC (Iface (dTree d)) = h (rIdentity req) msg) \<and>
    dPeer d \<in> set (Peers (dTree d)) \<and> (rPeer req \<noteq> [] \<longrightarrow> cpKID (dPeer d) = rPeer req) \<and>
    (rPeer req = [] \<longrightarrow> dPeer d = hd (Peers (dTree d))) \<and>
    inTree (dTree d) (snd (snd (snd (Tunnel_Run c P E (dOpts d) WalkPeers es tried (dPeer d) (w, New (dOpts d))))))"
proof -
  from openTunnel_Inr [OF assms(2)] obtain keys e d1 where
    l: "loadFrom fuel sz (newClient (rHEMURL req)) (requestToken req) e (fromSupplied keys) d1 = (Inr (dTree d), w1)"
    and e: "keKID e = rIdentity req" and p: "peerByKID (dTree d) (rPeer req) = Inr (dPeer d)"
    and opts: "oTree (dOpts d) = dTree d" by auto
  have id: "IfKID (dTree d) = rIdentity req" using loadFrom_Inr [OF l] e by auto
  have mem: "dPeer d \<in> set (Peers (oTree (dOpts d)))" using peerByKID_Inr [OF p] opts by simp
  have run: "inTree (dTree d) (snd (snd (snd (Tunnel_Run c P E (dOpts d) WalkPeers es tried (dPeer d) (w, New (dOpts d))))))"
    using walk.Run_inTree [OF mem] unfolding opts .
  from loadFrom_authentic [OF assms(1) l] peerByKID_Inr [OF p] run show ?thesis unfolding id by simp
qed

subsection \<open>A request that is served\<close>

text \<open>A device with one identity whose only peer has the identity's own key.\<close>

definition soloDevice :: "bytes \<Rightarrow> nat Client" where
  "soloDevice tag = (exampleDevice tag)
     \<lparr>Checkin := returnS (),
      SearchKeys := (\<lambda>token pat off n. if pat = bytes_of MagicInterface
        then returnS (1, [\<lparr>keKID = KID examplePeerKey, keLabel = ''id'', keDescr = exampleIfRecord tag, keCreated = 1\<rparr>])
        else returnS (1, [\<lparr>keKID = KID examplePeerKey, keLabel = ''peer'', keDescr = examplePeerRecord, keCreated = 2\<rparr>]))\<rparr>"

definition soloRequest :: Request where
  "soloRequest = (startReq ''t'')\<lparr>rIdentity := KID examplePeerKey,
     rPubKeys := [(KID examplePeerKey, b64Encode examplePeerKey)]\<rparr>"

lemma solo_search:
  "search (Suc n) (soloDevice tag) tok MagicInterface k =
     (Inr [\<lparr>keKID = KID examplePeerKey, keLabel = ''id'', keDescr = exampleIfRecord tag, keCreated = 1\<rparr>], k)"
  "search (Suc n) (soloDevice tag) tok MagicPeer k =
     (Inr [\<lparr>keKID = KID examplePeerKey, keLabel = ''peer'', keDescr = examplePeerRecord, keCreated = 2\<rparr>], k)"
  by (simp_all add: search_def soloDevice_def MagicInterface_def MagicPeer_def)

lemma solo_open:
  assumes "Canonical size_descr64 examplePeerKey (exampleIfRecord zeroMAC) examplePeers = Inr msg"
  shows "\<exists>d. openTunnel 1 size_descr64 (\<lambda>_. soloDevice (toyTag msg)) (\<lambda>_. 0) soloRequest 0 = (Inr d, 0)"
proof -
  let ?c = "soloDevice (toyTag msg)"
  have l: "length (toyTag msg) = MACLen" by (simp add: toyTag_def)
  have dec: "DecodeInterface size_descr64 (exampleIfRecord (toyTag msg)) = Inr (canonInterface (exampleIf\<lparr>MAC := toyTag msg\<rparr>))"
    by (rule Interface_enc_dec [OF exampleIf_wf [OF l] exampleIf_Encode [OF l]])
  have norm: "Normalize size_descr64 (exampleIfRecord (toyTag msg)) = Inr (exampleIfRecord (toyTag msg))"
    "Normalize size_descr64 examplePeerRecord = Inr examplePeerRecord"
    by (simp_all add: Normalize_padded example_lengths examplePeerRecord_def)
  have pdec: "DecodePeer size_descr64 examplePeerRecord = Inr (canonPeer examplePeer)"
    by (rule Peer_enc_dec [OF examplePeer_wf examplePeer_Encode])
  have refs: "PeerRefs (canonInterface (exampleIf\<lparr>MAC := toyTag msg\<rparr>)) = [MakePeerRef examplePeerKey]"
    by (simp add: canonInterface_def exampleIf_def)
  have lens: "length examplePeerKey = PubKeyLen" by (simp add: examplePeerKey_def PubKeyLen_def)
  have keys: "decodeKeys (rPubKeys soloRequest) = Inr [KID examplePeerKey \<mapsto> examplePeerKey]"
    by (simp add: soloRequest_def)
  have hv: "HmacVerify ?c = HmacVerify (exampleDevice (toyTag msg))" by (simp add: soloDevice_def)
  have load: "\<exists>t. Peers t \<noteq> [] \<and> LoadIdentityWithKeys 1 size_descr64 ?c (requestToken soloRequest) (KID examplePeerKey)
      [KID examplePeerKey \<mapsto> examplePeerKey] 0 = (Inr t, 0)"
    by (simp add: LoadIdentityWithKeys_def loadNamed_def loadFrom_def bindS_apply solo_search [of 0, simplified] Let_def norm dec pdec refs
        resolve_def example_lengths lens mapErrS_def PeerRefFromKID_KID recordOf_def requestToken_def soloRequest_def
        Verify_example [OF assms hv, unfolded examplePeers_def])
  then obtain t where "Peers t \<noteq> []" and "LoadIdentityWithKeys 1 size_descr64 ?c (requestToken soloRequest) (KID examplePeerKey)
      [KID examplePeerKey \<mapsto> examplePeerKey] 0 = (Inr t, 0)" by blast
  moreover have "Checkin ?c 0 = (Inr (), 0)" by (simp add: soloDevice_def)
  moreover have "rIdentity soloRequest = KID examplePeerKey" "rPeer soloRequest = []" by (simp_all add: soloRequest_def startReq_def)
  ultimately show ?thesis
    by (cases "Peers t") (simp_all add: openTunnel_def Let_def bindS_apply mapErrS_def keys peerByKID_def)
qed

lemma soloDevice_honest: "honest_hmac (soloDevice tag) token kid toyTag"
  using exampleDevice_honest [of tag token kid] by (simp add: honest_hmac_def soloDevice_def)

theorem window_gets_an_authentic_tunnel_witness:
  "\<exists>tag d. openTunnel 1 size_descr64 (\<lambda>_. soloDevice tag) (\<lambda>_. 0) soloRequest 0 = (Inr d, 0) \<and>
     tree_ok size_descr64 (dTree d) \<and> IfKID (dTree d) = KID examplePeerKey \<and> dPeer d \<in> set (Peers (dTree d))"
proof -
  obtain msg where "Canonical size_descr64 examplePeerKey (exampleIfRecord zeroMAC) examplePeers = Inr msg"
    using example_Canonical [of zeroMAC] by auto
  from solo_open [OF this] obtain d where
    d: "openTunnel 1 size_descr64 (\<lambda>_. soloDevice (toyTag msg)) (\<lambda>_. 0) soloRequest 0 = (Inr d, 0)" by blast
  have id: "rIdentity soloRequest = KID examplePeerKey" by (simp add: soloRequest_def)
  note t = window_gets_an_authentic_tunnel [OF soloDevice_honest d, where c = deafClient]
  note rest = conjunct2 [OF conjunct2 [OF t]]
  have a: "tree_ok size_descr64 (dTree d) \<and> IfKID (dTree d) = rIdentity soloRequest \<and> dPeer d \<in> set (Peers (dTree d))"
    by (rule conjI [OF conjunct1 [OF t] conjI [OF conjunct1 [OF conjunct2 [OF t]] conjunct1 [OF conjunct2 [OF rest]]]])
  show ?thesis using d a unfolding id by blast
qed

end
