(* ===== verification/Handoff.thy ===== *)
theory Handoff
  imports NetText
begin

text \<open>
  \<open>internal/handoff\<close>: the entry an administrator adds on the server, as a section for a
  configuration file and as a command.
\<close>

record HandoffPeer =
  hpPublicKey :: string
  hpAddresses :: "Prefix list"
  hpLabel :: string
  hpPresharedKey :: string

definition hostOf :: "Prefix \<Rightarrow> Prefix" where
  "hostOf a = PrefixFrom (pfxAddr a) (int (BitLen (pfxAddr a)))"

fun uniqueHosts :: "Prefix list \<Rightarrow> (string \<Rightarrow> bool) \<Rightarrow> string list" where
  "uniqueHosts [] seen = []"
| "uniqueHosts (a # as) seen =
     (let host = PrefixString (hostOf a) in
      if seen host then uniqueHosts as seen else host # uniqueHosts as (seen(host := True)))"

definition hasDot :: "string \<Rightarrow> bool" where
  "hasDot s \<longleftrightarrow> CHR ''.'' \<in> set s"

text \<open>\<open>sort.SliceStable\<close> by having a dot or not is a stable sort on that key.\<close>

definition Handoff_AllowedIPs :: "HandoffPeer \<Rightarrow> string list" where
  "Handoff_AllowedIPs p =
     sort_key (\<lambda>s. if hasDot s then 0 else (1 :: nat)) (uniqueHosts (hpAddresses p) (\<lambda>_. False))"

definition nl :: string where "nl = [CHR 0x0A]"

definition ConfBlock :: "HandoffPeer \<Rightarrow> string" where
  "ConfBlock p =
     ''[Peer]'' @ nl @
     (if hpLabel p \<noteq> [] then ''# '' @ hpLabel p @ nl else []) @
     ''PublicKey = '' @ hpPublicKey p @ nl @
     (if hpPresharedKey p \<noteq> [] then ''PresharedKey = '' @ hpPresharedKey p @ nl else []) @
     ''AllowedIPs = '' @ Join '', '' (Handoff_AllowedIPs p) @ nl"

definition SetCommand :: "HandoffPeer \<Rightarrow> string \<Rightarrow> string" where
  "SetCommand p iface =
     (let iface = (if iface = [] then ''wg0'' else iface); bs = [CHR 0x5C] in
     ''wg set '' @ iface @ '' peer '' @ hpPublicKey p @ '' '' @ bs @ nl @
     (if hpPresharedKey p \<noteq> [] then ''  preshared-key /path/to/psk '' @ bs @ nl else []) @
     ''  allowed-ips '' @ Join '','' (Handoff_AllowedIPs p) @ nl @
     (if hpPresharedKey p \<noteq> [] then
        nl @ ''# The pre-shared key is read from a file, not from this line:'' @ nl @
        ''#   umask 077; printf %s '' @ [CHR 0x27] @ hpPresharedKey p @ [CHR 0x27] @ '' > /path/to/psk'' @ nl
      else []))"

lemma uniqueHosts_set:
  "set (uniqueHosts as seen) = (\<lambda>a. PrefixString (hostOf a)) ` set as - {s. seen s}"
  by (induction as arbitrary: seen) (auto simp: Let_def split: if_splits)

lemma uniqueHosts_distinct: "distinct (uniqueHosts as seen)"
  by (induction as arbitrary: seen) (auto simp: Let_def uniqueHosts_set)

lemma host_covers_one:
  assumes "AddrIsValid a" and "Contains (PrefixFrom a (int (BitLen a))) b"
  shows "addr_bits b = addr_bits a \<and> BitLen b = BitLen a"
  using assms by (cases a; cases b) (auto simp: Contains_def PrefixFrom_def addr_bits_def)

text \<open>
  What the server is told to route is the client's addresses and nothing else.  Every
  configured address appears once, as the single host it is, IPv4 before IPv6; and the
  prefix that is printed covers no address but that one, so a client configured with a /24
  does not claim its neighbours.
\<close>

theorem handoff_single_hosts:
  assumes "\<forall>a \<in> set (hpAddresses p). wf_Prefix a \<and> PrefixIsValid a"
  shows "set (Handoff_AllowedIPs p) = (\<lambda>a. PrefixString (hostOf a)) ` set (hpAddresses p) \<and>
     distinct (Handoff_AllowedIPs p) \<and>
     sorted (map (\<lambda>s. if hasDot s then 0 else (1 :: nat)) (Handoff_AllowedIPs p)) \<and>
     (\<forall>a \<in> set (hpAddresses p). Contains (hostOf a) (pfxAddr a) \<and>
        (\<forall>b. Contains (hostOf a) b \<longrightarrow> BitLen b = BitLen (pfxAddr a) \<and> addr_bits b = addr_bits (pfxAddr a)))"
proof -
  have "Contains (hostOf a) (pfxAddr a) \<and>
      (\<forall>b. Contains (hostOf a) b \<longrightarrow> BitLen b = BitLen (pfxAddr a) \<and> addr_bits b = addr_bits (pfxAddr a))"
    if "a \<in> set (hpAddresses p)" for a
  proof -
    have v: "AddrIsValid (pfxAddr a)" and "WithoutZone (pfxAddr a) = pfxAddr a"
      using assms that by (auto simp: wf_Prefix_def PrefixIsValid_def)
    then have "Zone (pfxAddr a) = []" by (cases "pfxAddr a") auto
    with v have "Contains (hostOf a) (pfxAddr a)" unfolding hostOf_def by (rule Contains_host)
    moreover have "BitLen b = BitLen (pfxAddr a) \<and> addr_bits b = addr_bits (pfxAddr a)"
      if "Contains (hostOf a) b" for b
      using host_covers_one [OF v that [unfolded hostOf_def]] by simp
    ultimately show ?thesis by blast
  qed
  moreover have "set (Handoff_AllowedIPs p) = (\<lambda>a. PrefixString (hostOf a)) ` set (hpAddresses p)"
    "distinct (Handoff_AllowedIPs p)"
    "sorted (map (\<lambda>s. if hasDot s then 0 else (1 :: nat)) (Handoff_AllowedIPs p))"
    by (simp_all add: Handoff_AllowedIPs_def uniqueHosts_set uniqueHosts_distinct)
  ultimately show ?thesis by blast
qed

theorem handoff_single_hosts_witness:
  "set (Handoff_AllowedIPs \<lparr>hpPublicKey = [], hpAddresses = [PrefixFrom (Addr4 0x0A010105) 24],
      hpLabel = [], hpPresharedKey = []\<rparr>) = {PrefixString (PrefixFrom (Addr4 0x0A010105) 32)}"
  using handoff_single_hosts [of "\<lparr>hpPublicKey = [], hpAddresses = [PrefixFrom (Addr4 0x0A010105) 24],
      hpLabel = [], hpPresharedKey = []\<rparr>"]
  by (simp add: PrefixFrom_def hostOf_def PrefixIsValid_def wf_Prefix_def)

end
