(* ===== verification/Provision.thy ===== *)
theory Provision
  imports Config Handoff
begin

text \<open>
  \<open>internal/provision\<close>: writing a configuration into the device.  \<open>Run\<close> keeps four local
  variables that its deferred function reads after a failure; they are the \<open>Progress\<close>
  record, threaded next to the device so that it survives an error.  A nil pre-shared key
  is \<open>None\<close>.  Progress messages are not modelled.
\<close>

subsection \<open>Peers as a caller describes them\<close>

definition keyType :: string where "keyType = ''CURVE25519''"

record PeerSpec =
  psPubKey :: bytes
  psLabel :: string
  psEndpoint :: Endpoint
  psAllowedIPs :: "Prefix list"
  psKeepalive :: byte

definition specPeer :: "PeerSpec \<Rightarrow> bytes option \<Rightarrow> Peer" where
  "specPeer p wrappedPSK =
     \<lparr>peerEndpoint = psEndpoint p, AllowedIPs = psAllowedIPs p, Keepalive = psKeepalive p,
      PSKWrapped = (case wrappedPSK of None \<Rightarrow> [] | Some w \<Rightarrow> w)\<rparr>"

definition Record :: "size_tags \<Rightarrow> PeerSpec \<Rightarrow> bytes option \<Rightarrow> descr_error + Peer" where
  "Record sz p wrappedPSK =
     (let rec = specPeer p wrappedPSK in bindE (Peer_Encode sz rec) (\<lambda>_. Inr rec))"

subsection \<open>Parameters\<close>

record Params =
  pAddrs :: "Prefix list"
  pDNS :: "Addr list"
  pMTU :: int
  pListenPort :: int
  pLabel :: string
  pPeers :: "PeerSpec list"
  pKID :: string
  pPSK :: "bytes option"
  pPSKGenerated :: bool
  pAdopt :: bool

fun firstDuplicate :: "bytes list \<Rightarrow> (bytes \<Rightarrow> bool) \<Rightarrow> bool" where
  "firstDuplicate [] seen = False"
| "firstDuplicate (k # ks) seen = (seen k \<or> firstDuplicate ks (seen(k := True)))"

fun probePeers :: "size_tags \<Rightarrow> bytes option \<Rightarrow> PeerSpec list \<Rightarrow> error + unit" where
  "probePeers sz psk [] = Inr ()"
| "probePeers sz psk (p # ps) =
     (case Record sz p (map_option (\<lambda>_. replicate PSKWrappedLen 0) psk) of
        Inl e \<Rightarrow> Inl (Fail KindUsage ''peer #%d (%s): %w'' [DescrError e])
      | Inr _ \<Rightarrow> probePeers sz psk ps)"

definition Validate :: "size_tags \<Rightarrow> Params \<Rightarrow> error + unit" where
  "Validate sz p =
     (if pAddrs p = [] then Inl (Fail KindUsage ''at least one address is required'' [])
      else if pPeers p = [] then Inl (Fail KindUsage ''at least one peer is required'' [])
      else if length (pPeers p) > MaxPeers sz
      then Inl (Fail KindUsage ''%d peers, but the device's message limit allows %d in one authenticated tree'' [])
      else if firstDuplicate (map psPubKey (pPeers p)) (\<lambda>_. False)
      then Inl (Fail KindUsage ''peer #%d: duplicate public key'' [])
      else if pMTU p < 0 \<or> pMTU p > 65535 then Inl (Fail KindUsage ''MTU out of range'' [])
      else if pListenPort p < 0 \<or> pListenPort p > 65535 then Inl (Fail KindUsage ''listen port out of range'' [])
      else probePeers sz (pPSK p) (pPeers p))"

subsection \<open>Wrapping the pre-shared key\<close>

definition WrapPSK :: "'d Client \<Rightarrow> string \<Rightarrow> string \<Rightarrow> string \<Rightarrow> bytes option \<Rightarrow> ('d, error, bytes option) io" where
  "WrapPSK c useTok ifKID peerKID psk =
     (case psk of
        None \<Rightarrow> returnS None
      | Some k \<Rightarrow>
          bindS (mapErrS (\<lambda>e. Classify e KindDevice ''wrapping the pre-shared key'')
                   (CipherWrap c useTok ifKID k (pskOpts ifKID peerKID))) (\<lambda>wrapped.
          if length wrapped \<noteq> PSKWrappedLen
          then failS (Fail KindDevice ''wrapped PSK is %d bytes, expected %d'' [])
          else returnS (Some wrapped)))"

subsection \<open>Placing a peer\<close>

fun readLoop :: "nat \<Rightarrow> size_tags \<Rightarrow> 'd Client \<Rightarrow> 'd TokenFunc \<Rightarrow> string \<Rightarrow> string \<Rightarrow> nat \<Rightarrow>
    ('d, error, bytes option) io" where
  "readLoop 0 sz c tok kid token offset = failS OutOfFuel"
| "readLoop (Suc n) sz c tok kid token offset =
     (\<lambda>d. case SearchKeys c token (bytes_of MagicPeer) offset 50 d of
        (Inl e, d') \<Rightarrow>
          if token = [] \<and> isAuthError e
          then bindS (tok ''keymgmt:search'') (\<lambda>token. readLoop n sz c tok kid token offset) d'
          else (Inl (Classify e KindDevice ''searching for peer records''), d')
      | (Inr (found, page), d') \<Rightarrow>
          (case find (\<lambda>e. keKID e = kid) page of
             Some e \<Rightarrow>
               (case Normalize sz (keDescr e) of
                  Inl x \<Rightarrow> (Inl (Fail KindDevice ''peer record %s: %w'' [DescrError x]), d')
                | Inr rec \<Rightarrow> (Inr (Some rec), d'))
           | None \<Rightarrow>
               (let offset = offset + length page in
                if page = [] \<or> int offset \<ge> found then (Inr None, d')
                else readLoop n sz c tok kid token offset d')))"

definition ReadPeerRecord :: "nat \<Rightarrow> size_tags \<Rightarrow> 'd Client \<Rightarrow> 'd TokenFunc \<Rightarrow> string \<Rightarrow> ('d, error, bytes option) io" where
  "ReadPeerRecord fuel sz c tok kid = readLoop fuel sz c tok kid [] 0"

definition importPeer :: "'d Client \<Rightarrow> 'd TokenFunc \<Rightarrow> PeerSpec \<Rightarrow> bytes \<Rightarrow> ('d, error, string \<times> bool) io" where
  "importPeer c tok p want =
     bindS (tok ''keymgmt:imp'') (\<lambda>impTok.
     bindS (mapErrS (\<lambda>e. Classify e KindDevice ''importing peer %s'')
              (ImportKey c impTok (psLabel p) keyType (psPubKey p) want)) (\<lambda>kid.
       if kid \<noteq> KID (psPubKey p)
       then failS (Fail KindDevice ''the device gave peer %s the identifier %s, but this client derives %s; references would not resolve'' [])
       else returnS (kid, False)))"

definition isAbsent :: "error \<Rightarrow> bool" where
  "isAbsent e = (case e of HemError status code \<Rightarrow> status = 404 \<or> status = 406 | _ \<Rightarrow> False)"

definition PlacePeer :: "nat \<Rightarrow> size_tags \<Rightarrow> 'd Client \<Rightarrow> 'd TokenFunc \<Rightarrow> PeerSpec \<Rightarrow> bytes \<Rightarrow> bool \<Rightarrow>
    ('d, error, string \<times> bool) io" where
  "PlacePeer fuel sz c tok p want adopt =
     (let kid = KID (psPubKey p) in
      bindS (tok ''keymgmt:get'') (\<lambda>getTok d.
      case GetPubKey c getTok kid d of
        (Inl e, d') \<Rightarrow>
          if isAbsent e then importPeer c tok p want d'
          else (Inl (Classify e KindDevice ''checking whether peer %s is already in the device''), d')
      | (Inr existing, d') \<Rightarrow>
          if keyPubKey existing \<noteq> psPubKey p
          then (Inl (Fail KindDevice ''key %s holds a different public key than the one given; identifiers are derived from the key, so this should not happen'' []), d')
          else bindS (ReadPeerRecord fuel sz c tok kid) (\<lambda>current.
            case current of
              None \<Rightarrow> failS (Fail KindUsage ''key %s is in the device but carries no %s record; it belongs to something other than this client'' [])
            | Some cur \<Rightarrow>
                if cur = want then returnS (kid, True)
                else if \<not> adopt
                then failS (Fail KindUsage ''peer %s is already in the device with different settings (%s)'' [])
                else (case DecodePeer sz cur of
                    Inl x \<Rightarrow> failS (Fail KindDevice ''peer record %s: %w'' [DescrError x])
                  | Inr decoded \<Rightarrow>
                      if PSKWrapped decoded \<noteq> []
                      then failS (Fail KindUsage ''peer %s carries a pre-shared key wrapped for another identity, which this one cannot unwrap'' [])
                      else returnS (kid, True))) d'))"

subsection \<open>Run\<close>

record Result =
  resIfKID :: string
  resPublicKey :: string
  resPeerCount :: nat
  resPSK :: string
  resServer :: HandoffPeer

record Cleanup =
  IdentityKID :: string
  IdentityRemoved :: bool
  RemovalErr :: "error option"
  ImportedPeers :: nat

definition noCleanup :: Cleanup where
  "noCleanup = \<lparr>IdentityKID = [], IdentityRemoved = False, RemovalErr = None, ImportedPeers = 0\<rparr>"

record Progress =
  ifKID :: string
  createdIdentity :: bool
  recordWritten :: bool
  imported :: nat

definition placeOne :: "nat \<Rightarrow> size_tags \<Rightarrow> 'd Client \<Rightarrow> 'd TokenFunc \<Rightarrow> string \<Rightarrow> string \<Rightarrow> Params \<Rightarrow> PeerSpec \<Rightarrow>
    ('d \<times> Progress, error, PeerRecord) io" where
  "placeOne fuel sz c tok useTok kid p peer =
     bindS (onDevice (WrapPSK c useTok kid (KID (psPubKey peer)) (pPSK p))) (\<lambda>wrapped.
     bindS (liftE (mapErr (\<lambda>e. Fail KindUsage ''peer %s: %w'' [DescrError e]) (Record sz peer wrapped))) (\<lambda>rec.
     bindS (liftE (mapErr (\<lambda>e. Fail KindUsage ''peer %s: %w'' [DescrError e]) (Peer_Encode sz rec))) (\<lambda>enc.
     bindS (onDevice (PlacePeer fuel sz c tok peer enc (pAdopt p))) (\<lambda>(_, adopted).
     if adopted
     then bindS (onDevice (ReadPeerRecord fuel sz c tok (KID (psPubKey peer)))) (\<lambda>stored.
       case stored of
         None \<Rightarrow> failS Panic
       | Some s \<Rightarrow> returnS \<lparr>prPubKey = psPubKey peer, prDescr = s\<rparr>)
     else bindS (updS (\<lambda>pr. pr\<lparr>imported := Suc (imported pr)\<rparr>)) (\<lambda>_.
       returnS \<lparr>prPubKey = psPubKey peer, prDescr = enc\<rparr>)))))"

fun placeAll :: "nat \<Rightarrow> size_tags \<Rightarrow> 'd Client \<Rightarrow> 'd TokenFunc \<Rightarrow> string \<Rightarrow> string \<Rightarrow> Params \<Rightarrow> PeerSpec list \<Rightarrow>
    ('d \<times> Progress, error, PeerRecord list) io" where
  "placeAll fuel sz c tok useTok kid p [] = returnS []"
| "placeAll fuel sz c tok useTok kid p (peer # peers) =
     bindS (placeOne fuel sz c tok useTok kid p peer) (\<lambda>r.
     bindS (placeAll fuel sz c tok useTok kid p peers) (\<lambda>rs. returnS (r # rs)))"

definition ifRec :: "Params \<Rightarrow> Interface" where
  "ifRec p = \<lparr>Addrs = pAddrs p, MTU = word_of_int (pMTU p), DNS = pDNS p,
     PeerRefs = map (\<lambda>peer. MakePeerRef (psPubKey peer)) (pPeers p),
     ListenPort = word_of_int (pListenPort p), MAC = zeroMAC, HasMAC = True\<rparr>"

definition deleteKey :: "'d Client \<Rightarrow> 'd TokenFunc \<Rightarrow> string \<Rightarrow> ('d, error, unit) io" where
  "deleteKey c tok kid = bindS (tok ''keymgmt:del'') (\<lambda>t. DeleteKey c t kid)"

text \<open>From the identity key to the read-back check; the key's identifier is in the progress.\<close>

definition obtainIdentity :: "'d Client \<Rightarrow> 'd TokenFunc \<Rightarrow> Params \<Rightarrow> ('d \<times> Progress, error, string) io" where
  "obtainIdentity c tok p =
     (if pKID p = [] then
        bindS (onDevice (tok ''keymgmt:gen'')) (\<lambda>t.
        bindS (mapErrS (\<lambda>e. Classify e KindDevice ''creating the identity key'')
                 (onDevice (CreateKey c t (pLabel p) keyType))) (\<lambda>kid.
        bindS (updS (\<lambda>pr. pr\<lparr>ifKID := kid, createdIdentity := True\<rparr>)) (\<lambda>_. returnS kid)))
      else returnS (pKID p))"

definition containsStr :: "string \<Rightarrow> string \<Rightarrow> bool" where
  "containsStr s t \<longleftrightarrow> (\<exists>i \<in> set [0..<Suc (length s)]. HasPrefix (drop i s) t)"

definition readIdentity :: "'d Client \<Rightarrow> string \<Rightarrow> string \<Rightarrow> ('d, error, bytes) io" where
  "readIdentity c useTok kid =
     bindS (mapErrS (\<lambda>e. Classify e KindDevice ''reading the identity public key'') (GetPubKey c useTok kid)) (\<lambda>key.
       if keyTypeOf key \<noteq> [] \<and> \<not> containsStr (keyTypeOf key) keyType
       then failS (Fail KindUsage ''key %s is of type %s, expected %s'' [])
       else if length (keyPubKey key) \<noteq> PubKeyLen
       then failS (Fail KindDevice ''identity public key is %d bytes, expected %d'' [])
       else returnS (keyPubKey key))"

definition signAndStore :: "size_tags \<Rightarrow> 'd Client \<Rightarrow> 'd TokenFunc \<Rightarrow> Params \<Rightarrow> string \<Rightarrow> string \<Rightarrow> bytes \<Rightarrow>
    PeerRecord list \<Rightarrow> ('d \<times> Progress, error, unit) io" where
  "signAndStore sz c tok p useTok kid ifPub peerRecords =
     bindS (liftE (mapErr (\<lambda>e. Fail KindUsage ''interface record: %w'' [DescrError e]) (Interface_Encode sz (ifRec p)))) (\<lambda>raw.
     bindS (mapErrS (\<lambda>e. Classify e KindDevice ''authenticating the configuration'')
              (onDevice (Sign sz c useTok kid ifPub raw peerRecords))) (\<lambda>tag.
     bindS (liftE (mapErr (\<lambda>e. Fail KindUsage ''interface record: %w'' [DescrError e])
                    (Interface_Encode sz ((ifRec p)\<lparr>MAC := tag\<rparr>)))) (\<lambda>recd.
     bindS (onDevice (tok ''keymgmt:upd'')) (\<lambda>updTok.
     bindS (mapErrS (\<lambda>e. Classify e KindDevice ''writing the interface record'')
              (onDevice (UpdateKey c updTok kid (pLabel p) recd))) (\<lambda>_.
     bindS (updS (\<lambda>pr. pr\<lparr>recordWritten := True\<rparr>)) (\<lambda>_.
       mapErrS (\<lambda>e. Fail KindIntegrity ''the configuration just written does not verify: %w'' [e])
         (onDevice (Verify sz c useTok kid ifPub recd peerRecords))))))))"

definition runBody :: "nat \<Rightarrow> size_tags \<Rightarrow> 'd Client \<Rightarrow> 'd TokenFunc \<Rightarrow> Params \<Rightarrow> ('d \<times> Progress, error, Result) io" where
  "runBody fuel sz c tok p =
     bindS (obtainIdentity c tok p) (\<lambda>kid.
     bindS (onDevice (tok (''keymgmt:use:'' @ kid))) (\<lambda>useTok.
     bindS (onDevice (readIdentity c useTok kid)) (\<lambda>ifPub.
     bindS (placeAll fuel sz c tok useTok kid p (pPeers p)) (\<lambda>peerRecords.
     bindS (signAndStore sz c tok p useTok kid ifPub peerRecords) (\<lambda>_.
       (let pub = b64Encode ifPub;
            psk = (if pPSKGenerated p then b64Encode (case pPSK p of None \<Rightarrow> [] | Some k \<Rightarrow> k) else [])
        in returnS \<lparr>resIfKID = kid, resPublicKey = pub, resPeerCount = length (pPeers p), resPSK = psk,
             resServer = \<lparr>hpPublicKey = pub, hpAddresses = pAddrs p, hpLabel = pLabel p, hpPresharedKey = psk\<rparr>\<rparr>))))))"

text \<open>
  The deferred function, run on the failure with the progress the body left.  A panic
  reaches it with a nil error, and it does nothing.
\<close>

definition deferred :: "'d Client \<Rightarrow> 'd TokenFunc \<Rightarrow> Progress \<Rightarrow> 'd \<Rightarrow> Cleanup \<times> 'd" where
  "deferred c tok pr d =
     (if createdIdentity pr \<and> \<not> recordWritten pr then
        (case deleteKey c tok (ifKID pr) d of
           (Inl e, d') \<Rightarrow> (\<lparr>IdentityKID = ifKID pr, IdentityRemoved = False, RemovalErr = Some e,
                           ImportedPeers = imported pr\<rparr>, d')
         | (Inr _, d') \<Rightarrow> (\<lparr>IdentityKID = ifKID pr, IdentityRemoved = True, RemovalErr = None,
                           ImportedPeers = imported pr\<rparr>, d'))
      else (\<lparr>IdentityKID = ifKID pr, IdentityRemoved = False, RemovalErr = None,
             ImportedPeers = imported pr\<rparr>, d))"

definition Run :: "nat \<Rightarrow> size_tags \<Rightarrow> 'd Client \<Rightarrow> 'd TokenFunc \<Rightarrow> Params \<Rightarrow> 'd \<Rightarrow> ((error + Result) \<times> Cleanup) \<times> 'd" where
  "Run fuel sz c tok p d =
     (case Validate sz p of
        Inl e \<Rightarrow> ((Inl e, noCleanup), d)
      | Inr _ \<Rightarrow>
          (case runBody fuel sz c tok p
                  (d, \<lparr>ifKID = pKID p, createdIdentity = False, recordWritten = False, imported = 0\<rparr>) of
             (Inr res, (d', pr)) \<Rightarrow> ((Inr res, noCleanup), d')
           | (Inl Panic, (d', pr)) \<Rightarrow> ((Inl Panic, noCleanup), d')
           | (Inl e, (d', pr)) \<Rightarrow> (case deferred c tok pr d' of (cl, d'') \<Rightarrow> ((Inl e, cl), d''))))"

end
