(* ===== verification/ProvisionRun.thy ===== *)
theory ProvisionRun
  imports Provision
begin

text \<open>
  What \<open>internal/provision\<close> guarantees: which key a failed run may take back out, what a
  successful run has written and checked, what the up-front validation does not see, and that
  a pre-shared key comes back as it was wrapped.  The locale \<open>same_writes\<close> extends the
  agreement of two clients to every call of a run except the deletion of a key.
\<close>

subsection \<open>What a run can depend on\<close>

locale same_writes = same_reads c c' for c c' :: "'d Client" +
  assumes HmacHash_eq: "HmacHash c' = HmacHash c" and CipherWrap_eq: "CipherWrap c' = CipherWrap c"
    and CreateKey_eq: "CreateKey c' = CreateKey c" and ImportKey_eq: "ImportKey c' = ImportKey c"
    and UpdateKey_eq: "UpdateKey c' = UpdateKey c"
begin

lemma readLoop_eq: "readLoop n sz c' tok kid token off = readLoop n sz c tok kid token off"
proof (induction n arbitrary: token off)
  case (Suc n)
  show ?case unfolding readLoop.simps SearchKeys_eq Suc.IH ..
qed simp

lemma ReadPeerRecord_eq: "ReadPeerRecord n sz c' tok kid = ReadPeerRecord n sz c tok kid"
  by (simp add: ReadPeerRecord_def readLoop_eq)

lemma PlacePeer_eq: "PlacePeer n sz c' tok p want ad = PlacePeer n sz c tok p want ad"
  unfolding PlacePeer_def GetPubKey_eq importPeer_def ImportKey_eq ReadPeerRecord_eq ..

lemma placeAll_eq: "placeAll n sz c' tok useTok kid p ps = placeAll n sz c tok useTok kid p ps"
proof (induction ps)
  case (Cons q ps)
  show ?case
    unfolding placeAll.simps placeOne_def WrapPSK_def CipherWrap_eq PlacePeer_eq ReadPeerRecord_eq Cons.IH ..
qed simp

lemma runBody_eq: "runBody n sz c' tok p = runBody n sz c tok p"
  unfolding runBody_def obtainIdentity_def CreateKey_eq readIdentity_def GetPubKey_eq placeAll_eq
    signAndStore_def Sign_def HmacHash_eq UpdateKey_eq Verify_eq ..

end

interpretation no_delete: same_writes c "c\<lparr>DeleteKey := f\<rparr>" for c f
  by unfold_locales simp_all
subsection \<open>A run removes only what it created\<close>

text \<open>
  The invariant of the progress variables: a key marked as created came from the device's
  \<open>CreateKey\<close> with the run's label, and only when the caller named none.
\<close>

definition createdBy :: "'d Client \<Rightarrow> Params \<Rightarrow> string \<Rightarrow> bool" where
  "createdBy c p kid \<longleftrightarrow> (\<exists>t d d'. CreateKey c t (pLabel p) keyType d = (Inr kid, d'))"

lemma createdByI: "CreateKey c t (pLabel p) keyType d = (Inr kid, d') \<Longrightarrow> createdBy c p kid"
  by (auto simp: createdBy_def)

definition own_progress :: "'d Client \<Rightarrow> Params \<Rightarrow> 'd \<times> Progress \<Rightarrow> bool" where
  "own_progress c p s \<longleftrightarrow> (createdIdentity (snd s) \<longrightarrow> pKID p = [] \<and> createdBy c p (ifKID (snd s)))"

lemma own_onDevice [keeps_intros]: "keeps (own_progress c p) (onDevice m)"
  by (auto simp: keeps_def onDevice_def own_progress_def split: prod.splits)

lemma own_progress_step [keeps_intros]:
  "(\<And>pr. createdIdentity (f pr) = createdIdentity pr \<and> ifKID (f pr) = ifKID pr) \<Longrightarrow>
   keeps (own_progress c p) (updS f)"
  by (auto simp: keeps_def updS_def own_progress_def)

lemma own_obtainIdentity [keeps_intros]: "keeps (own_progress c p) (obtainIdentity c tok p)"
proof (cases "pKID p = []")
  case True
  have "own_progress c p s'" if "obtainIdentity c tok p s = (r, s')" and "own_progress c p s" for s s' r
    using that True by (cases r) (auto simp: obtainIdentity_def result_inv own_progress_def intro: createdByI)
  then show ?thesis unfolding keeps_def by (metis prod.collapse)
qed (simp add: obtainIdentity_def keeps_intros)

lemma own_placeAll [keeps_intros]: "keeps (own_progress c p) (placeAll n sz c tok useTok kid q ps)"
proof (induction ps)
  case (Cons q ps)
  then show ?case unfolding placeAll.simps placeOne_def by (intro keeps_intros) simp_all
qed (simp only: placeAll.simps keeps_leaf)

lemma own_runBody: "keeps (own_progress c p) (runBody n sz c tok p)"
  unfolding runBody_def signAndStore_def Let_def by (intro keeps_intros) simp

lemma runBody_own:
  assumes "runBody n sz c tok p (d, \<lparr>ifKID = pKID p, createdIdentity = False, recordWritten = False, imported = 0\<rparr>)
     = (r, (d', pr))" and "createdIdentity pr"
  shows "pKID p = []" and "createdBy c p (ifKID pr)"
  using keepsD [OF own_runBody _ assms(1)] assms(2) by (auto simp: own_progress_def)

lemma Run_cases:
  assumes "Validate sz p = Inr ()"
    and "runBody n sz c tok p (d, \<lparr>ifKID = pKID p, createdIdentity = False, recordWritten = False, imported = 0\<rparr>)
      = (r, (d', pr))"
  shows "Run n sz c tok p d =
    (case r of
       Inr res \<Rightarrow> ((Inr res, noCleanup), d')
     | Inl e \<Rightarrow> if e = Panic then ((Inl Panic, noCleanup), d')
                else case deferred c tok pr d' of (cl, d'') \<Rightarrow> ((Inl e, cl), d''))"
  using assms by (auto simp: Run_def split: sum.splits error.splits)

text \<open>
  C13: the rollback is narrow.  Replace the device's deletion by anything at all on every key
  except one that \<open>CreateKey\<close> returned in a run for which the caller named no key: no run
  can tell the difference, so no other key is ever deleted.  In particular a run on an
  existing identity deletes nothing, whatever goes wrong.
\<close>

theorem run_removes_only_its_own_key:
  "Run n sz (c\<lparr>DeleteKey := \<lambda>t kid. if createdBy c p kid \<and> pKID p = [] then DeleteKey c t kid else f t kid\<rparr>) tok p d
     = Run n sz c tok p d"
proof (cases "Validate sz p")
  case (Inr u)
  let ?c = "c\<lparr>DeleteKey := \<lambda>t kid. if createdBy c p kid \<and> pKID p = [] then DeleteKey c t kid else f t kid\<rparr>"
  obtain r d' pr where b: "runBody n sz c tok p
      (d, \<lparr>ifKID = pKID p, createdIdentity = False, recordWritten = False, imported = 0\<rparr>) = (r, (d', pr))"
    by (metis prod_cases3)
  have b': "runBody n sz ?c tok p
      (d, \<lparr>ifKID = pKID p, createdIdentity = False, recordWritten = False, imported = 0\<rparr>) = (r, (d', pr))"
    unfolding no_delete.runBody_eq by (rule b)
  have "deferred ?c tok pr d' = deferred c tok pr d'"
    using runBody_own [OF b] by (auto simp: deferred_def deleteKey_def bindS_apply split: prod.splits sum.splits)
  with Inr show ?thesis by (cases r) (simp_all add: Run_cases [OF _ b] Run_cases [OF _ b'])
qed (simp add: Run_def)

subsection \<open>What a successful run has done\<close>

text \<open>The record a peer ends up with: the encoding of what was asked, or the one already stored.\<close>

definition placedRecord :: "size_tags \<Rightarrow> 'd Client \<Rightarrow> 'd TokenFunc \<Rightarrow> nat \<Rightarrow> bytes option \<Rightarrow> PeerSpec \<Rightarrow> PeerRecord \<Rightarrow> bool" where
  "placedRecord sz c tok n psk spec rec \<longleftrightarrow> prPubKey rec = psPubKey spec \<and>
     ((\<exists>w. Peer_Encode sz (specPeer spec w) = Inr (prDescr rec) \<and> (w = None \<longleftrightarrow> psk = None)) \<or>
      (\<exists>d d'. ReadPeerRecord n sz c tok (KID (psPubKey spec)) d = (Inr (Some (prDescr rec)), d')))"

lemma WrapPSK_Inr:
  "WrapPSK c useTok kid peerKID psk d = (Inr w, d') \<Longrightarrow> (w = None \<longleftrightarrow> psk = None)"
  by (auto simp: WrapPSK_def result_inv split: option.splits if_splits)

lemma Record_Inr: "Record sz p w = Inr rec \<longleftrightarrow> rec = specPeer p w \<and> isOk (Peer_Encode sz rec)"
  by (auto simp: Record_def Let_def bindE_eq_Inr isOk_iff)

lemma placeOne_Inr:
  assumes "placeOne n sz c tok useTok kid p q s = (Inr r, s')"
  shows "placedRecord sz c tok n (pPSK p) q r"
proof -
  from assms obtain w d1 where w: "WrapPSK c useTok kid (KID (psPubKey q)) (pPSK p) (fst s) = (Inr w, d1)"
    and r: "(\<exists>d d' x. ReadPeerRecord n sz c tok (KID (psPubKey q)) d = (Inr (Some x), d') \<and>
          r = \<lparr>prPubKey = psPubKey q, prDescr = x\<rparr>) \<or>
        (\<exists>enc. Peer_Encode sz (specPeer q w) = Inr enc \<and> r = \<lparr>prPubKey = psPubKey q, prDescr = enc\<rparr>)"
    unfolding placeOne_def by (auto simp: result_inv Record_Inr split: if_splits option.splits) blast
  from r WrapPSK_Inr [OF w] show ?thesis by (auto simp: placedRecord_def)
qed

lemma placeAll_Inr:
  "placeAll n sz c tok useTok kid p ps s = (Inr recs, s') \<Longrightarrow>
   list_all2 (placedRecord sz c tok n (pPSK p)) ps recs"
  by (induction ps arbitrary: s recs) (auto simp: result_inv dest: placeOne_Inr)

lemma signAndStore_Inr:
  assumes "signAndStore sz c tok p useTok kid ifPub recs s = (Inr u, s')"
  obtains tag recd updTok d1 d2 where "Interface_Encode sz ((ifRec p)\<lparr>MAC := tag\<rparr>) = Inr recd"
    "UpdateKey c updTok kid (pLabel p) recd d1 = (Inr (), d2)"
    "Verify sz c useTok kid ifPub recd recs d2 = (Inr (), fst s')"
  using assms unfolding signAndStore_def by (auto simp: result_inv)

text \<open>
  C15: success means written and checked.  A run that succeeds had valid parameters and leaves
  nothing to clean up; its last two calls to the device stored, under the identity it
  reports, an interface record that encodes the parameters with the references in the given
  order, and had the device verify exactly that record together with the peers' records,
  each either the encoding of what was asked for or the one the device already held.
\<close>

theorem run_success_is_verified:
  assumes "Run n sz c tok p d = ((Inr res, cl), d')"
  shows "Validate sz p = Inr () \<and> cl = noCleanup \<and> (pKID p \<noteq> [] \<longrightarrow> resIfKID res = pKID p) \<and>
     (\<exists>ifPub recs tag recd useTok updTok d1 d2.
        length ifPub = PubKeyLen \<and> resPublicKey res = b64Encode ifPub \<and>
        list_all2 (placedRecord sz c tok n (pPSK p)) (pPeers p) recs \<and>
        Interface_Encode sz ((ifRec p)\<lparr>MAC := tag\<rparr>) = Inr recd \<and>
        UpdateKey c updTok (resIfKID res) (pLabel p) recd d1 = (Inr (), d2) \<and>
        Verify sz c useTok (resIfKID res) ifPub recd recs d2 = (Inr (), d'))"
proof -
  obtain pr where v: "Validate sz p = Inr ()" and cl: "cl = noCleanup" and b: "runBody n sz c tok p
      (d, \<lparr>ifKID = pKID p, createdIdentity = False, recordWritten = False, imported = 0\<rparr>) = (Inr res, (d', pr))"
    using assms by (auto simp: Run_def split: sum.splits prod.splits error.splits)
  from b obtain s1 useTok s2 ifPub d3 s3 recs s4 where
    kid: "obtainIdentity c tok p (d, \<lparr>ifKID = pKID p, createdIdentity = False, recordWritten = False, imported = 0\<rparr>)
        = (Inr (resIfKID res), s1)"
    and pub: "readIdentity c useTok (resIfKID res) (fst s2) = (Inr ifPub, d3)"
    and place: "placeAll n sz c tok useTok (resIfKID res) p (pPeers p) s3 = (Inr recs, s4)"
    and sign: "signAndStore sz c tok p useTok (resIfKID res) ifPub recs s4 = (Inr (), (d', pr))"
    and key: "resPublicKey res = b64Encode ifPub"
    unfolding runBody_def by (auto simp: result_inv Let_def)
  have "length ifPub = PubKeyLen"
    using pub by (auto simp: readIdentity_def result_inv split: if_splits)
  moreover have "pKID p \<noteq> [] \<longrightarrow> resIfKID res = pKID p"
    using kid by (auto simp: obtainIdentity_def)
  moreover note placeAll_Inr [OF place] v cl key
  ultimately show ?thesis using signAndStore_Inr [OF sign] by (metis fst_conv)
qed

text \<open>A device with nothing in it, and a configuration for it.\<close>

definition exampleSpecPeer :: PeerSpec where
  "exampleSpecPeer = \<lparr>psPubKey = examplePeerKey, psLabel = ''home'',
     psEndpoint = \<lparr>IP = AddrZero, Host = ''w.io'', Port = 51820\<rparr>,
     psAllowedIPs = [PrefixFrom (Addr4 0) 0], psKeepalive = 0\<rparr>"

definition exampleProv :: Params where
  "exampleProv = \<lparr>pAddrs = [PrefixFrom (Addr4 0x0A000002) 32], pDNS = [Addr4 0x01010101], pMTU = 1420,
     pListenPort = 0, pLabel = ''wg'', pPeers = [exampleSpecPeer], pKID = [], pPSK = Some (replicate 32 1),
     pPSKGenerated = True, pAdopt = False\<rparr>"

definition emptyDevice :: "unit Client" where
  "emptyDevice = toyClient
     \<lparr>GetPubKey := (\<lambda>token kid. if token = ''keymgmt:get'' then failS (HemError 406 ''absent'')
        else returnS \<lparr>keyPubKey = exampleIfKey, keyTypeOf = ''CURVE25519''\<rparr>),
      CreateKey := (\<lambda>_ _ _. returnS ''k''),
      ImportKey := (\<lambda>_ _ _ pk _. returnS (KID pk)),
      UpdateKey := (\<lambda>_ _ _ _. returnS ()),
      DeleteKey := (\<lambda>_ _. returnS ()),
      CipherWrap := (\<lambda>_ _ _ _. returnS (replicate 40 9))\<rparr>"

lemma exampleSpecPeer_Encode:
  "Peer_Encode size_descr64 (specPeer exampleSpecPeer (Some (replicate 40 9))) = Inr examplePeerRecord"
  using examplePeer_Encode by (simp add: specPeer_def exampleSpecPeer_def examplePeer_def)

lemma exampleProv_ifRec: "(ifRec exampleProv)\<lparr>MAC := m\<rparr> = exampleIf\<lparr>MAC := m\<rparr>"
  by (simp add: ifRec_def exampleProv_def exampleSpecPeer_def exampleIf_def exampleInterface_def)

lemma exampleProv_Validate: "Validate size_descr64 exampleProv = Inr ()"
proof -
  have "isOk (Peer_Encode size_descr64 (specPeer exampleSpecPeer (Some (replicate 40 0))))"
    by (simp add: exampleSpecPeer_def specPeer_def encode_eval MaxHostname_def descr_lens)
  then show ?thesis
    by (auto simp: Validate_def exampleProv_def Record_def isOk_iff MaxPeers_def perPeer_def fixedLen_def
        deviceMsgLimit_def PubKeyLen_def Domain_def PSKWrappedLen_def bindE_def split: sum.splits)
qed

lemma example_Run:
  assumes "Canonical size_descr64 exampleIfKey (exampleIfRecord zeroMAC) examplePeers = Inr msg"
  shows "\<exists>res. Run 1 size_descr64 emptyDevice returnS exampleProv () = ((Inr res, noCleanup), ()) \<and>
    resIfKID res = ''k''"
proof -
  have l: "length (toyTag msg) = MACLen" by (simp add: toyTag_def)
  have self: "ifRec exampleProv = exampleIf"
    using exampleProv_ifRec [of zeroMAC] by (simp add: exampleIf_self ifRec_def)
  have place: "placeAll 1 size_descr64 emptyDevice returnS t ''k'' exampleProv [exampleSpecPeer] ((), pr)
      = (Inr examplePeers, ((), pr\<lparr>imported := Suc (imported pr)\<rparr>))" for t pr
    using exampleSpecPeer_Encode
    by (simp add: placeOne_def bindS_apply WrapPSK_def exampleProv_def emptyDevice_def onDevice_def mapErrS_def
        PSKWrappedLen_def Record_def Let_def PlacePeer_def isAbsent_def importPeer_def updS_def examplePeers_def)
      (simp add: exampleSpecPeer_def)
  have v: "Verify size_descr64 emptyDevice t k exampleIfKey (exampleIfRecord (toyTag msg)) examplePeers () = (Inr (), ())" for t k
  proof -
    have "HmacVerify emptyDevice = HmacVerify toyClient" by (simp add: emptyDevice_def)
    note eq = Verify_cong [OF this]
    from example_Verify [OF assms, of t k] show ?thesis by (simp add: eq prod_eq_iff)
  qed
  have sign: "Sign size_descr64 emptyDevice t k exampleIfKey (exampleIfRecord zeroMAC) examplePeers () = (Inr (toyTag msg), ())" for t k
    using assms l by (simp add: Sign_def bindS_apply mapErrS_def emptyDevice_def toyClient_def)
  have upd: "UpdateKey emptyDevice t k lb b () = (Inr (), ())" for t k lb b by (simp add: emptyDevice_def)
  have store: "\<exists>pr'. signAndStore size_descr64 emptyDevice returnS exampleProv t ''k'' exampleIfKey examplePeers ((), pr)
      = (Inr (), ((), pr'))" for t pr
    using exampleIf_Encode [of zeroMAC] exampleIf_Encode [OF l] sign v
    by (simp add: signAndStore_def bindS_apply self exampleIf_self onDevice_def mapErrS_def updS_def upd)
  have peers: "pPeers exampleProv = [exampleSpecPeer]" by (simp add: exampleProv_def)
  have create: "obtainIdentity emptyDevice returnS exampleProv ((), pr)
      = (Inr ''k'', ((), pr\<lparr>ifKID := ''k'', createdIdentity := True\<rparr>))" for pr
    by (simp add: obtainIdentity_def exampleProv_def bindS_apply onDevice_def mapErrS_def updS_def emptyDevice_def)
  have curve: "containsStr ''CURVE25519'' keyType"
    unfolding containsStr_def by (rule bexI [of _ 0]) (simp_all add: keyType_def HasPrefix_def)
  have read: "readIdentity emptyDevice (''keymgmt:use:'' @ ''k'') ''k'' () = (Inr exampleIfKey, ())"
    using curve by (simp add: readIdentity_def bindS_apply mapErrS_def emptyDevice_def example_lengths)
  show ?thesis
    using store [of "''keymgmt:use:k''" "\<lparr>ifKID = ''k'', createdIdentity = True, recordWritten = False, imported = 1\<rparr>"]
    by (auto simp: Run_def exampleProv_Validate runBody_def bindS_apply create onDevice_def read [simplified] peers
        place [unfolded One_nat_def] Let_def simp del: placeAll.simps)
qed

theorem run_success_is_verified_witness:
  "\<exists>res recd d1 d2. fst (Run 1 size_descr64 emptyDevice returnS exampleProv ()) = (Inr res, noCleanup) \<and>
     UpdateKey emptyDevice ''keymgmt:upd'' (resIfKID res) ''wg'' recd d1 = (Inr (), d2)"
proof -
  obtain msg where "Canonical size_descr64 exampleIfKey (exampleIfRecord zeroMAC) examplePeers = Inr msg"
    using example_Canonical [of zeroMAC] by auto
  from example_Run [OF this] obtain res where
    r: "Run 1 size_descr64 emptyDevice returnS exampleProv () = ((Inr res, noCleanup), ())" by blast
  from run_success_is_verified [OF r] r show ?thesis by (auto simp: emptyDevice_def)
qed

lemma long_interface:
  assumes that: "pAddrs p = replicate 20 (PrefixFrom (Addr4 0x0A000002) 32)"
  shows "Interface_Encode sz (ifRec p) \<noteq> Inr b"
proof
  assume "Interface_Encode sz (ifRec p) = Inr b"
  moreover have "wf_Interface (ifRec p)"
    using that by (simp add: wf_Interface_def ifRec_def PeerRefLen_def)
  ultimately show False
    using that by (cases sz) (simp_all add: Interface_Encode_Inr length_ifBytes ifRec_def sum_list_replicate sum_list_triv split: if_splits)
qed

text \<open>
  C32: validation does not cover the interface record.  In both builds there are parameters
  that \<open>Validate\<close> accepts and for which no run on any device can succeed: the peers are
  encoded up front, the interface record only after keys have been created and imported.
\<close>

theorem validate_misses_interface_budget:
  "\<exists>p. Validate sz p = Inr () \<and> (\<forall>n c tok d. \<not> isOk (fst (fst (Run n sz c tok p d))))"
proof -
  let ?p = "exampleProv\<lparr>pAddrs := replicate 20 (PrefixFrom (Addr4 0x0A000002) 32), pPSK := None\<rparr>"
  have "isOk (Peer_Encode sz (specPeer exampleSpecPeer None))"
    by (cases sz) (simp_all add: exampleSpecPeer_def specPeer_def encode_eval MaxHostname_def descr_lens)
  then have "Validate sz ?p = Inr ()"
    by (cases sz) (auto simp: Validate_def exampleProv_def Record_def isOk_iff MaxPeers_def perPeer_def fixedLen_def
        deviceMsgLimit_def PubKeyLen_def Domain_def bindE_def split: sum.splits)
  moreover have "\<not> isOk (fst (fst (Run n sz c tok ?p d)))" for n c tok d
  proof
    assume "isOk (fst (fst (Run n sz c tok ?p d)))"
    then obtain res cl d' where "Run n sz c tok ?p d = ((Inr res, cl), d')"
      by (metis isOk_iff prod.collapse)
    then show False using long_interface [of ?p sz]
      by (auto simp: Run_def runBody_def result_inv signAndStore_def split: sum.splits prod.splits error.splits)
  qed
  ultimately show ?thesis by blast
qed

subsection \<open>The pre-shared key comes back\<close>

text \<open>What the device promises: unwrapping under the same key and options undoes wrapping.\<close>

definition honest_wrap :: "'d Client \<Rightarrow> string \<Rightarrow> bool" where
  "honest_wrap c kid \<longleftrightarrow>
     (\<forall>t t' opts k d w d' d1. CipherWrap c t kid k opts d = (Inr w, d') \<longrightarrow>
        fst (CipherUnwrap c t' kid w opts d1) = Inr k)"

text \<open>
  C33: a pre-shared key survives.  What \<open>WrapPSK\<close> wraps for a peer when provisioning, put into
  the peer's record, encoded, read back and decoded, is what \<open>UnwrapPSK\<close> hands the tunnel:
  both sides name the same key, algorithm and context to the device.
\<close>

theorem psk_wrap_unwrap:
  assumes "honest_wrap c kid" and "length k = PSKLen" and "wf_Peer (specPeer spec None)"
    and "WrapPSK c t kid (KID pub) (Some k) d = (Inr w, d')"
    and "Record sz spec w = Inr rec" and "Peer_Encode sz rec = Inr enc" and "DecodePeer sz enc = Inr q"
    and "IfKID tree = kid"
  shows "fst (UnwrapPSK c tree t' \<lparr>cpKID = KID pub, cpLabel = l, cpPubKey = pub, cpRaw = enc, cpPeer = q\<rparr> d1)
    = Inr (Some k)"
proof -
  obtain w' where w: "w = Some w'" and wrap: "CipherWrap c t kid k (pskOpts kid (KID pub)) d = (Inr w', d')"
    and len: "length w' = PSKWrappedLen"
    using assms(4) by (auto simp: WrapPSK_def result_inv split: if_splits)
  have rec: "rec = specPeer spec w" using assms(5) by (simp add: Record_Inr)
  have "q = canonPeer (specPeer spec w)"
    using Peer_enc_dec [of "specPeer spec w" sz enc] assms(3,6,7) rec by (simp add: wf_Peer_def specPeer_def)
  then have q: "PSKWrapped q = w'" by (simp add: canonPeer_def specPeer_def w)
  have un: "fst (CipherUnwrap c t' kid w' (pskOpts kid (KID pub)) d1) = Inr k"
    using assms(1) wrap unfolding honest_wrap_def by blast
  have "w' \<noteq> []" using len by (auto simp: PSKWrappedLen_def)
  with un q assms(2,8) show ?thesis
    by (cases "CipherUnwrap c t' kid w' (pskOpts kid (KID pub)) d1") (simp add: UnwrapPSK_def bindS_apply mapErrS_def)
qed

definition wrapClient :: "unit Client" where
  "wrapClient = deafClient\<lparr>CipherWrap := (\<lambda>_ _ k _. returnS (k @ replicate 8 9)),
     CipherUnwrap := (\<lambda>_ _ w _. returnS (take (length w - 8) w))\<rparr>"

theorem psk_wrap_unwrap_witness:
  "fst (UnwrapPSK wrapClient (exampleTree zeroMAC) ''t'' \<lparr>cpKID = KID examplePeerKey, cpLabel = [], cpPubKey = examplePeerKey,
      cpRaw = examplePeerRecord, cpPeer = canonPeer examplePeer\<rparr> ()) = Inr (Some (replicate 32 9))"
proof -
  have h: "honest_wrap wrapClient kid" for kid by (simp add: honest_wrap_def wrapClient_def)
  have nine: "replicate 32 9 @ replicate 8 9 = replicate 40 (9 :: byte)" by (simp flip: replicate_add)
  have w: "WrapPSK wrapClient ''t'' (KID exampleIfKey) (KID examplePeerKey) (Some (replicate 32 9)) ()
      = (Inr (Some (replicate 40 9)), ())"
    by (simp add: WrapPSK_def wrapClient_def bindS_apply mapErrS_def PSKWrappedLen_def nine)
  have r: "Record size_descr64 exampleSpecPeer (Some (replicate 40 9)) = Inr (specPeer exampleSpecPeer (Some (replicate 40 9)))"
    by (simp add: Record_Inr isOk_iff exampleSpecPeer_Encode)
  have d: "DecodePeer size_descr64 examplePeerRecord = Inr (canonPeer examplePeer)"
    by (rule Peer_enc_dec [OF examplePeer_wf examplePeer_Encode])
  show ?thesis
    by (rule psk_wrap_unwrap [OF h _ _ w r exampleSpecPeer_Encode d])
      (simp_all add: exampleTree_def PSKLen_def wf_Peer_def specPeer_def exampleSpecPeer_def)
qed

end
