(* ===== verification/Wgconf.thy ===== *)
theory Wgconf
  imports NetText
begin

text \<open>
  \<open>internal/wgconf\<close>: reading an ordinary WireGuard client file and turning it into the flags
  of \<open>provision\<close>.  A file is its list of lines, as \<open>bufio.Scanner\<close> delivers them; opening
  the file is not modelled.  An error is the text of its format string.
\<close>

record Conf =
  cAddresses :: "Prefix list"
  cDNS :: "Addr list"
  cMTU :: int
  cListenPort :: int
  cPeerPubKey :: string
  cPeerEndpoint :: string
  cPeerAllowed :: "Prefix list"
  cPeerKeepalive :: int
  cHadPrivateKey :: bool

definition emptyConf :: Conf where
  "emptyConf = \<lparr>cAddresses = [], cDNS = [], cMTU = 0, cListenPort = 0, cPeerPubKey = [],
     cPeerEndpoint = [], cPeerAllowed = [], cPeerKeepalive = 0, cHadPrivateKey = False\<rparr>"

definition splitList :: "string \<Rightarrow> string list" where
  "splitList v = filter (\<lambda>p. p \<noteq> []) (map TrimSpace (Split (CHR '','') v))"

fun parseAll :: "('a \<Rightarrow> 'b option) \<Rightarrow> string \<Rightarrow> 'a list \<Rightarrow> string + 'b list" where
  "parseAll f msg [] = Inr []"
| "parseAll f msg (x # xs) =
     (case f x of None \<Rightarrow> Inl msg | Some y \<Rightarrow> bindE (parseAll f msg xs) (\<lambda>ys. Inr (y # ys)))"

definition setInterface :: "string \<Rightarrow> string \<Rightarrow> Conf \<Rightarrow> string + Conf" where
  "setInterface key value c =
     (if key = ''privatekey'' then Inr (c\<lparr>cHadPrivateKey := True\<rparr>)
      else if key = ''address'' then
        bindE (parseAll ParsePrefix ''Address %q: %w'' (splitList value)) (\<lambda>ps.
          Inr (c\<lparr>cAddresses := cAddresses c @ ps\<rparr>))
      else if key = ''dns'' then
        bindE (parseAll ParseAddr ''DNS %q is not an address; search domains are not supported'' (splitList value)) (\<lambda>as.
          Inr (c\<lparr>cDNS := cDNS c @ as\<rparr>))
      else if key = ''mtu'' then
        (case Atoi value of None \<Rightarrow> Inl ''MTU %q: %w'' | Some n \<Rightarrow> Inr (c\<lparr>cMTU := n\<rparr>))
      else if key = ''listenport'' then
        (case Atoi value of None \<Rightarrow> Inl ''ListenPort %q: %w'' | Some n \<Rightarrow> Inr (c\<lparr>cListenPort := n\<rparr>))
      else if key \<in> {''table'', ''preup'', ''postup'', ''predown'', ''postdown'', ''saveconfig'', ''fwmark''}
      then Inl ''%s is a wg-quick directive this client does not implement''
      else Inr c)"

definition setPeer :: "string \<Rightarrow> string \<Rightarrow> Conf \<Rightarrow> string + Conf" where
  "setPeer key value c =
     (if key = ''publickey'' then
        (case b64Decode value of
           None \<Rightarrow> Inl ''PublicKey is not a %d-byte base64 key''
         | Some raw \<Rightarrow> if length raw \<noteq> 32 then Inl ''PublicKey is not a %d-byte base64 key''
                      else Inr (c\<lparr>cPeerPubKey := value\<rparr>))
      else if key = ''endpoint'' then Inr (c\<lparr>cPeerEndpoint := value\<rparr>)
      else if key = ''allowedips'' then
        bindE (parseAll ParsePrefix ''AllowedIPs %q: %w'' (splitList value)) (\<lambda>ps.
          Inr (c\<lparr>cPeerAllowed := cPeerAllowed c @ ps\<rparr>))
      else if key = ''persistentkeepalive'' then
        (case Atoi value of None \<Rightarrow> Inl ''PersistentKeepalive %q: %w'' | Some n \<Rightarrow> Inr (c\<lparr>cPeerKeepalive := n\<rparr>))
      else if key = ''presharedkey'' then Inl ''PresharedKey cannot be imported''
      else Inr c)"

text \<open>
  \<open>set\<close>.  A list is parsed before any of it is stored, where the code stores entry by entry
  and then returns the error; the configuration is dropped on an error in both.
\<close>

definition Conf_set :: "string \<Rightarrow> string \<Rightarrow> string \<Rightarrow> Conf \<Rightarrow> string + Conf" where
  "Conf_set section key value c =
     (if ToLower section = ''interface'' then setInterface (ToLower key) value c
      else if ToLower section = ''peer'' then setPeer (ToLower key) value c
      else Inr c)"

definition stripComment :: "string \<Rightarrow> string" where
  "stripComment line =
     (let text = TrimSpace line in
      if ContainsAny text ''#;'' then TrimSpace (takeWhile (\<lambda>c. c \<notin> set ''#;'') text) else text)"

fun parseLines :: "string list \<Rightarrow> string \<Rightarrow> nat \<Rightarrow> Conf \<Rightarrow> string + Conf \<times> nat" where
  "parseLines [] section peers c = Inr (c, peers)"
| "parseLines (line # lines) section peers c =
     (let text = stripComment line in
      if text = [] then parseLines lines section peers c
      else if HasPrefix text ''['' \<and> HasSuffix text '']'' then
        (let section = ToLower (TrimSet text ''[]'') in
         parseLines lines section (if section = ''peer'' then Suc peers else peers) c)
      else case Cut text (CHR ''='') of
          None \<Rightarrow> Inl ''line %d: %q is not key = value''
        | Some (key, value) \<Rightarrow>
            bindE (Conf_set section (TrimSpace key) (TrimSpace value) c) (\<lambda>c. parseLines lines section peers c))"

definition Parse :: "string list \<Rightarrow> string + Conf" where
  "Parse lines =
     bindE (parseLines lines [] 0 emptyConf) (\<lambda>(c, peers).
       if cAddresses c = [] then Inl ''no Address in [Interface]; this client needs to know what to give the tunnel''
       else if peers = 0 then Inl ''no [Peer] section''
       else if peers > 1 then Inl ''%d [Peer] sections; this imports one, and provision takes -peer more than once''
       else if cPeerPubKey c = [] then Inl ''the [Peer] section has no PublicKey''
       else Inr c)"

text \<open>The peer as a \<open>-peer\<close> flag, shared by \<open>ProvisionArgs\<close> and \<open>FromConf\<close>.\<close>

definition peerFields :: "Conf \<Rightarrow> string \<Rightarrow> string list" where
  "peerFields c label =
     [''label='' @ label, ''pubkey='' @ cPeerPubKey c] @
     (if cPeerEndpoint c \<noteq> [] then [''endpoint='' @ cPeerEndpoint c] else []) @
     map (\<lambda>p. ''allowed-ips='' @ PrefixString p) (cPeerAllowed c) @
     (if cPeerKeepalive c \<noteq> 0 then [''keepalive='' @ Itoa (cPeerKeepalive c)] else [])"

definition ProvisionArgs :: "Conf \<Rightarrow> string \<Rightarrow> string list" where
  "ProvisionArgs c label =
     concat (map (\<lambda>a. [''-address'', PrefixString a]) (cAddresses c)) @
     concat (map (\<lambda>d. [''-dns'', AddrString d]) (cDNS c)) @
     (if cMTU c \<noteq> 0 then [''-mtu'', Itoa (cMTU c)] else []) @
     (if cListenPort c \<noteq> 0 then [''-listen-port'', Itoa (cListenPort c)] else []) @
     [''-peer'', Join '','' (peerFields c label)]"

lemma parseAll_Inr: "parseAll f msg xs = Inr ys \<longleftrightarrow> map f xs = map Some ys"
  by (induction xs arbitrary: ys) (auto simp: result_inv split: option.splits)

text \<open>What \<open>Parse\<close> has checked of the peer's key and of the addresses at every line.\<close>

definition okConf :: "Conf \<Rightarrow> bool" where
  "okConf c \<longleftrightarrow> (cPeerPubKey c = [] \<or> (\<exists>raw. b64Decode (cPeerPubKey c) = Some raw \<and> length raw = 32)) \<and>
     (\<forall>p \<in> set (cAddresses c) \<union> set (cPeerAllowed c). PrefixIsValid p) \<and>
     (\<forall>d \<in> set (cDNS c). AddrIsValid d)"

lemma ParsePrefix_valid: "ParsePrefix s = Some p \<Longrightarrow> PrefixIsValid p"
  using ParseAddr_valid
  by (auto simp: ParsePrefix_def PrefixIsValid_def PrefixFrom_def split: option.splits if_splits)

lemma parseAll_valid:
  "parseAll f msg xs = Inr ys \<Longrightarrow> (\<And>x y. f x = Some y \<Longrightarrow> P y) \<Longrightarrow> y \<in> set ys \<Longrightarrow> P y"
  unfolding parseAll_Inr by (metis (no_types) image_iff list.set_map)

lemma setInterface_ok: "setInterface k v c = Inr c' \<Longrightarrow> okConf c \<Longrightarrow> okConf c'"
  using parseAll_valid [of ParsePrefix "''Address %q: %w''" "splitList v" _ PrefixIsValid]
    parseAll_valid [of ParseAddr "''DNS %q is not an address; search domains are not supported''" "splitList v" _ AddrIsValid]
    ParsePrefix_valid ParseAddr_valid
  unfolding setInterface_def by (auto simp: okConf_def result_inv split: if_splits option.splits)

lemma setPeer_ok: "setPeer k v c = Inr c' \<Longrightarrow> okConf c \<Longrightarrow> okConf c'"
  using parseAll_valid [of ParsePrefix "''AllowedIPs %q: %w''" "splitList v" _ PrefixIsValid] ParsePrefix_valid
  unfolding setPeer_def by (auto simp: okConf_def result_inv split: if_splits option.splits)

lemma Conf_set_ok: "Conf_set sec k v c = Inr c' \<Longrightarrow> okConf c \<Longrightarrow> okConf c'"
  by (auto simp: Conf_set_def dest: setInterface_ok setPeer_ok split: if_splits)

lemma parseLines_ok: "parseLines ls sec n c = Inr (c', n') \<Longrightarrow> okConf c \<Longrightarrow> okConf c'"
proof (induction ls arbitrary: sec n c)
  case (Cons line lines)
  from Cons.prems(1) consider sec' m where "parseLines lines sec' m c = Inr (c', n')"
    | k v c1 where "Conf_set sec k v c = Inr c1" "parseLines lines sec n c1 = Inr (c', n')"
    by (auto simp: Let_def result_inv split: if_splits option.splits)
  then show ?case using Cons.IH Cons.prems(2) Conf_set_ok by cases blast+
qed simp

text \<open>
  An accepted file can be provisioned.  It has exactly one peer section and at least one
  address, every address, allowed prefix and DNS server in it is valid, and the peer's
  public key is base64 of 32 bytes.
\<close>

theorem parse_accepts_usable:
  assumes "Parse lines = Inr c"
  shows "cAddresses c \<noteq> [] \<and> (\<exists>raw. b64Decode (cPeerPubKey c) = Some raw \<and> length raw = 32) \<and>
     (\<forall>p \<in> set (cAddresses c) \<union> set (cPeerAllowed c). PrefixIsValid p) \<and>
     (\<forall>d \<in> set (cDNS c). AddrIsValid d) \<and> parseLines lines [] 0 emptyConf = Inr (c, 1)"
proof -
  from assms have p: "parseLines lines [] 0 emptyConf = Inr (c, 1)" and "cAddresses c \<noteq> []" "cPeerPubKey c \<noteq> []"
    by (auto simp: Parse_def result_inv split: if_splits)
  moreover have "okConf c"
    by (rule parseLines_ok [OF p]) (simp add: okConf_def emptyConf_def)
  ultimately show ?thesis by (auto simp: okConf_def)
qed

lemmas text_eval = stripComment_def TrimSpace_def is_space_def ContainsAny_def HasPrefix_def HasSuffix_def
  TrimSet_def ToLower_def to_lower_def less_eq_char_def less_char_def Cut_def Conf_set_def setInterface_def setPeer_def
  splitList_def ParsePrefix_def CutLast_def ParseAddr_def parse4_def octet_def digit_val_def Atoi_def
  b64Decode_def b64_val_def char_of_eq_iff Let_def emptyConf_def Parse_def PrefixFrom_def

definition exampleLines :: "string list" where
  "exampleLines =
     [''[Interface]'', ''Address = 10.0.0.2/32'', ''PrivateKey = abc'', ''[Peer]'',
      ''PublicKey = AAAAAAAAAAAAAAAAAAAAAAAAAAAAAAAAAAAAAAAAAAA='', ''Endpoint = vpn:51820'',
      ''AllowedIPs = 10.0.0.0/8'']"

definition exampleConf :: Conf where
  "exampleConf =
      \<lparr>cAddresses = [\<lparr>pfxAddr = Addr4 0x0A000002, pfxBits = 32\<rparr>], cDNS = [], cMTU = 0, cListenPort = 0,
      cPeerPubKey = ''AAAAAAAAAAAAAAAAAAAAAAAAAAAAAAAAAAAAAAAAAAA='', cPeerEndpoint = ''vpn:51820'',
      cPeerAllowed = [\<lparr>pfxAddr = Addr4 0x0A000000, pfxBits = 8\<rparr>], cPeerKeepalive = 0, cHadPrivateKey = True\<rparr>"

lemma exampleLines_Parse: "Parse exampleLines = Inr exampleConf"
  by (simp add: text_eval exampleLines_def exampleConf_def)

theorem parse_accepts_usable_witness:
  "\<exists>raw. b64Decode (cPeerPubKey exampleConf) = Some raw \<and> length raw = 32"
  using parse_accepts_usable [OF exampleLines_Parse] by blast

subsection \<open>The private key is dropped\<close>

definition rtrim :: "string \<Rightarrow> string" where
  "rtrim s = rev (dropWhile is_space (rev s))"

lemma TrimSpace_anchor:
  "\<not> is_space c \<Longrightarrow> \<not> is_space e \<Longrightarrow> TrimSpace (c # s @ e # u) = c # s @ e # rtrim u"
  by (simp add: TrimSpace_def rtrim_def dropWhile_append)

lemma stripComment_key:
  "\<exists>u'. stripComment (''PrivateKey ='' @ u) = ''PrivateKey ='' @ u'"
proof -
  have t: "TrimSpace (''PrivateKey ='' @ u) = ''PrivateKey ='' @ rtrim u" for u
    using TrimSpace_anchor [of "CHR ''P''" "CHR ''=''" "''rivateKey ''" u] by (simp add: is_space_def)
  have w: "takeWhile (\<lambda>c. c \<notin> set ''#;'') (''PrivateKey ='' @ v) = ''PrivateKey ='' @ takeWhile (\<lambda>c. c \<notin> set ''#;'') v" for v
    by simp
  show ?thesis
    unfolding stripComment_def Let_def t w by (cases "ContainsAny (''PrivateKey ='' @ rtrim u) ''#;''") (simp_all only: if_True if_False, blast+)
qed

lemma private_line:
  "parseLines ((''PrivateKey ='' @ u) # lines) sec n c =
     parseLines lines sec n (if ToLower sec = ''interface'' then c\<lparr>cHadPrivateKey := True\<rparr> else c)"
proof -
  obtain u' where s: "stripComment (''PrivateKey ='' @ u) = ''PrivateKey ='' @ u'"
    using stripComment_key by blast
  have cut: "Cut (''PrivateKey ='' @ u') (CHR ''='') = Some (''PrivateKey '', u')"
    using Cut_append [of "CHR ''=''" "''PrivateKey ''" u'] by simp
  have key: "TrimSpace ''PrivateKey '' = ''PrivateKey''"
    by (simp add: TrimSpace_def is_space_def)
  have low: "ToLower ''PrivateKey'' = ''privatekey''"
    by (simp add: ToLower_def to_lower_def less_eq_char_def char_of_eq_iff)
  have "Conf_set sec ''PrivateKey'' v c = Inr (if ToLower sec = ''interface'' then c\<lparr>cHadPrivateKey := True\<rparr> else c)" for v
    by (simp add: Conf_set_def low setInterface_def setPeer_def)
  then show ?thesis by (simp add: s cut key Let_def HasPrefix_def del: append.simps)
qed

lemma parseLines_append:
  "parseLines (xs @ ys) sec n c = parseLines (xs @ ys') sec n c"
  if "\<And>sec n c. parseLines ys sec n c = parseLines ys' sec n c"
  using that by (induction xs arbitrary: sec n c) (auto simp: Let_def split: option.splits intro!: arg_cong2 [where f = bindE])

text \<open>
  The private key in a file is read and dropped.  Whatever stands after \<open>PrivateKey =\<close> on a
  line, the result of \<open>Parse\<close> is the same, in every file and at every line of it.
\<close>

theorem private_key_dropped:
  "Parse (xs @ (''PrivateKey ='' @ u) # ys) = Parse (xs @ (''PrivateKey ='' @ v) # ys)"
  unfolding Parse_def by (rule arg_cong2 [where f = bindE, OF parseLines_append refl]) (simp only: private_line)

end
