(* ===== verification/PeerSpecs.thy ===== *)
theory PeerSpecs
  imports ProvisionRun Wgconf
begin

text \<open>
  \<open>internal/provision/peerspec.go\<close> and \<open>fromconf.go\<close>: reading one peer from a
  comma-separated list of fields, and a WireGuard file turned into parameters through the
  same reader.  A nil public key is the empty list; a key that was read is 32 bytes.
\<close>

subsection \<open>Endpoints\<close>

definition parseEndpoint :: "size_tags \<Rightarrow> string \<Rightarrow> string + Endpoint" where
  "parseEndpoint sz s =
     (case ParseAddrPort s of
        Some (a, port) \<Rightarrow> Inr \<lparr>IP = Unmap a, Host = [], Port = port\<rparr>
      | None \<Rightarrow>
          (case SplitHostPort s of
             None \<Rightarrow> Inl ''endpoint %q: expected host:port''
           | Some (host, portStr) \<Rightarrow>
               (case ParseUint portStr 16 of
                  None \<Rightarrow> Inl ''endpoint %q: port must be 1..65535''
                | Some port \<Rightarrow>
                    if port = 0 then Inl ''endpoint %q: port must be 1..65535''
                    else if host = [] then Inl ''endpoint %q: missing host''
                    else if length host > MaxHostname sz then Inl ''endpoint hostname is %d bytes, max %d''
                    else Inr \<lparr>IP = AddrZero, Host = host, Port = word_of_nat port\<rparr>)))"

subsection \<open>The fields of a peer\<close>

definition specField :: "size_tags \<Rightarrow> string \<Rightarrow> string \<Rightarrow> PeerSpec \<times> bool \<Rightarrow> string + PeerSpec \<times> bool" where
  "specField sz key value = (\<lambda>(p, seenEndpoint).
     if key = ''pubkey'' then
       (case b64Decode value of
          None \<Rightarrow> Inl ''pubkey is not valid base64: %w''
        | Some raw \<Rightarrow> if length raw \<noteq> 32 then Inl ''pubkey is %d bytes, a Curve25519 key is %d''
                     else Inr (p\<lparr>psPubKey := raw\<rparr>, seenEndpoint))
     else if key = ''label'' then Inr (p\<lparr>psLabel := value\<rparr>, seenEndpoint)
     else if key = ''endpoint'' then
       bindE (parseEndpoint sz value) (\<lambda>ep. Inr (p\<lparr>psEndpoint := ep\<rparr>, True))
     else if key = ''allowed-ips'' \<or> key = ''allowed-ip'' then
       (case ParsePrefix value of
          None \<Rightarrow> Inl ''allowed-ips %q: %w''
        | Some prefix \<Rightarrow> Inr (p\<lparr>psAllowedIPs := psAllowedIPs p @ [Masked prefix]\<rparr>, seenEndpoint))
     else if key = ''keepalive'' then
       (case ParseUint value 8 of
          None \<Rightarrow> Inl ''keepalive %q: must be 1..255 seconds''
        | Some n \<Rightarrow> if n = 0 then Inl ''keepalive 0 means disabled; omit the field instead''
                   else Inr (p\<lparr>psKeepalive := word_of_nat n\<rparr>, seenEndpoint))
     else Inl ''unknown field %q'')"

fun specFields :: "size_tags \<Rightarrow> string list \<Rightarrow> PeerSpec \<times> bool \<Rightarrow> string + PeerSpec \<times> bool" where
  "specFields sz [] st = Inr st"
| "specFields sz (field # rest) st =
     (let field = TrimSpace field in
      if field = [] then specFields sz rest st
      else case Cut field (CHR ''='') of
          None \<Rightarrow> Inl ''field %q is not key=value''
        | Some (key, value) \<Rightarrow>
            bindE (specField sz (TrimSpace (ToLower key)) (TrimSpace value) st) (\<lambda>st. specFields sz rest st))"

definition emptySpec :: PeerSpec where
  "emptySpec = \<lparr>psPubKey = [], psLabel = [], psEndpoint = emptyEndpoint, psAllowedIPs = [], psKeepalive = 0\<rparr>"

definition ParsePeerSpec :: "size_tags \<Rightarrow> string \<Rightarrow> string + PeerSpec" where
  "ParsePeerSpec sz s =
     (if TrimSpace s = [] then Inl ''empty --peer''
      else bindE (specFields sz (Split (CHR '','') s) (emptySpec, False)) (\<lambda>(p, seenEndpoint).
        if psPubKey p = [] then Inl ''missing pubkey''
        else if \<not> seenEndpoint then Inl ''missing endpoint''
        else if psAllowedIPs p = [] then Inl ''missing allowed-ips: a peer with no routes would receive no traffic''
        else Inr (if psLabel p = [] then p\<lparr>psLabel := ''wg peer '' @ take 8 (b64Encode (psPubKey p))\<rparr> else p)))"

subsection \<open>A configuration file as parameters\<close>

definition FromConf :: "size_tags \<Rightarrow> Conf \<Rightarrow> string \<Rightarrow> error + Params" where
  "FromConf sz c label =
     (if TrimSpace label = [] then Inl (Fail KindUsage ''the peer needs a name - a .conf file does not carry one'' [])
      else bindE (mapErr (\<lambda>e. Fail KindUsage ''%w'' [Msg e]) (ParsePeerSpec sz (Join '','' (peerFields c label)))) (\<lambda>peer.
        (let p = \<lparr>pAddrs = cAddresses c, pDNS = cDNS c, pMTU = cMTU c, pListenPort = cListenPort c,
                  pLabel = label, pPeers = [peer], pKID = [], pPSK = None, pPSKGenerated = False, pAdopt = False\<rparr>
         in bindE (Validate sz p) (\<lambda>_. Inr p))))"

subsection \<open>A parsed peer can only be too big\<close>

definition okSpec :: "size_tags \<Rightarrow> PeerSpec \<times> bool \<Rightarrow> bool" where
  "okSpec sz = (\<lambda>(p, seen). (psPubKey p = [] \<or> length (psPubKey p) = 32) \<and>
     (seen \<longrightarrow> \<not> IsZero (psEndpoint p) \<and> okHost sz (psEndpoint p)) \<and>
     (\<forall>a \<in> set (psAllowedIPs p). PrefixIsValid a \<and> wf_Prefix a \<and> Masked a = a))"

lemma drop_push_bit: "drop_bit n (push_bit n (drop_bit n w)) = drop_bit n (w :: 'a::len word)"
  by (intro bit_eqI) (auto simp: bit_simps dest: bit_imp_le_length)

lemma Masked_idem [simp]: "Masked (Masked p) = Masked p"
  by (cases "pfxAddr p") (auto simp: Masked_def PrefixIsValid_def Let_def drop_push_bit)

lemma Masked_valid [simp]: "PrefixIsValid (Masked p) = PrefixIsValid p"
  by (simp add: Masked_def PrefixIsValid_def Let_def)

lemma Masked_wf: "wf_Prefix p \<Longrightarrow> wf_Prefix (Masked p)"
  by (cases "pfxAddr p") (auto simp: wf_Prefix_def Masked_def PrefixIsValid_def Let_def)

lemma ParsePrefix_wf: "ParsePrefix s = Some p \<Longrightarrow> wf_Prefix p"
  by (auto simp: ParsePrefix_def Let_def split: option.splits if_splits)

lemma ParseAddrPort_valid: "ParseAddrPort s = Some (a, p) \<Longrightarrow> AddrIsValid a"
  by (auto simp: ParseAddrPort_def Let_def split: option.splits if_splits dest: ParseAddr_valid)

lemma Unmap_valid: "AddrIsValid a \<Longrightarrow> AddrIsValid (Unmap a)"
  by (cases a) (auto simp: Unmap_def)

lemma parseEndpoint_ok: "parseEndpoint sz s = Inr e \<Longrightarrow> \<not> IsZero e \<and> okHost sz e"
proof -
  have "AddrIsValid (Unmap a)" if "ParseAddrPort s = Some (a, b)" for a b
    using ParseAddrPort_valid [OF that] by (rule Unmap_valid)
  then show "parseEndpoint sz s = Inr e \<Longrightarrow> \<not> IsZero e \<and> okHost sz e"
    by (auto simp: parseEndpoint_def IsZero_def okHost_def split: option.splits if_splits)
qed

lemma specField_cases:
  assumes "specField sz k v (p, seen) = Inr st'"
  obtains (key) raw where "length raw = 32" "st' = (p\<lparr>psPubKey := raw\<rparr>, seen)"
    | (label) l where "st' = (p\<lparr>psLabel := l\<rparr>, seen)"
    | (ep) e where "parseEndpoint sz v = Inr e" "st' = (p\<lparr>psEndpoint := e\<rparr>, True)"
    | (aip) a where "PrefixIsValid a" "wf_Prefix a" "st' = (p\<lparr>psAllowedIPs := psAllowedIPs p @ [Masked a]\<rparr>, seen)"
    | (ka) n where "st' = (p\<lparr>psKeepalive := n\<rparr>, seen)"
proof -
  have valid: "PrefixIsValid a" "wf_Prefix a" if "ParsePrefix v = Some a" for a
    using ParsePrefix_valid [OF that] ParsePrefix_wf [OF that] by simp_all
  consider "k = ''pubkey''" | "k = ''label''" | "k = ''endpoint''" | "k = ''allowed-ips'' \<or> k = ''allowed-ip''"
    | "k = ''keepalive''"
    using assms unfolding specField_def by (auto split: if_splits)
  then show thesis
  proof cases
    case 1
    with assms key show ?thesis by (auto simp: specField_def split: option.splits if_splits)
  next
    case 2
    with assms label [of v] show ?thesis by (simp add: specField_def)
  next
    case 3
    with assms ep show ?thesis by (auto simp: specField_def result_inv)
  next
    case 4
    with assms aip valid show ?thesis by (auto simp: specField_def split: option.splits)
  next
    case 5
    with assms ka show ?thesis by (auto simp: specField_def split: option.splits if_splits)
  qed
qed

lemma specField_ok: "specField sz k v st = Inr st' \<Longrightarrow> okSpec sz st \<Longrightarrow> okSpec sz st'"
proof -
  assume f: "specField sz k v st = Inr st'" and ok: "okSpec sz st"
  obtain p seen where st: "st = (p, seen)" by (cases st)
  from f [unfolded st] show "okSpec sz st'"
  proof (cases rule: specField_cases)
    case (ep e)
    then show ?thesis using ok parseEndpoint_ok [of sz v e] by (simp add: st okSpec_def)
  qed (use ok in \<open>auto simp: st okSpec_def Masked_wf\<close>)
qed

lemma specFields_ok: "specFields sz fs st = Inr st' \<Longrightarrow> okSpec sz st \<Longrightarrow> okSpec sz st'"
proof (induction fs arbitrary: st)
  case (Cons f fs)
  from Cons.prems(1) consider "specFields sz fs st = Inr st'"
    | k v st1 where "specField sz k v st = Inr st1" "specFields sz fs st1 = Inr st'"
    by (auto simp: Let_def result_inv split: if_splits option.splits)
  then show ?case using Cons.IH Cons.prems(2) specField_ok by cases blast+
qed simp

lemma ParsePeerSpec_Inr:
  assumes "ParsePeerSpec sz s = Inr p"
  shows "\<exists>q. specFields sz (Split (CHR '','') s) (emptySpec, False) = Inr (q, True) \<and>
     psPubKey q \<noteq> [] \<and> psAllowedIPs q \<noteq> [] \<and>
     p = (if psLabel q = [] then q\<lparr>psLabel := ''wg peer '' @ take 8 (b64Encode (psPubKey q))\<rparr> else q)"
proof -
  obtain q seen where q: "specFields sz (Split (CHR '','') s) (emptySpec, False) = Inr (q, seen)"
    using assms by (auto simp: ParsePeerSpec_def result_inv split: if_splits)
  from assms q show ?thesis
    by (intro exI [of _ q]) (simp add: ParsePeerSpec_def split: if_splits)
qed

text \<open>What the encoders take for granted of a specification, and every parsed one has.\<close>

definition specOk :: "PeerSpec \<Rightarrow> bool" where
  "specOk p \<longleftrightarrow> wf_Peer (specPeer p None) \<and> length (psPubKey p) = PubKeyLen"

lemma ParsePeerSpec_specOk: "ParsePeerSpec sz s = Inr p \<Longrightarrow> specOk p"
proof -
  assume "ParsePeerSpec sz s = Inr p"
  from ParsePeerSpec_Inr [OF this] obtain q where q: "specFields sz (Split (CHR '','') s) (emptySpec, False) = Inr (q, True)"
    and ne: "psPubKey q \<noteq> []" and p: "p = (if psLabel q = [] then q\<lparr>psLabel := ''wg peer '' @ take 8 (b64Encode (psPubKey q))\<rparr> else q)"
    by blast
  have "okSpec sz (q, True)" by (rule specFields_ok [OF q]) (simp add: okSpec_def emptySpec_def)
  with ne show ?thesis by (auto simp: okSpec_def p specOk_def wf_Peer_def specPeer_def PubKeyLen_def)
qed

text \<open>
  C29: a peer read from its text form has a 32-byte key, an endpoint, and at least one route,
  each of them valid and masked; so the record it is stored as either encodes or is refused
  for its length alone, with the number of bytes it is over by.
\<close>

theorem parsed_peer_only_overflows:
  assumes "ParsePeerSpec sz s = Inr p" and "wrapped = None \<or> (\<exists>w. wrapped = Some w \<and> length w = PSKWrappedLen)"
  shows "length (psPubKey p) = 32 \<and> psAllowedIPs p \<noteq> [] \<and> (\<forall>a \<in> set (psAllowedIPs p). Masked a = a) \<and>
     (isOk (Record sz p wrapped) \<or>
      (\<exists>n. n > Size sz \<and> Record sz p wrapped = Inl (ErrOverflow ''peer'' n (n - Size sz))))"
proof -
  from assms(1) obtain q where q: "specFields sz (Split (CHR '','') s) (emptySpec, False) = Inr (q, True)"
    and ne: "psPubKey q \<noteq> []" "psAllowedIPs q \<noteq> []"
    and p: "p = (if psLabel q = [] then q\<lparr>psLabel := ''wg peer '' @ take 8 (b64Encode (psPubKey q))\<rparr> else q)"
    using ParsePeerSpec_Inr [OF assms(1)] by blast
  have "okSpec sz (q, True)" by (rule specFields_ok [OF q]) (simp add: okSpec_def emptySpec_def)
  then have ok: "length (psPubKey p) = 32" "\<not> IsZero (psEndpoint p)" "okHost sz (psEndpoint p)"
    "\<forall>a \<in> set (psAllowedIPs p). PrefixIsValid a \<and> wf_Prefix a \<and> Masked a = a" "psAllowedIPs p \<noteq> []"
    using ne by (auto simp: okSpec_def p)
  have "okPSK (specPeer p wrapped)" using assms(2) by (auto simp: okPSK_def specPeer_def)
  then have "Peer_Encode sz (specPeer p wrapped) =
      (if length (peerBytes (specPeer p wrapped)) > Size sz
       then Inl (ErrOverflow ''peer'' (length (peerBytes (specPeer p wrapped)))
              (length (peerBytes (specPeer p wrapped)) - Size sz))
       else Inr (pad sz (peerBytes (specPeer p wrapped))))"
    using ok by (simp add: Peer_Encode_eq specPeer_def)
  with ok show ?thesis by (auto simp: Record_def Let_def)
qed

lemmas spec_eval = FromConf_def ParsePeerSpec_def peerFields_def specField_def emptySpec_def emptyEndpoint_def
  parseEndpoint_def ParseAddrPort_def SplitHostPort_def ParseUint_def MaxHostname_def descr_lens
  PrefixString_def AddrString_def String4_def octets_def FormatUint.simps Itoa_def digit_char_def
  PrefixIsValid_def Masked_def

definition exampleSpecText :: "string \<Rightarrow> string" where
  "exampleSpecText label = Join '','' (peerFields exampleConf label)"

definition exampleSpec :: "string \<Rightarrow> Prefix list \<Rightarrow> PeerSpec" where
  "exampleSpec label as = \<lparr>psPubKey =
       [0, 0, 0, 0, 0, 0, 0, 0, 0, 0, 0, 0, 0, 0, 0, 0, 0, 0, 0, 0, 0, 0, 0, 0, 0, 0, 0, 0, 0, 0, 0, 0],
     psLabel = label,
     psEndpoint = \<lparr>IP = AddrZero, Host = ''vpn'', Port = 51820\<rparr>, psAllowedIPs = as, psKeepalive = 0\<rparr>"

lemma exampleSpec_parse:
  "ParsePeerSpec size_default (exampleSpecText ''home'') = Inr (exampleSpec ''home'' [PrefixFrom (Addr4 0x0A000000) 8])"
  by (simp add: exampleSpecText_def exampleSpec_def exampleConf_def spec_eval text_eval)

theorem parsed_peer_only_overflows_witness:
  "isOk (Record size_default (exampleSpec ''home'' [PrefixFrom (Addr4 0x0A000000) 8]) None) \<or>
   (\<exists>n. n > 128 \<and> Record size_default (exampleSpec ''home'' [PrefixFrom (Addr4 0x0A000000) 8]) None =
      Inl (ErrOverflow ''peer'' n (n - 128)))"
  using parsed_peer_only_overflows [OF exampleSpec_parse, of None] by simp

definition exampleParams :: "string \<Rightarrow> PeerSpec \<Rightarrow> Params" where
  "exampleParams label peer = \<lparr>pAddrs = cAddresses exampleConf, pDNS = [], pMTU = 0, pListenPort = 0,
     pLabel = label, pPeers = [peer], pKID = [], pPSK = None, pPSKGenerated = False, pAdopt = False\<rparr>"

lemma exampleParams_Validate:
  "set as \<subseteq> {PrefixFrom (Addr4 0) 0, PrefixFrom (Addr4 0x0A000000) 8} \<Longrightarrow> length as \<le> 2 \<Longrightarrow>
   Validate size_default (exampleParams l (exampleSpec m as)) = Inr ()"
proof -
  assume as: "set as \<subseteq> {PrefixFrom (Addr4 0) 0, PrefixFrom (Addr4 0x0A000000) 8}" "length as \<le> 2"
  let ?p = "specPeer (exampleSpec m as) None"
  have "pfx4 a \<and> PrefixIsValid a" if "a \<in> set as" for a
    using as(1) that by (auto simp: PrefixFrom_def PrefixIsValid_def)
  then have valid: "\<forall>a \<in> set as. PrefixIsValid a" and "\<forall>a \<in> set as. pfx4 a" by auto
  from this(2) have "sum_list (map (\<lambda>a. if pfx4 a then 7 else 19) as) = 7 * length as"
    by (induction as) auto
  then have "isOk (Peer_Encode size_default ?p)"
    using as(2) valid by (simp add: Peer_Encode_eq okHost_def okPSK_def IsZero_def isOk_iff length_peerBytes peerNeed_def
        specPeer_def exampleSpec_def MaxHostname_def descr_lens sum_list_triv)
  then show ?thesis
    by (auto simp: Validate_def exampleParams_def exampleConf_def Record_def isOk_iff MaxPeers_def
        deviceMsgLimit_def fixedLen_def perPeer_def Domain_def PubKeyLen_def)
qed

end
