(* ===== verification/PeerCmd.thy ===== *)
theory PeerCmd
  imports ProvisionRun PeerSpecs
begin

text \<open>
  \<open>cmd/wg-hem/peer.go\<close>: adding, removing and replacing a peer of a configuration that is in the
  device, and the re-authentication all three end with.  The part after the flags is a
  computation over a client and a token function; the commands run it on the session that
  \<open>Device.Load\<close> (\<open>internal/session/device.go\<close>) opened.  Output is not modelled except for the
  pre-shared key that is shown once.
\<close>

subsection \<open>Opening a session on an authenticated configuration\<close>

text \<open>\<open>Device.Load\<close>: the derived key is dropped when the configuration does not load.\<close>

definition Device_Load :: "nat \<Rightarrow> size_tags \<Rightarrow> 'd Client \<Rightarrow> 'd Device \<Rightarrow> ('d \<times> Auth) ChooseFunc \<Rightarrow>
    ('d, error, Auth \<times> Tree) io" where
  "Device_Load fuel sz c dev chooser =
     bindS (Connect c dev) (\<lambda>auth d.
       case Load fuel sz (liftClient c) (Token c dev) chooser (d, auth) of
         (Inl e, (d', _)) \<Rightarrow> (Inl e, Wipe c d')
       | (Inr tree, (d', auth')) \<Rightarrow> (Inr (auth', tree), d'))"

text \<open>\<open>deviceFlags.load\<close> with the deferred \<open>auth.Wipe\<close>, around what a command does with the tree.\<close>

definition withTree :: "nat \<Rightarrow> size_tags \<Rightarrow> 'd Client \<Rightarrow> 'd Device \<Rightarrow> ('d \<times> Auth) ChooseFunc \<Rightarrow>
    (Tree \<Rightarrow> ('d \<times> Auth, error, 'a) io) \<Rightarrow> ('d, error, 'a) io" where
  "withTree fuel sz c dev chooser body =
     bindS (mapErrS classifyLoad (Device_Load fuel sz c dev chooser)) (\<lambda>(auth, tree) d.
       case body tree (d, auth) of (r, (d', _)) \<Rightarrow> (r, Wipe c d'))"

subsection \<open>Flags with a meaning\<close>

text \<open>
  \<open>readPSK\<close> (\<open>provision.go\<close>): the random bytes and the line on standard input come from outside;
  a read error other than the end of the input is \<open>None\<close>.
\<close>

definition readPSK :: "string \<Rightarrow> bytes option \<Rightarrow> string option \<Rightarrow> error + bytes option" where
  "readPSK mode random stdin =
     (if mode = [] then Inr None
      else if mode = ''generate'' then
        (case random of
           None \<Rightarrow> Inl (failf exitDevice ''generating a pre-shared key: %w'' [])
         | Some key \<Rightarrow> Inr (Some key))
      else if mode = ''-'' then
        (case stdin of
           None \<Rightarrow> Inl (failf exitUsage ''reading the pre-shared key from stdin: %w'' [])
         | Some line \<Rightarrow>
             (case b64Decode (TrimSpace line) of
                None \<Rightarrow> Inl (failf exitUsage ''the pre-shared key on stdin is not valid base64: %w'' [])
              | Some raw \<Rightarrow>
                  if length raw \<noteq> PSKLen then Inl (failf exitUsage ''the pre-shared key is %d bytes, expected %d'' [])
                  else Inr (Some raw)))
      else Inl (failf exitUsage ''-psk takes '-' to read from stdin or 'generate'; a key on the command line would be visible in the process list'' []))"

definition decodePubKey :: "string \<Rightarrow> error + bytes" where
  "decodePubKey s =
     (if s = [] then Inl (failf exitUsage ''--pubkey is required'' [])
      else case b64Decode (TrimSpace s) of
        None \<Rightarrow> Inl (failf exitUsage ''--pubkey is not valid base64: %w'' [])
      | Some raw \<Rightarrow>
          if length raw \<noteq> PubKeyLen then Inl (failf exitUsage ''--pubkey is %d bytes, a Curve25519 key is %d'' [])
          else Inr raw)"

subsection \<open>Re-authentication\<close>

definition resealed :: "Tree \<Rightarrow> Interface" where
  "resealed tree = (Iface tree)\<lparr>PeerRefs := map (\<lambda>p. MakePeerRef (cpPubKey p)) (Peers tree),
     HasMAC := True, MAC := zeroMAC\<rparr>"

definition reseal :: "size_tags \<Rightarrow> 'd Client \<Rightarrow> 'd TokenFunc \<Rightarrow> Tree \<Rightarrow> ('d, error, Tree) io" where
  "reseal sz c tok tree =
     (let rec = resealed tree; records = map recordOf (Peers tree) in
      bindS (liftE (mapErr (\<lambda>e. failf exitUsage ''interface record: %w'' [DescrError e]) (Interface_Encode sz rec))) (\<lambda>unsignd.
      bindS (tok (''keymgmt:use:'' @ IfKID tree)) (\<lambda>useTok.
      bindS (mapErrS (\<lambda>e. classify e exitDevice ''authenticating the configuration'')
               (Sign sz c useTok (IfKID tree) (IfPubKey tree) unsignd records)) (\<lambda>tag.
      bindS (liftE (mapErr (\<lambda>e. failf exitUsage ''interface record: %w'' [DescrError e])
                     (Interface_Encode sz (rec\<lparr>MAC := tag\<rparr>)))) (\<lambda>signed.
      bindS (tok ''keymgmt:upd'') (\<lambda>updTok.
      bindS (mapErrS (\<lambda>e. classify e exitDevice ''writing the interface record'')
               (UpdateKey c updTok (IfKID tree) (IfLabel tree) signed)) (\<lambda>_.
      bindS (mapErrS (\<lambda>e. failf exitIntegrit ''the configuration just written does not verify: %w'' [e])
               (Verify sz c useTok (IfKID tree) (IfPubKey tree) signed records)) (\<lambda>_.
        returnS (tree\<lparr>Iface := rec\<lparr>MAC := tag\<rparr>, IfRaw := signed\<rparr>)))))))))"

subsection \<open>The three edits\<close>

text \<open>The index of the peer with a key, as the loops over \<open>tree.Peers\<close> find it.\<close>

definition peerIndex :: "bytes \<Rightarrow> Tree \<Rightarrow> nat option" where
  "peerIndex key tree = find (\<lambda>i. cpPubKey (Peers tree ! i) = key) [0..<length (Peers tree)]"

definition newPeer :: "PeerSpec \<Rightarrow> string \<Rightarrow> bytes \<Rightarrow> Peer \<Rightarrow> ConfigPeer" where
  "newPeer p kid enc rec = \<lparr>cpKID = kid, cpLabel = psLabel p, cpPubKey = psPubKey p, cpRaw = enc, cpPeer = rec\<rparr>"

text \<open>An adopted peer is taken as it is stored; a record that vanished meanwhile is a nil dereference.\<close>

definition adoptedRecord :: "nat \<Rightarrow> size_tags \<Rightarrow> 'd Client \<Rightarrow> 'd TokenFunc \<Rightarrow> string \<Rightarrow> bool \<Rightarrow> bytes \<Rightarrow> Peer \<Rightarrow>
    ('d, error, bytes \<times> Peer) io" where
  "adoptedRecord fuel sz c tok kid adopted enc rec =
     (if adopted then
        bindS (ReadPeerRecord fuel sz c tok kid) (\<lambda>stored.
          case stored of
            None \<Rightarrow> failS Panic
          | Some s \<Rightarrow>
              bindS (liftE (mapErr (\<lambda>e. failf exitDevice ''peer record %s: %w'' [DescrError e]) (DecodePeer sz s))) (\<lambda>r.
                returnS (s, r)))
      else returnS (enc, rec))"

definition peerAddTo :: "nat \<Rightarrow> size_tags \<Rightarrow> 'd Client \<Rightarrow> 'd TokenFunc \<Rightarrow> PeerSpec \<Rightarrow> bytes option \<Rightarrow> bool \<Rightarrow> bool \<Rightarrow> Tree \<Rightarrow>
    ('d, error, Tree) io" where
  "peerAddTo fuel sz c tok p psk atHead adopt tree =
     (if peerIndex (psPubKey p) tree \<noteq> None then failS (failf exitUsage ''peer %s is already in the configuration as %q'' [])
      else if length (Peers tree) + 1 > MaxPeers sz
      then failS (failf exitUsage ''the configuration already holds %d peers, the device's message limit allows %d'' [])
      else
      (let probe = (Iface tree)\<lparr>PeerRefs := PeerRefs (Iface tree) @ [MakePeerRef (psPubKey p)], HasMAC := True\<rparr> in
      bindS (liftE (mapErr (\<lambda>e. failf exitUsage ''adding a peer does not fit: %w'' [DescrError e]) (Interface_Encode sz probe))) (\<lambda>_.
      bindS (tok (''keymgmt:use:'' @ IfKID tree)) (\<lambda>useTok.
      bindS (WrapPSK c useTok (IfKID tree) (KID (psPubKey p)) psk) (\<lambda>wrapped.
      bindS (liftE (mapErr (\<lambda>e. failf exitUsage ''peer %s: %w'' [DescrError e]) (Record sz p wrapped))) (\<lambda>rec.
      bindS (liftE (mapErr (\<lambda>e. failf exitUsage ''peer %s: %w'' [DescrError e]) (Peer_Encode sz rec))) (\<lambda>enc.
      bindS (PlacePeer fuel sz c tok p enc adopt) (\<lambda>(kid, adopted).
      bindS (adoptedRecord fuel sz c tok kid adopted enc rec) (\<lambda>(enc, rec).
      (let new = newPeer p kid enc rec in
       reseal sz c tok (tree\<lparr>Peers := (if atHead then new # Peers tree else Peers tree @ [new])\<rparr>)))))))))))"

definition peerRemoveFrom :: "size_tags \<Rightarrow> 'd Client \<Rightarrow> 'd TokenFunc \<Rightarrow> bytes \<Rightarrow> bool \<Rightarrow> Tree \<Rightarrow> ('d, error, Tree) io" where
  "peerRemoveFrom sz c tok want delKey tree =
     (case peerIndex want tree of
        None \<Rightarrow> failS (failf exitUsage ''no peer with that public key is in the configuration'' [])
      | Some idx \<Rightarrow>
          if length (Peers tree) = 1
          then failS (failf exitUsage ''%q is the only peer; a configuration with none would have nothing to connect to - use `wg-hem wipe` instead'' [])
          else
          (let gone = Peers tree ! idx in
           bindS (reseal sz c tok (tree\<lparr>Peers := take idx (Peers tree) @ drop (idx + 1) (Peers tree)\<rparr>)) (\<lambda>tree'.
           if delKey then
             bindS (tok ''keymgmt:del'') (\<lambda>delTok.
             bindS (mapErrS (\<lambda>e. classify e exitDevice ''deleting key %s'') (DeleteKey c delTok (cpKID gone))) (\<lambda>_.
               returnS tree'))
           else returnS tree')))"

text \<open>The pre-shared key of an update: kept, cleared or wrapped anew.\<close>

definition updatedPSK :: "'d Client \<Rightarrow> string \<Rightarrow> Tree \<Rightarrow> ConfigPeer \<Rightarrow> bool \<Rightarrow> bytes option \<Rightarrow> ('d, error, bytes option) io" where
  "updatedPSK c useTok tree old clearPSK psk =
     (if clearPSK then returnS None
      else case psk of
        Some _ \<Rightarrow> WrapPSK c useTok (IfKID tree) (cpKID old) psk
      | None \<Rightarrow> returnS (Some (PSKWrapped (cpPeer old))))"

definition peerUpdateIn :: "size_tags \<Rightarrow> 'd Client \<Rightarrow> 'd TokenFunc \<Rightarrow> PeerSpec \<Rightarrow> bool \<Rightarrow> bytes option \<Rightarrow> Tree \<Rightarrow>
    ('d, error, Tree) io" where
  "peerUpdateIn sz c tok p clearPSK psk tree =
     (case peerIndex (psPubKey p) tree of
        None \<Rightarrow> failS (failf exitUsage ''no peer with that public key is in the configuration; use `wg-hem peer add`'' [])
      | Some idx \<Rightarrow>
          (let old = Peers tree ! idx in
           bindS (tok (''keymgmt:use:'' @ IfKID tree)) (\<lambda>useTok.
           bindS (updatedPSK c useTok tree old clearPSK psk) (\<lambda>wrapped.
           bindS (liftE (mapErr (\<lambda>e. failf exitUsage ''peer %s: %w'' [DescrError e]) (Record sz p wrapped))) (\<lambda>rec.
           bindS (liftE (mapErr (\<lambda>e. failf exitUsage ''peer %s: %w'' [DescrError e]) (Peer_Encode sz rec))) (\<lambda>enc.
           bindS (tok ''keymgmt:upd'') (\<lambda>updTok.
           bindS (mapErrS (\<lambda>e. classify e exitDevice ''updating peer %s'')
                    (UpdateKey c updTok (cpKID old) (psLabel p) enc)) (\<lambda>_.
             reseal sz c tok (tree\<lparr>Peers := (Peers tree)[idx := old\<lparr>cpLabel := psLabel p, cpRaw := enc, cpPeer := rec\<rparr>]\<rparr>)))))))))"

subsection \<open>The commands\<close>

text \<open>What a command leaves: the new tree and the pre-shared key it prints.\<close>

definition shownPSK :: "string \<Rightarrow> bytes option \<Rightarrow> string option" where
  "shownPSK mode psk = (if mode = ''generate'' then map_option b64Encode psk else None)"

definition peerAdd :: "nat \<Rightarrow> size_tags \<Rightarrow> 'd Client \<Rightarrow> 'd Device \<Rightarrow> ('d \<times> Auth) ChooseFunc \<Rightarrow> string \<Rightarrow> string \<Rightarrow> bytes option \<Rightarrow>
    string option \<Rightarrow> bool \<Rightarrow> bool \<Rightarrow> ('d, error, Tree \<times> string option) io" where
  "peerAdd fuel sz c dev chooser spec mode random stdin atHead adopt =
     (if spec = [] then failS (failf exitUsage ''--peer is required'' [])
      else
      bindS (liftE (mapErr (\<lambda>e. failf exitUsage ''--peer: %w'' [Msg e]) (ParsePeerSpec sz spec))) (\<lambda>p.
      bindS (liftE (readPSK mode random stdin)) (\<lambda>psk.
        withTree fuel sz c dev chooser (\<lambda>tree.
          bindS (peerAddTo fuel sz (liftClient c) (Token c dev) p psk atHead adopt tree) (\<lambda>tree'.
            returnS (tree', shownPSK mode psk))))))"

definition peerRemove :: "nat \<Rightarrow> size_tags \<Rightarrow> 'd Client \<Rightarrow> 'd Device \<Rightarrow> ('d \<times> Auth) ChooseFunc \<Rightarrow> string \<Rightarrow> bool \<Rightarrow>
    ('d, error, Tree) io" where
  "peerRemove fuel sz c dev chooser pubkey delKey =
     bindS (liftE (decodePubKey pubkey)) (\<lambda>want.
       withTree fuel sz c dev chooser (peerRemoveFrom sz (liftClient c) (Token c dev) want delKey))"

definition peerUpdate :: "nat \<Rightarrow> size_tags \<Rightarrow> 'd Client \<Rightarrow> 'd Device \<Rightarrow> ('d \<times> Auth) ChooseFunc \<Rightarrow> string \<Rightarrow> string \<Rightarrow>
    bytes option \<Rightarrow> string option \<Rightarrow> ('d, error, Tree \<times> string option) io" where
  "peerUpdate fuel sz c dev chooser spec mode random stdin =
     (if spec = [] then failS (failf exitUsage ''--peer is required'' [])
      else
      bindS (liftE (mapErr (\<lambda>e. failf exitUsage ''--peer: %w'' [Msg e]) (ParsePeerSpec sz spec))) (\<lambda>p.
      bindS (liftE (if mode \<noteq> [] \<and> mode \<noteq> ''clear'' then readPSK mode random stdin else Inr None)) (\<lambda>psk.
        withTree fuel sz c dev chooser (\<lambda>tree.
          bindS (peerUpdateIn sz (liftClient c) (Token c dev) p (mode = ''clear'') psk tree) (\<lambda>tree'.
            returnS (tree', shownPSK mode psk))))))"

text \<open>Whatever was wrapped for a peer that is then adopted does not reach its record.\<close>

lemma adopted_record_ignores_the_new_one:
  "adoptedRecord fuel sz c tok kid True enc rec = adoptedRecord fuel sz c tok kid True enc' rec'"
  by (simp add: adoptedRecord_def)

end
