(* ===== verification/Store.thy ===== *)
theory Store
  imports PeerCmd
begin

text \<open>
  The device as a key store, the abstract view the rest of the system rests on: a list of keys,
  each with its label, its record and its public key.  The locale \<open>key_store\<close> states what the
  HEM's interface documents of its calls in these terms; writes may fail, and then change
  nothing.  Over it the loader is shown to decide whether the store holds a configuration: it
  returns a tree exactly when the store \<open>holds\<close> it.
\<close>

subsection \<open>The store\<close>

type_synonym store = "(KeyEntry \<times> bytes) list"

definition matching :: "bytes \<Rightarrow> store \<Rightarrow> KeyEntry list" where
  "matching pat k = filter (\<lambda>e. take (length pat) (keDescr e) = pat) (map fst k)"

definition rewrite :: "string \<Rightarrow> string \<Rightarrow> bytes \<Rightarrow> KeyEntry \<times> bytes \<Rightarrow> KeyEntry \<times> bytes" where
  "rewrite kid l b x = (if keKID (fst x) = kid then ((fst x)\<lparr>keLabel := l, keDescr := b\<rparr>, snd x) else x)"

definition kidOf :: "KeyEntry \<times> bytes \<Rightarrow> string" where
  "kidOf x = keKID (fst x)"

lemma rewrite_sel [simp]: "kidOf (rewrite kid l b x) = kidOf x" "snd (rewrite kid l b x) = snd x"
  by (simp_all add: rewrite_def kidOf_def)

lemma set_matching: "e \<in> set (matching pat k) \<longleftrightarrow> (\<exists>pk. (e, pk) \<in> set k) \<and> take (length pat) (keDescr e) = pat"
  by (force simp: matching_def)

lemma length_matching: "length (matching pat k) \<le> length k"
  unfolding matching_def by (metis length_filter_le length_map)

text \<open>The references a list of identifiers stands for.\<close>

definition refsOf :: "string list \<Rightarrow> PeerRef list" where
  "refsOf kids = List.map_filter (\<lambda>kid. case PeerRefFromKID kid of Inl _ \<Rightarrow> None | Inr ref \<Rightarrow> Some ref) kids"

lemma refsOf_simps [simp]:
  "refsOf [] = []"
  "refsOf (kid # kids) = (case PeerRefFromKID kid of Inl _ \<Rightarrow> refsOf kids | Inr ref \<Rightarrow> ref # refsOf kids)"
  by (auto simp: refsOf_def split: sum.splits)

lemma set_refsOf: "r \<in> set (refsOf kids) \<longleftrightarrow> (\<exists>kid \<in> set kids. PeerRefFromKID kid = Inr r)"
  by (induction kids) (auto split: sum.splits)

lemma refsOf_append [simp]: "refsOf (xs @ ys) = refsOf xs @ refsOf ys"
  by (induction xs) (auto split: sum.splits)

lemma indexPeers_ok:
  "isOk (indexPeers es m) \<longleftrightarrow> distinct (refsOf (map keKID es)) \<and> (\<forall>r \<in> set (refsOf (map keKID es)). m r = None)"
  by (induction es arbitrary: m) (auto split: sum.splits)

lemma indexPeers_lookup:
  "indexPeers es m = Inr m' \<Longrightarrow>
   (m' r = Some e \<longleftrightarrow> m r = Some e \<or> e \<in> set es \<and> PeerRefFromKID (keKID e) = Inr r)"
proof (induction es arbitrary: m)
  case (Cons x es)
  show ?case
  proof (cases "PeerRefFromKID (keKID x)")
    case (Inl v)
    with Cons show ?thesis by auto
  next
    case (Inr ref)
    with Cons.prems have none: "m ref = None" and rest: "indexPeers es (m(ref := Some x)) = Inr m'"
      by (auto split: if_splits)
    have "ref \<notin> set (refsOf (map keKID es))" using indexPeers_ok [of es "m(ref := Some x)"] rest by auto
    then have "e \<notin> set es" if "PeerRefFromKID (keKID e) = Inr ref" using that by (auto simp: set_refsOf)
    with Cons.IH [OF rest] Inr none show ?thesis by auto
  qed
qed simp

subsection \<open>What it means that a store holds a configuration\<close>

definition stored :: "size_tags \<Rightarrow> store \<Rightarrow> string \<Rightarrow> string \<Rightarrow> string \<Rightarrow> bytes \<Rightarrow> bytes \<Rightarrow> bool" where
  "stored sz k magic kid label raw pk \<longleftrightarrow>
     (\<exists>e. (e, pk) \<in> set k \<and> keKID e = kid \<and> keLabel e = label \<and>
        take (length (bytes_of magic)) (keDescr e) = bytes_of magic \<and> Normalize sz (keDescr e) = Inr raw)"

text \<open>No two peer records of the device share a reference.\<close>

definition refs_clear :: "store \<Rightarrow> bool" where
  "refs_clear k \<longleftrightarrow> distinct (refsOf (map keKID (matching (bytes_of MagicPeer) k)))"

definition holds :: "size_tags \<Rightarrow> (string \<Rightarrow> bytes \<Rightarrow> bytes) \<Rightarrow> store \<Rightarrow> Tree \<Rightarrow> bool" where
  "holds sz h k tree \<longleftrightarrow>
     stored sz k MagicInterface (IfKID tree) (IfLabel tree) (IfRaw tree) (IfPubKey tree) \<and>
     (\<forall>p \<in> set (Peers tree). stored sz k MagicPeer (cpKID p) (cpLabel p) (cpRaw p) (cpPubKey p)) \<and>
     refs_clear k \<and> tree_ok sz tree \<and> HasMAC (Iface tree) \<and>
     (\<exists>msg. Canonical sz (IfPubKey tree) (IfRaw tree) (map recordOf (Peers tree)) = Inr msg \<and>
        MAC (Iface tree) = h (IfKID tree) msg)"

locale key_store =
  fixes c :: "'d Client" and tok :: "'d TokenFunc" and K :: "'d \<Rightarrow> store" and h :: "string \<Rightarrow> bytes \<Rightarrow> bytes"
  assumes distinct_kids: "distinct (map kidOf (K d))"
    and grants: "\<exists>t d'. tok scope d = (Inr t, d') \<and> K d' = K d"
    and searches: "\<exists>d'. SearchKeys c t pat off n d =
      (Inr (int (length (matching pat (K d))), take n (drop off (matching pat (K d)))), d') \<and> K d' = K d"
    and gets: "(e, pk) \<in> set (K d) \<Longrightarrow> \<exists>ty. fst (GetPubKey c t (keKID e) d) = Inr \<lparr>keyPubKey = pk, keyTypeOf = ty\<rparr>"
    and gets_keep: "K (snd (GetPubKey c t kid d)) = K d"
    and updates: "K (snd (UpdateKey c t kid l b d)) =
      (if isOk (fst (UpdateKey c t kid l b d)) then map (rewrite kid l b) (K d) else K d)"
    and imports_ok: "ImportKey c t l ty pk b d = (Inr kid, d') \<Longrightarrow>
      kid \<notin> kidOf ` set (K d) \<and> (\<exists>created. K d' = K d @ [(\<lparr>keKID = kid, keLabel = l, keDescr = b, keCreated = created\<rparr>, pk)])"
    and imports_fail: "ImportKey c t l ty pk b d = (Inl err, d') \<Longrightarrow> K d' = K d"
    and deletes: "K (snd (DeleteKey c t kid d)) =
      (if isOk (fst (DeleteKey c t kid d)) then filter (\<lambda>x. kidOf x \<noteq> kid) (K d) else K d)"
    and macs: "honest_hmac c t kid (h kid)"
    and macs_keep: "K (snd (HmacVerify c t kid msg tag opts d)) = K d"
    and wraps_keep: "K (snd (CipherWrap c t kid b opts d)) = K d"
begin

lemma kid_unique: "x \<in> set (K d) \<Longrightarrow> y \<in> set (K d) \<Longrightarrow> kidOf x = kidOf y \<Longrightarrow> x = y"
  using distinct_kids [of d] by (auto simp: distinct_map inj_on_def)

text \<open>Computations that only read, on both ways out.\<close>

lemma keeps_tok [keeps_intros]: "keeps (\<lambda>d. K d = k) (tok scope)"
  unfolding keeps_def using grants by (metis snd_conv)

lemma keeps_Search [keeps_intros]: "keeps (\<lambda>d. K d = k) (SearchKeys c t pat off n)"
  unfolding keeps_def using searches by (metis snd_conv)

lemma keeps_reads [keeps_intros]:
  "keeps (\<lambda>d. K d = k) (GetPubKey c t kid)" "keeps (\<lambda>d. K d = k) (HmacVerify c t kid msg tag opts)"
  "keeps (\<lambda>d. K d = k) (CipherWrap c t kid b opts)"
  by (simp_all add: keeps_def gets_keep macs_keep wraps_keep)

lemma keeps_Verify [keeps_intros]: "keeps (\<lambda>d. K d = k) (Verify sz c t kid pk b ps)"
  unfolding Verify_def by (intro keeps_intros)

lemma keeps_Sign [keeps_intros]: "keeps (\<lambda>d. K d = k) (Sign sz c t kid pk b ps)"
proof -
  have "keeps (\<lambda>d. K d = k) (HmacHash c t kid msg (macOpts kid))" for msg
    using macs [of t kid] by (simp add: keeps_def honest_hmac_def)
  then show ?thesis unfolding Sign_def by (intro keeps_intros)
qed

lemma keeps_WrapPSK [keeps_intros]: "keeps (\<lambda>d. K d = k) (WrapPSK c t kid pkid psk)"
  unfolding WrapPSK_def by (intro keeps_intros)

text \<open>The search returns everything that matches, and never needs a token.\<close>

lemma searchLoop_all:
  "off \<le> length (matching (bytes_of magic) (K d)) \<Longrightarrow> (length (matching (bytes_of magic) (K d)) - off) div 50 < fuel \<Longrightarrow>
   \<exists>d'. searchLoop fuel c tok' magic t (take off (matching (bytes_of magic) (K d))) off d = (Inr (matching (bytes_of magic) (K d)), d') \<and>
     K d' = K d"
proof (induction fuel arbitrary: off d)
  case (Suc fuel)
  let ?M = "matching (bytes_of magic) (K d)"
  obtain d1 where s: "SearchKeys c t (bytes_of magic) off searchPage d = (Inr (int (length ?M), take searchPage (drop off ?M)), d1)"
    and k: "K d1 = K d" using searches by blast
  let ?page = "take searchPage (drop off ?M)" and ?off = "off + length (take searchPage (drop off ?M))"
  have all: "take off ?M @ ?page = take ?off ?M" using Suc.prems(1) by (simp add: take_add searchPage_def min_def)
  show ?case
  proof (cases "?page = [] \<or> int ?off \<ge> int (length ?M)")
    case True
    then have "length ?M \<le> ?off" using Suc.prems(1) by (auto simp: searchPage_def)
    with True all s k Suc.prems(1) show ?thesis by (auto simp: Let_def of_nat_diff)
  next
    case False
    then have o: "?off = off + 50" "?off < length ?M" by (auto simp: searchPage_def min_def)
    then have "(length ?M - ?off) div 50 < fuel" using Suc.prems(2) by (auto simp: o)
    with Suc.IH [of ?off d1] o k obtain d' where
      "searchLoop fuel c tok' magic t (take ?off ?M) ?off d1 = (Inr ?M, d')" "K d' = K d" by auto
    with False s all show ?thesis by (simp add: Let_def)
  qed
qed simp

lemma search_all:
  "length (K d) < 50 * fuel \<Longrightarrow>
   \<exists>d'. search fuel c tok' magic d = (Inr (matching (bytes_of magic) (K d)), d') \<and> K d' = K d"
  using searchLoop_all [of 0 magic d fuel tok' "[]"] length_matching [of "bytes_of magic" "K d"]
  by (simp add: search_def div_less_iff_less_mult)

lemma resolve_stored:
  assumes "(e, pk) \<in> set (K d)" and "KID pk = keKID e" and "length pk = PubKeyLen"
  shows "\<exists>g' d'. resolve c tok (fromDevice g) (keKID e) d = (Inr (pk, fromDevice g'), d') \<and> K d' = K d"
proof -
  obtain g' d1 where t: "(if g = [] then tok ''keymgmt:get'' else returnS g) d = (Inr g', d1)" and k: "K d1 = K d"
    using grants [of "''keymgmt:get''" d] by (cases "g = []") auto
  obtain ty where "fst (GetPubKey c g' (keKID e) d1) = Inr \<lparr>keyPubKey = pk, keyTypeOf = ty\<rparr>"
    using gets [of e pk d1] assms(1) k by auto
  then obtain d2 where g: "GetPubKey c g' (keKID e) d1 = (Inr \<lparr>keyPubKey = pk, keyTypeOf = ty\<rparr>, d2)"
    by (metis prod.collapse)
  have "K d2 = K d" using gets_keep [of g' "keKID e" d1] g k by simp
  with t g assms(2,3) show ?thesis by (simp add: resolve_def bindS_apply split: if_splits)
qed

lemma loadPeers_stored:
  assumes "\<And>r e. byRef r = Some e \<longleftrightarrow> e \<in> set (matching (bytes_of MagicPeer) k) \<and> PeerRefFromKID (keKID e) = Inr r"
    and "\<forall>p \<in> set ps. stored sz k MagicPeer (cpKID p) (cpLabel p) (cpRaw p) (cpPubKey p) \<and> peer_ok sz p"
  shows "K d = k \<Longrightarrow> \<exists>seen' d'. loadPeers sz c tok byRef (map (\<lambda>p. MakePeerRef (cpPubKey p)) ps) (fromDevice g) seen d
     = (Inr (ps, seen'), d') \<and> K d' = k"
  using assms(2)
proof (induction ps arbitrary: g seen d)
  case (Cons p ps)
  from Cons.prems obtain e where e: "(e, cpPubKey p) \<in> set k" "keKID e = cpKID p" "keLabel e = cpLabel p"
    "take (length (bytes_of MagicPeer)) (keDescr e) = bytes_of MagicPeer" "Normalize sz (keDescr e) = Inr (cpRaw p)"
    and ok: "peer_ok sz p" by (auto simp: stored_def)
  from ok have kid: "KID (cpPubKey p) = cpKID p" and len: "length (cpPubKey p) = PubKeyLen"
    and dec: "DecodePeer sz (cpRaw p) = Inr (cpPeer p)" by (auto simp: peer_ok_def)
  have "byRef (MakePeerRef (cpPubKey p)) = Some e"
    using assms(1) e kid PeerRefFromKID_KID [of "cpPubKey p"] by (auto simp: set_matching)
  moreover obtain g' d1 where r: "resolve c tok (fromDevice g) (keKID e) d = (Inr (cpPubKey p, fromDevice g'), d1)" "K d1 = k"
    using resolve_stored [of e "cpPubKey p" d g] e kid len Cons.prems(1) by auto
  moreover from Cons.IH [OF r(2), of g' "sizes_add (length (keDescr e)) seen"] Cons.prems(2) obtain seen' d' where
    "loadPeers sz c tok byRef (map (\<lambda>p. MakePeerRef (cpPubKey p)) ps) (fromDevice g') (sizes_add (length (keDescr e)) seen) d1
      = (Inr (ps, seen'), d')" "K d' = k" by auto
  moreover have "\<lparr>cpKID = cpKID p, cpLabel = cpLabel p, cpPubKey = cpPubKey p, cpRaw = cpRaw p, cpPeer = cpPeer p\<rparr> = p" by simp
  ultimately show ?case using e dec by (simp add: bindS_apply Let_def mapErrS_def)
qed simp

lemma Verify_holds:
  assumes "DecodeInterface sz b = Inr i" "HasMAC i" "Canonical sz pk b ps = Inr msg" "MAC i = h kid msg"
  shows "\<exists>d'. Verify sz c t kid pk b ps d = (Inr (), d') \<and> K d' = K d"
proof -
  have "fst (Verify sz c t kid pk b ps d) = Inr ()" using Verify_Inr [OF macs [of t kid]] assms by blast
  then obtain d' where v: "Verify sz c t kid pk b ps d = (Inr (), d')" by (metis prod.collapse)
  with keepsD [OF keeps_Verify refl v] show ?thesis by simp
qed

subsection \<open>The loader decides it\<close>

lemma find_kid:
  assumes "(e, pk) \<in> set (K d)" and "take (length pat) (keDescr e) = pat"
  shows "find (\<lambda>e'. keKID e' = keKID e) (matching pat (K d)) = Some e"
proof -
  have "e \<in> set (matching pat (K d))" using assms by (auto simp: set_matching)
  then have "find (\<lambda>e'. keKID e' = keKID e) (matching pat (K d)) \<noteq> None" by (auto simp: find_None_iff)
  then obtain e' where e': "find (\<lambda>e'. keKID e' = keKID e) (matching pat (K d)) = Some e'" by blast
  from find_SomeD [OF this] obtain pk' where "(e', pk') \<in> set (K d)" "keKID e' = keKID e" by (auto simp: set_matching)
  with kid_unique [of "(e', pk')" d "(e, pk)"] assms(1) e' show ?thesis by (simp add: kidOf_def)
qed

lemma load_complete:
  assumes "holds sz h (K d) tree" and "length (K d) < 50 * fuel"
  shows "\<exists>d'. LoadIdentity fuel sz c tok (IfKID tree) d = (Inr tree, d') \<and> K d' = K d"
proof -
  from assms(1) obtain e msg where e: "(e, IfPubKey tree) \<in> set (K d)" "keKID e = IfKID tree" "keLabel e = IfLabel tree"
    "take (length (bytes_of MagicInterface)) (keDescr e) = bytes_of MagicInterface" "Normalize sz (keDescr e) = Inr (IfRaw tree)"
    and ps: "\<forall>p \<in> set (Peers tree). stored sz (K d) MagicPeer (cpKID p) (cpLabel p) (cpRaw p) (cpPubKey p) \<and> peer_ok sz p"
    and clear: "refs_clear (K d)" and ok: "tree_ok sz tree" and mac: "HasMAC (Iface tree)"
    "Canonical sz (IfPubKey tree) (IfRaw tree) (map recordOf (Peers tree)) = Inr msg" "MAC (Iface tree) = h (IfKID tree) msg"
    by (auto simp: holds_def stored_def tree_ok_def)
  from ok have t: "KID (IfPubKey tree) = IfKID tree" "length (IfPubKey tree) = PubKeyLen"
    "DecodeInterface sz (IfRaw tree) = Inr (Iface tree)" "Peers tree \<noteq> []"
    "PeerRefs (Iface tree) = map (\<lambda>p. MakePeerRef (cpPubKey p)) (Peers tree)" by (auto simp: tree_ok_def)
  obtain d1 where s1: "search fuel c tok MagicInterface d = (Inr (matching (bytes_of MagicInterface) (K d)), d1)" "K d1 = K d"
    using search_all [OF assms(2)] by blast
  have f: "find (\<lambda>e'. keKID e' = IfKID tree) (matching (bytes_of MagicInterface) (K d)) = Some e"
    using find_kid [OF e(1,4)] e(2) by simp
  obtain g d2 where r: "resolve c tok (fromDevice []) (keKID e) d1 = (Inr (IfPubKey tree, fromDevice g), d2)" "K d2 = K d"
    using resolve_stored [of e "IfPubKey tree" d1 "[]"] e(1,2) t(1,2) s1(2) by auto
  obtain d3 where s2: "search fuel c tok MagicPeer d2 = (Inr (matching (bytes_of MagicPeer) (K d)), d3)" "K d3 = K d"
    using search_all [of d2 fuel tok MagicPeer] assms(2) r(2) by auto
  obtain byRef where b: "indexPeers (matching (bytes_of MagicPeer) (K d)) (\<lambda>_. None) = Inr byRef"
    using clear indexPeers_ok [of "matching (bytes_of MagicPeer) (K d)" "\<lambda>_. None"] by (auto simp: refs_clear_def isOk_iff)
  have lk: "byRef r = Some e' \<longleftrightarrow> e' \<in> set (matching (bytes_of MagicPeer) (K d)) \<and> PeerRefFromKID (keKID e') = Inr r" for r e'
    using indexPeers_lookup [OF b, of r e'] by simp
  obtain seen d4 where lp: "loadPeers sz c tok byRef (PeerRefs (Iface tree)) (fromDevice g) (newSizes (length (keDescr e))) d3
      = (Inr (Peers tree, seen), d4)" "K d4 = K d"
    using loadPeers_stored [OF lk ps s2(2)] t(5) by metis
  obtain u d5 where u: "tok (''keymgmt:use:'' @ keKID e) d4 = (Inr u, d5)" "K d5 = K d" using grants lp(2) by metis
  obtain d6 where v: "Verify sz c u (keKID e) (IfPubKey tree) (IfRaw tree) (map recordOf (Peers tree)) d5 = (Inr (), d6)" "K d6 = K d"
    using Verify_holds [OF t(3) mac(1,2), of "keKID e" u d5] mac(3) e(2) u(2) by auto
  have refs: "PeerRefs (Iface tree) \<noteq> []" using t(4,5) by simp
  have "\<lparr>IfKID = IfKID tree, IfLabel = IfLabel tree, IfPubKey = IfPubKey tree, IfRaw = IfRaw tree, Iface = Iface tree,
      Peers = Peers tree\<rparr> = tree" by simp
  then have "loadFrom fuel sz c tok e (fromDevice []) d1 = (Inr tree, d6)"
    using e t(3) refs r s2 b lp u v by (simp add: loadFrom_def Let_def bindS_apply mapErrS_def)
  with s1 f v(2) show ?thesis by (auto simp: LoadIdentity_def loadNamed_def bindS_apply)
qed

text \<open>With one identity in the device nobody has to choose.\<close>

lemma load_only:
  assumes "holds sz h (K d) tree" and "length (K d) < 50 * fuel" and "length (matching (bytes_of MagicInterface) (K d)) = 1"
  shows "\<exists>d'. Load fuel sz c tok chooser d = (Inr tree, d') \<and> K d' = K d"
proof -
  obtain e where e: "matching (bytes_of MagicInterface) (K d) = [e]" using assms(3) by (auto simp: length_Suc_conv)
  obtain d1 where s: "search fuel c tok MagicInterface d = (Inr [e], d1)" using search_all [OF assms(2)] e by metis
  from assms(1) obtain x where "x \<in> set (matching (bytes_of MagicInterface) (K d))" "keKID x = IfKID tree"
    by (auto simp: holds_def stored_def set_matching)
  with e have "keKID e = IfKID tree" by simp
  with load_complete [OF assms(1,2)] s show ?thesis
    by (auto simp: LoadIdentity_def loadNamed_def Load_def pick_def bindS_apply)
qed

text \<open>And the other way round.\<close>

lemma keeps_ring [keeps_intros]: "keeps (\<lambda>d. K d = k) (ring c tok r kid)"
  by (cases r) (auto intro!: keeps_intros)

lemma keeps_resolve [keeps_intros]: "keeps (\<lambda>d. K d = k) (resolve c tok r kid)"
  unfolding resolve_def by (intro keeps_intros)

lemma searchLoop_sound:
  "off \<le> length (matching (bytes_of magic) (K d)) \<Longrightarrow>
   searchLoop fuel c tok magic t (take off (matching (bytes_of magic) (K d))) off d = (Inr L, d') \<Longrightarrow>
   L = matching (bytes_of magic) (K d) \<and> K d' = K d"
proof (induction fuel arbitrary: off d)
  case (Suc fuel)
  let ?M = "matching (bytes_of magic) (K d)"
  obtain d1 where s: "SearchKeys c t (bytes_of magic) off searchPage d = (Inr (int (length ?M), take searchPage (drop off ?M)), d1)"
    and k: "K d1 = K d" using searches by blast
  let ?page = "take searchPage (drop off ?M)" and ?off = "off + length (take searchPage (drop off ?M))"
  have all: "take off ?M @ ?page = take ?off ?M" using Suc.prems(1) by (simp add: take_add searchPage_def min_def)
  show ?case
  proof (cases "?page = [] \<or> int ?off \<ge> int (length ?M)")
    case True
    then have "length ?M \<le> ?off" using Suc.prems(1) by (auto simp: searchPage_def)
    with True all s k Suc.prems show ?thesis by (auto simp: Let_def of_nat_diff split: if_splits)
  next
    case False
    with Suc.prems(2) s all have "searchLoop fuel c tok magic t (take ?off ?M) ?off d1 = (Inr L, d')" by (simp add: Let_def)
    with Suc.IH [of ?off d1] False k show ?thesis by auto
  qed
qed simp

lemma search_sound: "search fuel c tok magic d = (Inr L, d') \<Longrightarrow> L = matching (bytes_of magic) (K d) \<and> K d' = K d"
  using searchLoop_sound [of 0 magic d fuel "[]" L d'] by (simp add: search_def)

lemma resolve_sound:
  assumes "(e, pk) \<in> set (K d)" and "resolve c tok (fromDevice g) (keKID e) d = (Inr (pub, r'), d')"
  shows "pub = pk \<and> (\<exists>g'. r' = fromDevice g') \<and> K d' = K d"
proof -
  from assms(2) obtain g' d1 key d2 where t: "(if g = [] then tok ''keymgmt:get'' else returnS g) d = (Inr g', d1)"
    and gk: "GetPubKey c g' (keKID e) d1 = (Inr key, d2)" and pub: "pub = keyPubKey key" "r' = fromDevice g'"
    by (auto simp: resolve_def result_inv split: if_splits)
  have k1: "K d1 = K d" using t grants [of "''keymgmt:get''" d] by (auto split: if_splits)
  with gets [of e pk d1 g'] assms(1) gk have "keyPubKey key = pk" by auto
  moreover have "K d' = K d" by (rule keepsD [OF keeps_resolve refl assms(2)])
  ultimately show ?thesis using pub by simp
qed

lemma loadPeers_sound:
  assumes "\<And>r e. byRef r = Some e \<Longrightarrow> e \<in> set (matching (bytes_of MagicPeer) k)"
  shows "loadPeers sz c tok byRef refs (fromDevice g) seen d = (Inr (ps, seen'), d') \<Longrightarrow> K d = k \<Longrightarrow>
    (\<forall>p \<in> set ps. stored sz k MagicPeer (cpKID p) (cpLabel p) (cpRaw p) (cpPubKey p)) \<and> K d' = k"
proof (induction refs arbitrary: g seen d ps)
  case (Cons ref refs)
  from Cons.prems(1) obtain e pub r' d1 raw p ps' where
    e: "byRef ref = Some e" and r: "resolve c tok (fromDevice g) (keKID e) d = (Inr (pub, r'), d1)"
    and raw: "Normalize sz (keDescr e) = Inr raw"
    and rest: "loadPeers sz c tok byRef refs r' (sizes_add (length (keDescr e)) seen) d1 = (Inr (ps', seen'), d')"
    and ps: "ps = \<lparr>cpKID = keKID e, cpLabel = keLabel e, cpPubKey = pub, cpRaw = raw, cpPeer = p\<rparr> # ps'"
    by (auto simp: result_inv Let_def split: option.splits)
  from assms [OF e] obtain pk where pk: "(e, pk) \<in> set k"
    and m: "take (length (bytes_of MagicPeer)) (keDescr e) = bytes_of MagicPeer" by (auto simp: set_matching)
  from resolve_sound [OF _ r] pk Cons.prems(2) obtain g' where g': "pub = pk" "r' = fromDevice g'" "K d1 = k" by auto
  with Cons.IH [of g' _ d1 ps'] rest have "\<forall>p \<in> set ps'. stored sz k MagicPeer (cpKID p) (cpLabel p) (cpRaw p) (cpPubKey p)"
    "K d' = k" by auto
  with pk m raw g' show ?case by (auto simp: ps stored_def)
qed simp

lemma load_sound:
  assumes "LoadIdentity fuel sz c tok kid d = (Inr tree, d')"
  shows "holds sz h (K d) tree \<and> IfKID tree = kid \<and> K d' = K d"
proof -
  from assms obtain L d1 e where s1: "search fuel c tok MagicInterface d = (Inr L, d1)"
    and f: "find (\<lambda>e. keKID e = kid) L = Some e" and l: "loadFrom fuel sz c tok e (fromDevice []) d1 = (Inr tree, d')"
    by (auto simp: LoadIdentity_def loadNamed_def result_inv split: option.splits)
  from search_sound [OF s1] have L: "L = matching (bytes_of MagicInterface) (K d)" and k1: "K d1 = K d" by auto
  from find_SomeD [OF f] L obtain pk where e: "(e, pk) \<in> set (K d)" "keKID e = kid"
    "take (length (bytes_of MagicInterface)) (keDescr e) = bytes_of MagicInterface" by (auto simp: set_matching)
  from l obtain raw iface pub r' d2 es d3 byRef ps seen d4 u d5 where
    raw: "Normalize sz (keDescr e) = Inr raw" and r: "resolve c tok (fromDevice []) (keKID e) d1 = (Inr (pub, r'), d2)"
    and s2: "search fuel c tok MagicPeer d2 = (Inr es, d3)" and b: "indexPeers es (\<lambda>_. None) = Inr byRef"
    and lp: "loadPeers sz c tok byRef (PeerRefs iface) r' (newSizes (length (keDescr e))) d3 = (Inr (ps, seen), d4)"
    and u: "tok (''keymgmt:use:'' @ keKID e) d4 = (Inr u, d5)"
    and v: "Verify sz c u (keKID e) pub raw (map recordOf ps) d5 = (Inr (), d')"
    and t: "tree = \<lparr>IfKID = keKID e, IfLabel = keLabel e, IfPubKey = pub, IfRaw = raw, Iface = iface, Peers = ps\<rparr>"
    by (auto simp: loadFrom_def result_inv Let_def split: if_splits)
  from resolve_sound [OF _ r] e(1) k1 obtain g where g: "pub = pk" "r' = fromDevice g" "K d2 = K d" by auto
  from search_sound [OF s2] g(3) have es: "es = matching (bytes_of MagicPeer) (K d)" and k3: "K d3 = K d" by auto
  have "e' \<in> set (matching (bytes_of MagicPeer) (K d))" if "byRef r = Some e'" for r e'
    using indexPeers_lookup [OF b, of r e'] that es by simp
  from loadPeers_sound [OF this, of byRef] lp g(2) k3
  have ps: "\<forall>p \<in> set ps. stored sz (K d) MagicPeer (cpKID p) (cpLabel p) (cpRaw p) (cpPubKey p)" and k4: "K d4 = K d" by auto
  have k5: "K d5 = K d" using keepsD [OF keeps_tok refl u] k4 by simp
  have clear: "refs_clear (K d)" using indexPeers_ok [of es "\<lambda>_. None"] b es by (simp add: refs_clear_def)
  have st: "stored sz (K d) MagicInterface (IfKID tree) (IfLabel tree) (IfRaw tree) (IfPubKey tree)"
    using e raw g by (auto simp: t stored_def)
  have k': "K d' = K d" using keepsD [OF keeps_Verify refl v] k5 by simp
  from loadFrom_authentic [OF macs l] st ps clear k' show ?thesis
    using e(2) by (auto simp: holds_def t)
qed

text \<open>Every read of the loader, summed up.\<close>

lemma load_iff:
  "length (K d) < 50 * fuel \<Longrightarrow>
   (\<exists>d'. LoadIdentity fuel sz c tok kid d = (Inr tree, d')) \<longleftrightarrow> holds sz h (K d) tree \<and> IfKID tree = kid"
  using load_sound load_complete by blast

end

end
