(* ===== verification/PeerEdits.thy ===== *)
theory PeerEdits
  imports Store
begin

text \<open>
  The commands of \<open>cmd/wg-hem/peer.go\<close> over a key store: each edit that succeeds takes a store
  that holds a configuration to a store that holds the edited one, so the next load returns
  it.  The loaded form of a record is its canonical one (\<open>canonTree\<close>).
\<close>

subsection \<open>What a write does to a store\<close>

lemma stored_rewrite_other:
  "stored sz k magic kid label raw pk \<Longrightarrow> kid \<noteq> kid' \<Longrightarrow> stored sz (map (rewrite kid' l b) k) magic kid label raw pk"
  by (force simp: stored_def rewrite_def)

lemma stored_rewrite_self:
  assumes "stored sz k magic' kid label' raw' pk" and "take (length (bytes_of magic)) b = bytes_of magic" and "Normalize sz b = Inr raw"
  shows "stored sz (map (rewrite kid l b) k) magic kid l raw pk"
proof -
  from assms(1) obtain e where e: "(e, pk) \<in> set k" "keKID e = kid" by (auto simp: stored_def)
  then have "(e\<lparr>keLabel := l, keDescr := b\<rparr>, pk) \<in> set (map (rewrite kid l b) k)"
    by (force simp: rewrite_def)
  with e assms(2,3) show ?thesis unfolding stored_def
    by (intro exI [of _ "e\<lparr>keLabel := l, keDescr := b\<rparr>"]) simp
qed

lemma kids_rewrite:
  "(\<And>x. x \<in> set k \<Longrightarrow> kidOf x = kid \<Longrightarrow> take (length pat) (keDescr (fst x)) = pat \<longleftrightarrow> take (length pat) b = pat) \<Longrightarrow>
   map keKID (matching pat (map (rewrite kid l b) k)) = map keKID (matching pat k)"
  by (induction k) (auto simp: matching_def rewrite_def kidOf_def)

lemma refs_filter_subset:
  "set (refsOf (map keKID (matching pat (filter P k)))) \<subseteq> set (refsOf (map keKID (matching pat k)))"
  by (fastforce simp: set_refsOf set_matching)

lemma refs_clear_filter: "refs_clear k \<Longrightarrow> refs_clear (filter P k)"
  unfolding refs_clear_def
proof (induction k)
  case (Cons x k)
  have "matching pat (x # k) = (if take (length pat) (keDescr (fst x)) = pat then fst x # matching pat k else matching pat k)" for pat k
    by (simp add: matching_def)
  with Cons refs_filter_subset [of "bytes_of MagicPeer" P k] show ?case
    by (auto split: sum.splits if_splits)
qed simp

lemma reseal_Peers: "reseal sz c tok t d = (Inr t', d') \<Longrightarrow> Peers t' = Peers t"
  by (auto simp: reseal_def Let_def result_inv)

text \<open>Encoded records are recognised by their magic and stored as they are.\<close>

lemma Interface_Encode_magic:
  "wf_Interface i \<Longrightarrow> Interface_Encode sz i = Inr b \<Longrightarrow>
   length b = Size sz \<and> take (length (bytes_of MagicInterface)) b = bytes_of MagicInterface"
  using Size_ge [of sz] by (auto simp: Interface_Encode_Inr ifBytes_def header_def pad_def MagicInterface_def min_def take_Cons')

lemma Peer_Encode_magic:
  "Peer_Encode sz p = Inr b \<Longrightarrow> length b = Size sz \<and> take (length (bytes_of MagicPeer)) b = bytes_of MagicPeer"
  using Size_ge [of sz] by (auto simp: Peer_Encode_Inr peerBytes_def header_def pad_def MagicPeer_def min_def take_Cons')

lemma magics_differ: "take (length (bytes_of MagicPeer)) b = bytes_of MagicPeer \<Longrightarrow>
    take (length (bytes_of MagicInterface)) b \<noteq> bytes_of MagicInterface"
  by (simp add: MagicPeer_def MagicInterface_def)

subsection \<open>The canonical tree\<close>

definition canonTree :: "Tree \<Rightarrow> Tree" where
  "canonTree t = t\<lparr>Iface := canonInterface (Iface t),
     Peers := map (\<lambda>p. p\<lparr>cpPeer := canonPeer (cpPeer p)\<rparr>) (Peers t)\<rparr>"

lemma canonTree_sel [simp]:
  "IfKID (canonTree t) = IfKID t" "IfLabel (canonTree t) = IfLabel t" "IfPubKey (canonTree t) = IfPubKey t"
  "IfRaw (canonTree t) = IfRaw t" "map recordOf (Peers (canonTree t)) = map recordOf (Peers t)"
  by (simp_all add: canonTree_def recordOf_def)

text \<open>A peer of a tree that is about to be sealed: in the store, and its record is what it says.\<close>

definition sealable :: "size_tags \<Rightarrow> store \<Rightarrow> ConfigPeer \<Rightarrow> bool" where
  "sealable sz k p \<longleftrightarrow> stored sz k MagicPeer (cpKID p) (cpLabel p) (cpRaw p) (cpPubKey p) \<and>
     peer_ok sz (p\<lparr>cpPeer := canonPeer (cpPeer p)\<rparr>)"

lemma holds_sealable: "holds sz h k t \<Longrightarrow> p \<in> set (Peers t) \<Longrightarrow> sealable sz k p"
proof -
  assume "holds sz h k t" "p \<in> set (Peers t)"
  then have s: "stored sz k MagicPeer (cpKID p) (cpLabel p) (cpRaw p) (cpPubKey p)" and ok: "peer_ok sz p"
    by (auto simp: holds_def tree_ok_def)
  from ok have "canonPeer (cpPeer p) = cpPeer p" using pc.dec_canonical [of sz "cpRaw p" "cpPeer p"] by (simp add: peer_ok_def)
  with s ok show ?thesis by (simp add: sealable_def)
qed

subsection \<open>Lists with distinct keys\<close>

lemma remove_nth:
  "distinct (map f xs) \<Longrightarrow> i < length xs \<Longrightarrow> take i xs @ drop (Suc i) xs = filter (\<lambda>x. f x \<noteq> f (xs ! i)) xs"
proof -
  assume d: "distinct (map f xs)" and i: "i < length xs"
  let ?P = "\<lambda>x. f x \<noteq> f (xs ! i)"
  have xs: "xs = take i xs @ xs ! i # drop (Suc i) xs" using i by (simp add: id_take_nth_drop)
  have "distinct (map f (take i xs @ xs ! i # drop (Suc i) xs))" using d xs by metis
  then have "f (xs ! i) \<notin> f ` set (take i xs)" "f (xs ! i) \<notin> f ` set (drop (Suc i) xs)" by auto
  then have "\<forall>x \<in> set (take i xs). ?P x" "\<forall>x \<in> set (drop (Suc i) xs). ?P x" by (metis image_eqI)+
  then have "filter ?P (take i xs) = take i xs" "filter ?P (drop (Suc i) xs) = drop (Suc i) xs"
    by (simp_all only: filter_True)
  then have "filter ?P (take i xs @ xs ! i # drop (Suc i) xs) = take i xs @ drop (Suc i) xs" by simp
  with xs show ?thesis by metis
qed

lemma peerIndex_Some: "peerIndex key t = Some i \<Longrightarrow> i < length (Peers t) \<and> cpPubKey (Peers t ! i) = key"
  by (auto simp: peerIndex_def dest: find_SomeD)

lemma peerIndex_None: "peerIndex key t = None \<longleftrightarrow> key \<notin> cpPubKey ` set (Peers t)"
  by (force simp: peerIndex_def find_None_iff in_set_conv_nth)

lemma holds_distinct: "holds sz h k t \<Longrightarrow> distinct (map cpPubKey (Peers t))"
proof -
  assume "holds sz h k t"
  then obtain i :: Interface where "isOk (matchRefs (PeerRefs i) (map recordOf (Peers t)))"
    by (auto simp: holds_def Canonical_Inr)
  then have "distinct (map (\<lambda>p. MakePeerRef (cpPubKey p)) (Peers t))"
    by (simp add: isOk_iff matchRefs_iff recordOf_def o_def)
  then show ?thesis by (auto simp: distinct_map inj_on_def)
qed

text \<open>What every edit keeps of the identity.\<close>

lemma holds_identity:
  "holds sz h k t \<Longrightarrow> stored sz k MagicInterface (IfKID t) (IfLabel t) (IfRaw t) (IfPubKey t) \<and> KID (IfPubKey t) = IfKID t \<and>
     length (IfPubKey t) = PubKeyLen \<and> refs_clear k \<and> wf_Interface (Iface t) \<and> Peers t \<noteq> []"
  using ifc.dec_canonical by (auto simp: holds_def tree_ok_def)

text \<open>What no edit changes: the identity and the interface's own settings.\<close>

definition settings :: "Tree \<Rightarrow> string \<times> string \<times> bytes \<times> Interface" where
  "settings t = (IfKID t, IfLabel t, IfPubKey t, (Iface t)\<lparr>PeerRefs := [], MAC := zeroMAC\<rparr>)"

lemma holds_canon: "holds sz h k t \<Longrightarrow> canonInterface (Iface t) = Iface t \<and> HasMAC (Iface t) \<and>
    (\<forall>p \<in> set (Peers t). p\<lparr>cpPeer := canonPeer (cpPeer p)\<rparr> = p)"
  using ifc.dec_canonical pc.dec_canonical by (auto simp: holds_def tree_ok_def peer_ok_def)

lemma canonInterface_fields:
  "canonInterface i = i \<longleftrightarrow> byFamily pfx4 (Addrs i) = Addrs i \<and> map WithoutZone (byFamily Is4 (DNS i)) = DNS i \<and>
     (if HasMAC i then MAC i else zeroMAC) = MAC i"
  by (cases i) (auto simp: canonInterface_def)

lemma settings_resealed:
  assumes "canonInterface (Iface t) = Iface t" and "HasMAC (Iface t)" and "Iface t' = Iface t"
  shows "settings (canonTree (t\<lparr>Peers := ps, Iface := (resealed t')\<lparr>MAC := tag\<rparr>, IfRaw := raw\<rparr>)) = settings t"
  using assms by (simp add: settings_def canonTree_def resealed_def canonInterface_fields) (simp add: canonInterface_def)

text \<open>Which wrapped key an update stores.\<close>

definition updatedTo :: "bool \<Rightarrow> bytes option \<Rightarrow> Peer \<Rightarrow> bytes option \<Rightarrow> bool" where
  "updatedTo clr psk old w \<longleftrightarrow>
     (if clr then w = None else case psk of None \<Rightarrow> w = Some (PSKWrapped old) | Some _ \<Rightarrow> w \<noteq> None)"

lemma updatedPSK_Inr: "updatedPSK c u t old clr psk d = (Inr w, d') \<Longrightarrow> updatedTo clr psk (cpPeer old) w"
  using WrapPSK_Inr [of c u "IfKID t" "cpKID old" psk d w d']
  by (auto simp: updatedPSK_def updatedTo_def split: if_splits option.splits)

context key_store
begin

lemma reseal_Inr:
  assumes "reseal sz c tok t d = (Inr t', d')"
  shows "\<exists>tag u u' d1 d2 d3. length tag = MACLen \<and> Interface_Encode sz ((resealed t)\<lparr>MAC := tag\<rparr>) = Inr (IfRaw t') \<and>
     t' = t\<lparr>Iface := (resealed t)\<lparr>MAC := tag\<rparr>, IfRaw := IfRaw t'\<rparr> \<and>
     UpdateKey c u (IfKID t) (IfLabel t) (IfRaw t') d1 = (Inr (), d2) \<and> K d1 = K d \<and>
     Verify sz c u' (IfKID t) (IfPubKey t) (IfRaw t') (map recordOf (Peers t)) d3 = (Inr (), d') \<and> K d3 = K d2"
proof -
  from assms obtain un u' d0 tag d4 signed u d1 d2 where
    u': "tok (''keymgmt:use:'' @ IfKID t) d = (Inr u', d0)"
    and sg: "Sign sz c u' (IfKID t) (IfPubKey t) un (map recordOf (Peers t)) d0 = (Inr tag, d4)"
    and sd: "Interface_Encode sz ((resealed t)\<lparr>MAC := tag\<rparr>) = Inr signed"
    and u: "tok ''keymgmt:upd'' d4 = (Inr u, d1)" and upd: "UpdateKey c u (IfKID t) (IfLabel t) signed d1 = (Inr (), d2)"
    and v: "Verify sz c u' (IfKID t) (IfPubKey t) signed (map recordOf (Peers t)) d2 = (Inr (), d')"
    and t': "t' = t\<lparr>Iface := (resealed t)\<lparr>MAC := tag\<rparr>, IfRaw := signed\<rparr>"
    by (auto simp: reseal_def Let_def result_inv)
  have "K d1 = K d" using keepsD [OF keeps_tok refl u'] keepsD [OF keeps_Sign refl sg] keepsD [OF keeps_tok refl u] by simp
  moreover have "length tag = MACLen" using sg by (auto simp: Sign_def result_inv split: if_splits)
  ultimately show ?thesis using sd upd v
    by (intro exI [of _ tag] exI [of _ u] exI [of _ u'] exI [of _ d1] exI [of _ d2] exI [of _ d2]) (simp add: t')
qed

lemma reseal_settings:
  assumes "reseal sz c tok (t\<lparr>Peers := ps\<rparr>) d = (Inr t', d')" and "holds sz h k t"
  shows "settings (canonTree t') = settings t"
proof -
  from reseal_Inr [OF assms(1)] obtain tag where
    t': "t' = t\<lparr>Peers := ps, Iface := (resealed (t\<lparr>Peers := ps\<rparr>))\<lparr>MAC := tag\<rparr>, IfRaw := IfRaw t'\<rparr>" by auto
  show ?thesis by (subst t', rule settings_resealed) (use holds_canon [OF assms(2)] in auto)
qed

lemma peer_not_identity:
  assumes "stored sz (K d) MagicPeer kid l raw pk" and "stored sz (K d) MagicInterface kid' l' raw' pk'"
  shows "kid \<noteq> kid'"
proof
  assume "kid = kid'"
  with assms obtain e e' where e: "(e, pk) \<in> set (K d)" "(e', pk') \<in> set (K d)" "keKID e = keKID e'"
    "take (length (bytes_of MagicPeer)) (keDescr e) = bytes_of MagicPeer"
    "take (length (bytes_of MagicInterface)) (keDescr e') = bytes_of MagicInterface" by (auto simp: stored_def)
  with kid_unique [of "(e, pk)" d "(e', pk')"] have "e = e'" by (simp add: kidOf_def)
  with e magics_differ show False by metis
qed

lemma stored_unique:
  "stored sz (K d) magic kid l raw pk \<Longrightarrow> stored sz (K d) magic' kid l' raw' pk' \<Longrightarrow> pk = pk' \<and> l = l' \<and> raw = raw'"
  using kid_unique by (fastforce simp: stored_def kidOf_def)

lemma refs_clear_rewrite:
  assumes "stored sz (K d) magic kid l0 raw pk"
    and "take (length (bytes_of magic)) b = bytes_of magic" and "magic = MagicPeer \<or> magic = MagicInterface"
  shows "refs_clear (map (rewrite kid l b) (K d)) \<longleftrightarrow> refs_clear (K d)"
proof -
  from assms(1) obtain e where e: "(e, pk) \<in> set (K d)" "keKID e = kid"
    "take (length (bytes_of magic)) (keDescr e) = bytes_of magic" by (auto simp: stored_def)
  have "map keKID (matching (bytes_of MagicPeer) (map (rewrite kid l b) (K d))) = map keKID (matching (bytes_of MagicPeer) (K d))"
  proof (rule kids_rewrite)
    fix x assume "x \<in> set (K d)" "kidOf x = kid"
    with kid_unique [of x d "(e, pk)"] e have "x = (e, pk)" by (simp add: kidOf_def)
    with e(3) assms(2,3) magics_differ
    show "take (length (bytes_of MagicPeer)) (keDescr (fst x)) = bytes_of MagicPeer \<longleftrightarrow>
        take (length (bytes_of MagicPeer)) b = bytes_of MagicPeer" by auto
  qed
  then show ?thesis by (simp add: refs_clear_def)
qed

text \<open>Sealing rewrites the identity's record, and nothing else.\<close>

lemma reseal_store:
  assumes r: "reseal sz c tok t d = (Inr t', d')" and wf: "wf_Interface (Iface t)"
  shows "K d' = map (rewrite (IfKID t) (IfLabel t) (IfRaw t')) (K d) \<and>
     length (IfRaw t') = Size sz \<and> take (length (bytes_of MagicInterface)) (IfRaw t') = bytes_of MagicInterface"
proof -
  from reseal_Inr [OF r] obtain tag u u' d1 d2 d3 where len: "length tag = MACLen"
    and enc: "Interface_Encode sz ((resealed t)\<lparr>MAC := tag\<rparr>) = Inr (IfRaw t')"
    and upd: "UpdateKey c u (IfKID t) (IfLabel t) (IfRaw t') d1 = (Inr (), d2)" "K d1 = K d"
    and v: "Verify sz c u' (IfKID t) (IfPubKey t) (IfRaw t') (map recordOf (Peers t)) d3 = (Inr (), d')" "K d3 = K d2" by blast
  have "wf_Interface ((resealed t)\<lparr>MAC := tag\<rparr>)"
    using wf len by (auto simp: wf_Interface_def resealed_def length_MakePeerRef PeerRefLen_def)
  from Interface_Encode_magic [OF this enc] show ?thesis
    using updates [of u "IfKID t" "IfLabel t" "IfRaw t'" d1] upd keepsD [OF keeps_Verify refl v(1)] v(2) by simp
qed

text \<open>Sealing a tree makes the store hold it.\<close>

lemma reseal_holds:
  assumes r: "reseal sz c tok t d = (Inr t', d')"
    and id: "stored sz (K d) MagicInterface (IfKID t) l0 raw0 (IfPubKey t)" "KID (IfPubKey t) = IfKID t" "length (IfPubKey t) = PubKeyLen"
    and ps: "\<forall>p \<in> set (Peers t). sealable sz (K d) p" "Peers t \<noteq> []" and clear: "refs_clear (K d)" and wf: "wf_Interface (Iface t)"
  shows "holds sz h (K d') (canonTree t') \<and> K d' = map (rewrite (IfKID t) (IfLabel t) (IfRaw t')) (K d) \<and>
     IfKID t' = IfKID t \<and> IfLabel t' = IfLabel t \<and> Peers t' = Peers t"
proof -
  from reseal_Inr [OF r] obtain tag u u' d1 d2 d3 where len: "length tag = MACLen"
    and enc: "Interface_Encode sz ((resealed t)\<lparr>MAC := tag\<rparr>) = Inr (IfRaw t')"
    and t': "t' = t\<lparr>Iface := (resealed t)\<lparr>MAC := tag\<rparr>, IfRaw := IfRaw t'\<rparr>"
    and upd: "UpdateKey c u (IfKID t) (IfLabel t) (IfRaw t') d1 = (Inr (), d2)" "K d1 = K d"
    and v: "Verify sz c u' (IfKID t) (IfPubKey t) (IfRaw t') (map recordOf (Peers t)) d3 = (Inr (), d')" "K d3 = K d2" by blast
  have sel: "IfKID t' = IfKID t" "IfLabel t' = IfLabel t" "IfPubKey t' = IfPubKey t" "Peers t' = Peers t"
    "Iface t' = (resealed t)\<lparr>MAC := tag\<rparr>" by (subst t', simp)+
  let ?i = "(resealed t)\<lparr>MAC := tag\<rparr>"
  have wfi: "wf_Interface ?i" using wf len by (auto simp: wf_Interface_def resealed_def length_MakePeerRef PeerRefLen_def)
  have dec: "DecodeInterface sz (IfRaw t') = Inr (canonInterface ?i)" by (rule Interface_enc_dec [OF wfi enc])
  have magic: "length (IfRaw t') = Size sz" "take (length (bytes_of MagicInterface)) (IfRaw t') = bytes_of MagicInterface"
    and k: "K d' = map (rewrite (IfKID t) (IfLabel t) (IfRaw t')) (K d)" using reseal_store [OF r wf] by auto
  have id': "stored sz (K d') MagicInterface (IfKID t) (IfLabel t) (IfRaw t') (IfPubKey t)"
    unfolding k by (rule stored_rewrite_self [OF id(1) magic(2) Normalize_padded [OF magic(1)]])
  have ps': "stored sz (K d') MagicPeer (cpKID p) (cpLabel p) (cpRaw p) (cpPubKey p)" if "p \<in> set (Peers t)" for p
  proof -
    have s: "stored sz (K d) MagicPeer (cpKID p) (cpLabel p) (cpRaw p) (cpPubKey p)" using ps(1) that by (simp add: sealable_def)
    from stored_rewrite_other [OF s peer_not_identity [OF s id(1)]] show ?thesis unfolding k .
  qed
  have clear': "refs_clear (K d')" unfolding k using refs_clear_rewrite [OF id(1) magic(2)] clear by simp
  have tok: "tree_ok sz (canonTree t')"
    using id dec magic(1) ps by (auto simp: tree_ok_def canonTree_def sel sealable_def canonInterface_def resealed_def)
  have "fst (Verify sz c u' (IfKID t) (IfPubKey t) (IfRaw t') (map recordOf (Peers t)) d3) = Inr ()" using v(1) by simp
  from this [unfolded Verify_Inr [OF macs]] dec
  obtain msg where "HasMAC (canonInterface ?i)" "Canonical sz (IfPubKey t) (IfRaw t') (map recordOf (Peers t)) = Inr msg"
    "MAC (canonInterface ?i) = h (IfKID t) msg" by auto
  then have "HasMAC (Iface (canonTree t'))" "MAC (Iface (canonTree t')) = h (IfKID t) msg"
    by (simp_all add: canonTree_def sel)
  with id' ps' clear' tok \<open>Canonical sz (IfPubKey t) (IfRaw t') (map recordOf (Peers t)) = Inr msg\<close> k
  show ?thesis by (auto simp: holds_def canonTree_sel sel) (auto simp: canonTree_def sel)
qed

text \<open>And it goes through when the record fits and the device takes it.\<close>

lemma reseal_succeeds:
  assumes wf: "wf_Interface (Iface t)" and enc: "Interface_Encode sz (resealed t) = Inr un"
    and msg: "Canonical sz (IfPubKey t) un (map recordOf (Peers t)) = Inr msg"
    and upd: "\<And>u l b d1. K d1 = K d \<Longrightarrow> isOk (fst (UpdateKey c u (IfKID t) l b d1))"
  shows "\<exists>t' d'. reseal sz c tok t d = (Inr t', d')"
proof -
  obtain u d1 where u: "tok (''keymgmt:use:'' @ IfKID t) d = (Inr u, d1)" "K d1 = K d" using grants by blast
  let ?tag = "h (IfKID t) msg"
  have hm: "\<And>t kid msg d. HmacHash c t kid msg (macOpts kid) d = (Inr (h kid msg), d) \<and> length (h kid msg) = MACLen"
    using macs by (auto simp: honest_hmac_def)
  then have sg: "Sign sz c u (IfKID t) (IfPubKey t) un (map recordOf (Peers t)) d1 = (Inr ?tag, d1)"
    using msg by (simp add: Sign_def bindS_apply mapErrS_def)
  have wfi: "wf_Interface (resealed t)" using wf by (auto simp: wf_Interface_def resealed_def length_MakePeerRef PeerRefLen_def)
  have "(resealed t)\<lparr>MAC := zeroMAC\<rparr> = resealed t" "HasMAC (resealed t)" by (simp_all add: resealed_def)
  with Sign_Verify [OF macs wfi, of sz un u "IfKID t" "IfPubKey t" "map recordOf (Peers t)" d1 ?tag d1] enc sg
  obtain signed where sd: "Interface_Encode sz ((resealed t)\<lparr>MAC := ?tag\<rparr>) = Inr signed"
    and vf: "fst (Verify sz c u (IfKID t) (IfPubKey t) signed (map recordOf (Peers t)) d1) = Inr ()" by auto
  obtain u' d2 where u': "tok ''keymgmt:upd'' d1 = (Inr u', d2)" "K d2 = K d" using grants u(2) by metis
  from upd [OF u'(2), of u' "IfLabel t" signed] obtain d3 where w: "UpdateKey c u' (IfKID t) (IfLabel t) signed d2 = (Inr (), d3)"
    by (cases "UpdateKey c u' (IfKID t) (IfLabel t) signed d2") (auto simp: isOk_iff)
  have "fst (Verify sz c u (IfKID t) (IfPubKey t) signed (map recordOf (Peers t)) d3) = Inr ()"
    using vf unfolding Verify_Inr [OF macs] .
  then obtain d4 where "Verify sz c u (IfKID t) (IfPubKey t) signed (map recordOf (Peers t)) d3 = (Inr (), d4)" by (metis prod.collapse)
  with enc u(1) sg sd u'(1) w show ?thesis by (simp add: reseal_def Let_def bindS_apply mapErrS_def)
qed

subsection \<open>Removing a peer\<close>

lemma holds_delete:
  assumes "holds sz h (K d) t" and "kid \<noteq> IfKID t" and "kid \<notin> cpKID ` set (Peers t)"
  shows "holds sz h (filter (\<lambda>x. kidOf x \<noteq> kid) (K d)) t"
proof -
  have "stored sz (filter (\<lambda>x. kidOf x \<noteq> kid) (K d)) magic kid' l raw pk"
    if "stored sz (K d) magic kid' l raw pk" "kid' \<noteq> kid" for magic kid' l raw pk
    using that by (auto simp: stored_def kidOf_def)
  with assms refs_clear_filter show ?thesis by (auto simp: holds_def image_iff)
qed

lemma remove_holds:
  assumes h: "holds sz h (K d) t" and r: "peerRemoveFrom sz c tok key del t d = (Inr t', d')"
  shows "holds sz h (K d') (canonTree t') \<and> settings (canonTree t') = settings t \<and> key \<in> cpPubKey ` set (Peers t) \<and>
     Peers (canonTree t') = filter (\<lambda>p. cpPubKey p \<noteq> key) (Peers t)"
proof -
  from r obtain i d1 where i: "peerIndex key t = Some i" and n: "length (Peers t) \<noteq> 1"
    and s: "reseal sz c tok (t\<lparr>Peers := take i (Peers t) @ drop (i + 1) (Peers t)\<rparr>) d = (Inr t', d1)"
    and del: "del \<Longrightarrow> \<exists>u d2 d3. tok ''keymgmt:del'' d1 = (Inr u, d2) \<and> DeleteKey c u (cpKID (Peers t ! i)) d2 = (Inr (), d3) \<and> d' = d3"
      "\<not> del \<Longrightarrow> d' = d1"
    by (cases del) (auto simp: peerRemoveFrom_def Let_def result_inv split: option.splits if_splits)
  note ix = peerIndex_Some [OF i]
  have ps: "take i (Peers t) @ drop (i + 1) (Peers t) = filter (\<lambda>p. cpPubKey p \<noteq> key) (Peers t)" (is "_ = ?ps")
    using remove_nth [OF holds_distinct [OF h], of i] ix by simp
  have len: "length (take i (Peers t) @ drop (i + 1) (Peers t)) = length (Peers t) - 1" using ix by auto
  then have "0 < length (take i (Peers t) @ drop (i + 1) (Peers t))" using n ix by linarith
  then have ne: "?ps \<noteq> []" unfolding ps by blast
  have res: "holds sz h (K d1) (canonTree t') \<and> K d1 = map (rewrite (IfKID t) (IfLabel t) (IfRaw t')) (K d) \<and>
     IfKID t' = IfKID t \<and> IfLabel t' = IfLabel t \<and> Peers t' = ?ps"
    using reseal_holds [OF s [unfolded ps], of "IfLabel t" "IfRaw t"] holds_identity [OF h] holds_sealable [OF h] ne by auto
  have cn: "Peers (canonTree t') = ?ps" using res holds_canon [OF h] by (auto simp: canonTree_def intro!: map_idI)
  moreover have "key \<in> cpPubKey ` set (Peers t)" using ix nth_mem by blast
  moreover note reseal_settings [OF s h]
  moreover have "holds sz h (K d') (canonTree t')"
  proof (cases del)
    case True
    with del obtain u d2 where u: "tok ''keymgmt:del'' d1 = (Inr u, d2)" "DeleteKey c u (cpKID (Peers t ! i)) d2 = (Inr (), d')" by blast
    let ?g = "Peers t ! i"
    have g: "stored sz (K d) MagicPeer (cpKID ?g) (cpLabel ?g) (cpRaw ?g) (cpPubKey ?g)"
      using holds_sealable [OF h nth_mem] ix by (auto simp: sealable_def)
    have "K d' = filter (\<lambda>x. kidOf x \<noteq> cpKID ?g) (K d1)"
      using deletes [of u "cpKID ?g" d2] u keepsD [OF keeps_tok refl u(1)] by simp
    moreover have "cpKID ?g \<noteq> IfKID t" using peer_not_identity [OF g] holds_identity [OF h] by blast
    moreover have "cpKID ?g \<notin> cpKID ` set ?ps"
    proof
      assume "cpKID ?g \<in> cpKID ` set ?ps"
      then obtain p where p: "p \<in> set (Peers t)" "cpPubKey p \<noteq> key" "cpKID p = cpKID ?g" by auto
      with holds_sealable [OF h p(1)] stored_unique [OF g] ix show False by (auto simp: sealable_def)
    qed
    ultimately show ?thesis using holds_delete [OF conjunct1 [OF res]] res unfolding canonTree_sel cn by metis
  next
    case False
    with del res show ?thesis by blast
  qed
  ultimately show ?thesis by blast
qed

subsection \<open>Replacing a peer's record\<close>

lemma Record_stored:
  assumes "Record sz p w = Inr rec" and "Peer_Encode sz rec = Inr enc" and "wf_Peer (specPeer p None)"
  shows "length enc = Size sz \<and> take (length (bytes_of MagicPeer)) enc = bytes_of MagicPeer \<and> Normalize sz enc = Inr enc \<and>
    DecodePeer sz enc = Inr (canonPeer rec) \<and> rec = specPeer p w"
proof -
  have rec: "rec = specPeer p w" using assms(1) by (simp add: Record_Inr)
  then have "wf_Peer rec" using assms(3) by (simp add: wf_Peer_def specPeer_def)
  with Peer_Encode_magic [OF assms(2)] Peer_enc_dec [OF _ assms(2)] rec show ?thesis by (simp add: Normalize_padded)
qed

lemma keeps_updatedPSK [keeps_intros]: "keeps (\<lambda>d. K d = k) (updatedPSK c u t old b psk)"
  unfolding updatedPSK_def by (intro keeps_intros)

lemma update_holds:
  assumes h: "holds sz h (K d) t" and r: "peerUpdateIn sz c tok p clr psk t d = (Inr t', d')" and wf: "wf_Peer (specPeer p None)"
  shows "holds sz h (K d') (canonTree t') \<and> settings (canonTree t') = settings t \<and>
     (\<exists>i w enc. i < length (Peers t) \<and> cpPubKey (Peers t ! i) = psPubKey p \<and> updatedTo clr psk (cpPeer (Peers t ! i)) w \<and>
        Peer_Encode sz (specPeer p w) = Inr enc \<and>
        (\<forall>magic kid l raw pk. kid \<noteq> cpKID (Peers t ! i) \<longrightarrow> kid \<noteq> IfKID t \<longrightarrow>
           stored sz (K d) magic kid l raw pk \<longrightarrow> stored sz (K d') magic kid l raw pk) \<and>
        Peers (canonTree t') = (Peers t)[i := (Peers t ! i)\<lparr>cpLabel := psLabel p, cpRaw := enc, cpPeer := canonPeer (specPeer p w)\<rparr>])"
proof -
  from r obtain i u d1 w d2 rec enc u' d3 d4 where i: "peerIndex (psPubKey p) t = Some i"
    and u: "tok (''keymgmt:use:'' @ IfKID t) d = (Inr u, d1)" and w: "updatedPSK c u t (Peers t ! i) clr psk d1 = (Inr w, d2)"
    and rec: "Record sz p w = Inr rec" "Peer_Encode sz rec = Inr enc" and u': "tok ''keymgmt:upd'' d2 = (Inr u', d3)"
    and upd: "UpdateKey c u' (cpKID (Peers t ! i)) (psLabel p) enc d3 = (Inr (), d4)"
    and s: "reseal sz c tok (t\<lparr>Peers := (Peers t)[i := (Peers t ! i)\<lparr>cpLabel := psLabel p, cpRaw := enc, cpPeer := rec\<rparr>]\<rparr>) d4 = (Inr t', d')"
    by (auto simp: peerUpdateIn_def Let_def result_inv split: option.splits)
  let ?o = "Peers t ! i" and ?new = "(Peers t ! i)\<lparr>cpLabel := psLabel p, cpRaw := enc, cpPeer := rec\<rparr>"
  note ix = peerIndex_Some [OF i] and st = Record_stored [OF rec wf]
  have "K d3 = K d" using keepsD [OF keeps_tok refl u] keepsD [OF keeps_updatedPSK refl w] keepsD [OF keeps_tok refl u'] by simp
  then have k: "K d4 = map (rewrite (cpKID ?o) (psLabel p) enc) (K d)"
    using updates [of u' "cpKID ?o" "psLabel p" enc d3] upd by simp
  have "?o \<in> set (Peers t)" using ix by simp
  with h have o: "stored sz (K d) MagicPeer (cpKID ?o) (cpLabel ?o) (cpRaw ?o) (cpPubKey ?o)" "peer_ok sz ?o"
    by (auto simp: holds_def tree_ok_def)
  note id = holds_identity [OF h]
  have id': "stored sz (K d4) MagicInterface (IfKID t) (IfLabel t) (IfRaw t) (IfPubKey t)"
    unfolding k using stored_rewrite_other id peer_not_identity [OF o(1)] by metis
  have self: "sealable sz (K d4) ?new"
    using stored_rewrite_self [OF o(1), of MagicPeer enc enc "psLabel p"] st o(2) by (auto simp: sealable_def k peer_ok_def)
  have other: "sealable sz (K d4) q" if "q \<in> set (Peers t)" "cpPubKey q \<noteq> cpPubKey ?o" for q
  proof -
    have q: "sealable sz (K d) q" by (rule holds_sealable [OF h that(1)])
    then have "cpKID q \<noteq> cpKID ?o" using stored_unique [OF o(1)] that(2) by (auto simp: sealable_def)
    with q stored_rewrite_other show ?thesis by (auto simp: sealable_def k)
  qed
  have "sealable sz (K d4) q" if "q \<in> set ((Peers t)[i := ?new])" for q
  proof -
    from that obtain j where j: "j < length (Peers t)" "q = (Peers t)[i := ?new] ! j" by (auto simp: in_set_conv_nth)
    show ?thesis
    proof (cases "j = i")
      case False
      with j have q: "q = Peers t ! j" by simp
      have "cpPubKey (Peers t ! j) \<noteq> cpPubKey ?o"
        using holds_distinct [OF h] False j(1) ix unfolding distinct_conv_nth by (metis length_map nth_map)
      with other [of q] q j(1) show ?thesis by simp
    qed (use self j ix in simp)
  qed
  moreover have "refs_clear (K d4)" unfolding k using refs_clear_rewrite [OF o(1)] id st by simp
  moreover have "(Peers t)[i := ?new] \<noteq> []" using id by simp
  ultimately have fin: "holds sz h (K d') (canonTree t') \<and> K d' = map (rewrite (IfKID t) (IfLabel t) (IfRaw t')) (K d4) \<and>
      IfKID t' = IfKID t \<and> IfLabel t' = IfLabel t \<and> Peers t' = (Peers t)[i := ?new]"
    using reseal_holds [OF s, of "IfLabel t" "IfRaw t"] id id' by auto
  then have rest: "stored sz (K d') magic kid l raw pk" if "stored sz (K d) magic kid l raw pk" "kid \<noteq> cpKID ?o" "kid \<noteq> IfKID t"
    for magic kid l raw pk using stored_rewrite_other that unfolding k by metis
  from fin holds_canon [OF h] have "Peers (canonTree t') = (Peers t)[i := ?new\<lparr>cpPeer := canonPeer (specPeer p w)\<rparr>]"
    using st by (simp add: canonTree_def map_update map_idI)
  then show ?thesis using ix updatedPSK_Inr [OF w] rec(2) st reseal_settings [OF s h] rest conjunct1 [OF fin]
    by (intro conjI exI [of _ i] exI [of _ w] exI [of _ enc]) simp_all
qed

end

end
