(* ===== verification/PeerAdd.thy ===== *)
theory PeerAdd
  imports PeerEdits
begin

text \<open>
  Adding a peer to a configuration a key store holds (\<open>peer add\<close>, with \<open>PlacePeer\<close> of
  \<open>internal/provision/adopt.go\<close>): the peer is imported under the identifier its key derives, or
  taken as the device already stores it.
\<close>

text \<open>Sealing depends on the peers' keys and records only, not on their labels.\<close>

lemma reseal_labels:
  assumes "map recordOf ps = map recordOf ps'" and r: "reseal sz c tok (t\<lparr>Peers := ps\<rparr>) d = (Inr t', d')"
  shows "reseal sz c tok (t\<lparr>Peers := ps'\<rparr>) d = (Inr (t'\<lparr>Peers := ps'\<rparr>), d')"
proof -
  have "map (prPubKey \<circ> recordOf) ps = map (prPubKey \<circ> recordOf) ps'" using assms(1) by (metis map_map)
  then have "map (\<lambda>p. MakePeerRef (cpPubKey p)) ps = map (\<lambda>p. MakePeerRef (cpPubKey p)) ps'"
    by (induction ps ps' rule: list_induct2') (simp_all add: recordOf_def)
  then have "resealed (t\<lparr>Peers := ps\<rparr>) = resealed (t\<lparr>Peers := ps'\<rparr>)" by (simp add: resealed_def)
  with r assms(1) show ?thesis by (auto simp: reseal_def Let_def result_inv)
qed

definition insertPeer :: "bool \<Rightarrow> 'a \<Rightarrow> 'a list \<Rightarrow> 'a list" where
  "insertPeer atHead x xs = (if atHead then x # xs else xs @ [x])"

lemma insertPeer_simps [simp]:
  "set (insertPeer b x xs) = insert x (set xs)" "map f (insertPeer b x xs) = insertPeer b (f x) (map f xs)"
  "insertPeer b x xs \<noteq> []"
  by (auto simp: insertPeer_def)

text \<open>No record of another key answers to the reference of a new one.\<close>

definition refFree :: "store \<Rightarrow> bytes \<Rightarrow> bool" where
  "refFree k pk \<longleftrightarrow> (\<forall>e \<in> set (matching (bytes_of MagicPeer) k).
     PeerRefFromKID (keKID e) = Inr (MakePeerRef pk) \<longrightarrow> keKID e = KID pk)"

text \<open>
  The new peer.  A key the device does not have is imported under the asked label with the
  record asked for; of a key it has, the stored record and label are taken: when the record is
  the one asked for or, with \<open>--adopt\<close>, when it carries no pre-shared key.
\<close>

definition asAsked :: "size_tags \<Rightarrow> PeerSpec \<Rightarrow> bytes option \<Rightarrow> ConfigPeer \<Rightarrow> bool" where
  "asAsked sz p psk new \<longleftrightarrow> (\<exists>w. Peer_Encode sz (specPeer p w) = Inr (cpRaw new) \<and>
     cpPeer new = canonPeer (specPeer p w) \<and> (w = None \<longleftrightarrow> psk = None))"

definition addedPeer :: "size_tags \<Rightarrow> store \<Rightarrow> PeerSpec \<Rightarrow> bytes option \<Rightarrow> bool \<Rightarrow> ConfigPeer \<Rightarrow> bool" where
  "addedPeer sz k p psk adopt new \<longleftrightarrow> cpPubKey new = psPubKey p \<and> cpKID new = KID (psPubKey p) \<and>
     DecodePeer sz (cpRaw new) = Inr (cpPeer new) \<and>
     (if cpKID new \<in> kidOf ` set k
      then stored sz k MagicPeer (cpKID new) (cpLabel new) (cpRaw new) (cpPubKey new) \<and>
        (asAsked sz p psk new \<or> adopt \<and> PSKWrapped (cpPeer new) = [])
      else cpLabel new = psLabel p \<and> asAsked sz p psk new)"

lemma stored_append: "stored sz k magic kid l raw pk \<Longrightarrow> stored sz (k @ k') magic kid l raw pk"
  by (auto simp: stored_def)

lemma importPeer_Inr:
  assumes "importPeer c tok p want d = (Inr (kid, ad), d')"
  shows "\<exists>u d1. tok ''keymgmt:imp'' d = (Inr u, d1) \<and> kid = KID (psPubKey p) \<and> \<not> ad \<and>
    ImportKey c u (psLabel p) keyType (psPubKey p) want d1 = (Inr kid, d')"
proof -
  from assms obtain u d1 kid' where u: "tok ''keymgmt:imp'' d = (Inr u, d1)"
    and i: "ImportKey c u (psLabel p) keyType (psPubKey p) want d1 = (Inr kid', d')"
    and e: "(if kid' \<noteq> KID (psPubKey p) then failS (Fail KindDevice ''the device gave peer %s the identifier %s, but this client derives %s; references would not resolve'' [])
       else returnS (kid', False)) d' = (Inr (kid, ad), d')"
    unfolding importPeer_def by (auto simp: result_inv split: if_splits)
  from e have "kid' = KID (psPubKey p)" "kid = kid'" "\<not> ad" by (simp_all split: if_splits)
  with u i show ?thesis by blast
qed

context key_store
begin

lemma readLoop_sound:
  "readLoop n sz c tok kid token off d = (r, d') \<Longrightarrow>
   K d' = K d \<and> (\<forall>raw. r = Inr (Some raw) \<longrightarrow>
     (\<exists>e \<in> set (matching (bytes_of MagicPeer) (K d)). keKID e = kid \<and> Normalize sz (keDescr e) = Inr raw))"
proof (induction n arbitrary: off d)
  case (Suc n)
  let ?M = "matching (bytes_of MagicPeer) (K d)"
  obtain d1 where s: "SearchKeys c token (bytes_of MagicPeer) off 50 d = (Inr (int (length ?M), take 50 (drop off ?M)), d1)"
    and k: "K d1 = K d" using searches by blast
  show ?case
  proof (cases "find (\<lambda>e. keKID e = kid) (take 50 (drop off ?M))")
    case None
    show ?thesis
    proof (cases "take 50 (drop off ?M) = [] \<or> int (off + length (take 50 (drop off ?M))) \<ge> int (length ?M)")
      case False
      with None s Suc.prems have "readLoop n sz c tok kid token (off + length (take 50 (drop off ?M))) d1 = (r, d')"
        by (simp add: Let_def)
      from Suc.IH [OF this] k show ?thesis by simp
    qed (use None s Suc.prems k in \<open>auto simp: Let_def split: if_splits\<close>)
  next
    case (Some e)
    from find_SomeD [OF this] have "e \<in> set ?M" "keKID e = kid" by (auto dest!: in_set_takeD in_set_dropD)
    with Some s Suc.prems k show ?thesis by (auto split: sum.splits)
  qed
qed auto

lemma ReadPeerRecord_stored:
  "ReadPeerRecord n sz c tok kid d = (Inr (Some raw), d') \<Longrightarrow> K d' = K d \<and> (\<exists>l pk. stored sz (K d) MagicPeer kid l raw pk)"
  unfolding ReadPeerRecord_def using readLoop_sound [of n sz kid "[]" 0 d "Inr (Some raw)" d'] by (force simp: stored_def set_matching)

lemma keeps_ReadPeerRecord [keeps_intros]: "keeps (\<lambda>d. K d = k) (ReadPeerRecord n sz c tok kid)"
  unfolding keeps_def ReadPeerRecord_def using readLoop_sound by (metis prod.collapse)

text \<open>What placing a peer leaves in the store.\<close>

lemma PlacePeer_store:
  assumes "PlacePeer n sz c tok p want adopt d = (Inr (kid, ad), d')"
  shows "kid = KID (psPubKey p) \<and>
    (if ad then K d' = K d \<and> (\<forall>magic l raw pk. stored sz (K d) magic kid l raw pk \<longrightarrow> pk = psPubKey p) \<and>
       (\<exists>cur l pk. stored sz (K d) MagicPeer kid l cur pk \<and>
         (cur = want \<or> adopt \<and> (\<exists>x. DecodePeer sz cur = Inr x \<and> PSKWrapped x = [])))
     else kid \<notin> kidOf ` set (K d) \<and> (\<exists>created. K d' =
       K d @ [(\<lparr>keKID = kid, keLabel = psLabel p, keDescr = want, keCreated = created\<rparr>, psPubKey p)]))"
proof -
  from assms obtain g d1 where g: "tok ''keymgmt:get'' d = (Inr g, d1)"
    by (auto simp: PlacePeer_def Let_def result_inv)
  have k1: "K d1 = K d" using keepsD [OF keeps_tok refl g] by simp
  obtain q d2 where q: "GetPubKey c g (KID (psPubKey p)) d1 = (q, d2)" by fastforce
  have k2: "K d2 = K d" using gets_keep [of g "KID (psPubKey p)" d1] q k1 by simp
  show ?thesis
  proof (cases q)
    case (Inl e)
    with assms g q have "importPeer c tok p want d2 = (Inr (kid, ad), d')"
      by (auto simp: PlacePeer_def Let_def bindS_apply split: if_splits)
    from importPeer_Inr [OF this] obtain u d3 where u: "tok ''keymgmt:imp'' d2 = (Inr u, d3)"
      and i: "ImportKey c u (psLabel p) keyType (psPubKey p) want d3 = (Inr kid, d')" "kid = KID (psPubKey p)" "\<not> ad"
      by blast
    have "K d3 = K d" using keepsD [OF keeps_tok refl u] k2 by simp
    with imports_ok [OF i(1)] have "kid \<notin> kidOf ` set (K d) \<and> (\<exists>created. K d' =
       K d @ [(\<lparr>keKID = kid, keLabel = psLabel p, keDescr = want, keCreated = created\<rparr>, psPubKey p)])" by simp
    with i(2,3) show ?thesis unfolding if_not_P [OF i(3)] by blast
  next
    case (Inr ex)
    obtain x d3 where r: "ReadPeerRecord n sz c tok (KID (psPubKey p)) d2 = (x, d3)" by fastforce
    from assms g q Inr r obtain cur where ex: "keyPubKey ex = psPubKey p" and res: "kid = KID (psPubKey p)" ad "d' = d3"
      and x: "x = Inr (Some cur)" "cur = want \<or> adopt \<and> (\<exists>x. DecodePeer sz cur = Inr x \<and> PSKWrapped x = [])"
      by (auto simp: PlacePeer_def Let_def bindS_apply split: if_splits option.splits sum.splits)
    from ReadPeerRecord_stored [OF r [unfolded x(1)]] obtain l pk where st: "stored sz (K d) MagicPeer kid l cur pk"
      using k2 res(1) by auto
    have "pk = psPubKey p" if "stored sz (K d) magic kid l raw pk" for magic l raw pk
    proof -
      from that obtain e where "(e, pk) \<in> set (K d1)" "keKID e = kid" by (auto simp: stored_def k1)
      with gets [of e pk d1 g] q Inr ex res show ?thesis by auto
    qed
    with keepsD [OF keeps_ReadPeerRecord refl r] k2 res st x(2) show ?thesis by auto
  qed
qed

lemma adoptedRecord_store:
  assumes "adoptedRecord n sz c tok kid ad enc rec d = (Inr (enc', rec'), d')"
  shows "K d' = K d \<and> (if ad then (\<exists>l pk. stored sz (K d) MagicPeer kid l enc' pk) \<and> DecodePeer sz enc' = Inr rec'
     else enc' = enc \<and> rec' = rec)"
  using assms by (auto simp: adoptedRecord_def result_inv split: option.splits if_splits dest!: ReadPeerRecord_stored)

text \<open>A new record leaves the references clear exactly when no other answers to its reference.\<close>

lemma refs_clear_append:
  assumes "refs_clear k" and "keKID e \<notin> kidOf ` set k" and "keKID e = KID pk"
    and "take (length (bytes_of MagicPeer)) (keDescr e) = bytes_of MagicPeer"
  shows "refs_clear (k @ [(e, pk)]) \<longleftrightarrow> refFree k pk"
proof -
  have "e' \<in> set (matching (bytes_of MagicPeer) k) \<Longrightarrow> keKID e' \<noteq> KID pk" for e'
    using assms(2,3) by (force simp: set_matching kidOf_def)
  then have "MakePeerRef pk \<in> set (refsOf (map keKID (matching (bytes_of MagicPeer) k))) \<longleftrightarrow> \<not> refFree k pk"
    by (auto simp: set_refsOf refFree_def)
  with assms(1,3,4) PeerRefFromKID_KID [of pk] show ?thesis by (auto simp: refs_clear_def matching_def)
qed

lemma refFree_stored:
  assumes "refs_clear (K d)" and "stored sz (K d) MagicPeer (KID pk) l raw pk'"
  shows "refFree (K d) pk"
  unfolding refFree_def
proof (intro ballI impI)
  fix e assume e: "e \<in> set (matching (bytes_of MagicPeer) (K d))" "PeerRefFromKID (keKID e) = Inr (MakePeerRef pk)"
  from assms(2) obtain e' where e': "e' \<in> set (matching (bytes_of MagicPeer) (K d))" "keKID e' = KID pk"
    by (auto simp: stored_def set_matching)
  have "isOk (indexPeers (matching (bytes_of MagicPeer) (K d)) (\<lambda>_. None))"
    using assms(1) by (simp add: indexPeers_ok refs_clear_def)
  then obtain m where "indexPeers (matching (bytes_of MagicPeer) (K d)) (\<lambda>_. None) = Inr m" by (auto simp: isOk_iff)
  from indexPeers_lookup [OF this, of "MakePeerRef pk"] e e' PeerRefFromKID_KID [of pk] have "m (MakePeerRef pk) = Some e" "m (MakePeerRef pk) = Some e'"
    by auto
  with e'(2) show "keKID e = KID pk" by simp
qed

text \<open>What the command seals: the peer as it is in the store then, in its place.\<close>

lemma add_placed:
  assumes clear: "refs_clear (K d)" and r: "peerAddTo n sz c tok p psk atHead adopt t d = (Inr t', d')" and ok: "specOk p"
  shows "\<exists>new d4. reseal sz c tok (t\<lparr>Peers := insertPeer atHead new (Peers t)\<rparr>) d4 =
       (Inr (t'\<lparr>Peers := insertPeer atHead new (Peers t)\<rparr>), d') \<and>
     sealable sz (K d4) new \<and> addedPeer sz (K d) p psk adopt (new\<lparr>cpPeer := canonPeer (cpPeer new)\<rparr>) \<and>
     (\<exists>rest. K d4 = K d @ rest) \<and> (refs_clear (K d4) \<longleftrightarrow> refFree (K d) (psPubKey p))"
proof -
  from r obtain u d1 w d2 rec enc kid ad d3 enc' rec' d4 where
    u: "tok (''keymgmt:use:'' @ IfKID t) d = (Inr u, d1)" and w: "WrapPSK c u (IfKID t) (KID (psPubKey p)) psk d1 = (Inr w, d2)"
    and rec: "Record sz p w = Inr rec" "Peer_Encode sz rec = Inr enc"
    and pl: "PlacePeer n sz c tok p enc adopt d2 = (Inr (kid, ad), d3)"
    and ar: "adoptedRecord n sz c tok kid ad enc rec d3 = (Inr (enc', rec'), d4)"
    and s: "reseal sz c tok (t\<lparr>Peers := insertPeer atHead (newPeer p kid enc' rec') (Peers t)\<rparr>) d4 = (Inr t', d')"
    unfolding peerAddTo_def Let_def insertPeer_def by (auto simp: result_inv split: if_splits)
  have k2: "K d2 = K d" using keepsD [OF keeps_tok refl u] keepsD [OF keeps_WrapPSK refl w] by simp
  have wf: "wf_Peer (specPeer p None)" "length (psPubKey p) = PubKeyLen" using ok by (auto simp: specOk_def)
  note st = Record_stored [OF rec wf(1)]
  note pp = PlacePeer_store [OF pl, unfolded k2] and aa = adoptedRecord_store [OF ar]
  have kid: "kid = KID (psPubKey p)" using pp by blast
  let ?new = "newPeer p kid enc' rec'"
  have "\<exists>lab. sealable sz (K d4) (?new\<lparr>cpLabel := lab\<rparr>) \<and> addedPeer sz (K d) p psk adopt (?new\<lparr>cpLabel := lab, cpPeer := canonPeer rec'\<rparr>) \<and>
     (\<exists>rest. K d4 = K d @ rest) \<and> (refs_clear (K d4) \<longleftrightarrow> refFree (K d) (psPubKey p))"
  proof (cases ad)
    case True
    note pt = pp [unfolded if_P [OF True]] and at = aa [unfolded if_P [OF True]]
    then have k: "K d4 = K d" and dec: "DecodePeer sz enc' = Inr rec'" by (metis, blast)
    from pt at obtain lab pk where "stored sz (K d) MagicPeer kid lab enc' pk" by metis
    moreover from this pt have "pk = psPubKey p" by blast
    ultimately have s: "stored sz (K d) MagicPeer kid lab enc' (psPubKey p)" by simp
    have len: "length enc' = Size sz" using s by (auto simp: stored_def Normalize_def split: if_splits)
    have can: "canonPeer rec' = rec'" using pc.dec_canonical dec by blast
    from pt stored_unique [OF s] have "enc' = enc \<or> adopt \<and> PSKWrapped rec' = []" using dec by auto
    then have asked: "asAsked sz p psk (?new\<lparr>cpLabel := lab\<rparr>) \<or> adopt \<and> PSKWrapped rec' = []"
      using WrapPSK_Inr [OF w] rec(2) st dec can by (auto simp: asAsked_def newPeer_def)
    have "kid \<in> kidOf ` set (K d)" using s by (force simp: stored_def kidOf_def)
    moreover have "refFree (K d) (psPubKey p)" using refFree_stored [OF clear] s kid by metis
    ultimately show ?thesis using s dec can len asked k kid wf(2) clear
      by (intro exI [of _ lab]) (simp add: sealable_def addedPeer_def newPeer_def peer_ok_def asAsked_def)
  next
    case False
    note pt = pp [unfolded if_not_P [OF False]] and at = aa [unfolded if_not_P [OF False]]
    then obtain created where fresh: "kid \<notin> kidOf ` set (K d)" and e: "enc' = enc" "rec' = rec" and
      k: "K d4 = K d @ [(\<lparr>keKID = kid, keLabel = psLabel p, keDescr = enc, keCreated = created\<rparr>, psPubKey p)]" by metis
    have "stored sz (K d4) MagicPeer kid (psLabel p) enc (psPubKey p)" using st by (auto simp: k stored_def)
    moreover have "refs_clear (K d4) \<longleftrightarrow> refFree (K d) (psPubKey p)"
      unfolding k by (rule refs_clear_append [OF clear]) (use fresh kid st in auto)
    moreover have "\<exists>w. Peer_Encode sz (specPeer p w) = Inr enc \<and> rec = specPeer p w \<and> (w = None \<longleftrightarrow> psk = None)"
      using WrapPSK_Inr [OF w] rec(2) st by auto
    ultimately show ?thesis using st e kid wf(2) fresh
      by (intro exI [of _ "psLabel p"]) (auto simp: sealable_def addedPeer_def newPeer_def peer_ok_def asAsked_def k)
  qed
  then obtain lab where lab: "sealable sz (K d4) (?new\<lparr>cpLabel := lab\<rparr>)"
    "addedPeer sz (K d) p psk adopt (?new\<lparr>cpLabel := lab, cpPeer := canonPeer rec'\<rparr>)"
    "\<exists>rest. K d4 = K d @ rest" "refs_clear (K d4) \<longleftrightarrow> refFree (K d) (psPubKey p)" by blast
  have "reseal sz c tok (t\<lparr>Peers := insertPeer atHead (?new\<lparr>cpLabel := lab\<rparr>) (Peers t)\<rparr>) d4 =
      (Inr (t'\<lparr>Peers := insertPeer atHead (?new\<lparr>cpLabel := lab\<rparr>) (Peers t)\<rparr>), d')"
    by (rule reseal_labels [OF _ s]) (simp add: recordOf_def)
  with lab show ?thesis
    by (intro exI [of _ "?new\<lparr>cpLabel := lab\<rparr>"] exI [of _ d4]) (simp add: newPeer_def)
qed

text \<open>An add whose reference is free leaves the store with the extended configuration.\<close>

lemma add_holds:
  assumes h: "holds sz h (K d) t" and r: "peerAddTo n sz c tok p psk atHead adopt t d = (Inr t', d')"
    and ok: "specOk p" and free: "refFree (K d) (psPubKey p)"
  shows "\<exists>t'' new. holds sz h (K d') t'' \<and> settings t'' = settings t \<and> addedPeer sz (K d) p psk adopt new \<and>
     Peers t'' = insertPeer atHead new (Peers t)"
proof -
  note id = holds_identity [OF h]
  from add_placed [OF _ r ok] id obtain new d4 rest where
    s: "reseal sz c tok (t\<lparr>Peers := insertPeer atHead new (Peers t)\<rparr>) d4 = (Inr (t'\<lparr>Peers := insertPeer atHead new (Peers t)\<rparr>), d')"
    and new: "sealable sz (K d4) new" "addedPeer sz (K d) p psk adopt (new\<lparr>cpPeer := canonPeer (cpPeer new)\<rparr>)"
    and k4: "K d4 = K d @ rest" and clear: "refs_clear (K d4)" using free by blast
  let ?t = "t\<lparr>Peers := insertPeer atHead new (Peers t)\<rparr>" and ?t' = "t'\<lparr>Peers := insertPeer atHead new (Peers t)\<rparr>"
  have "sealable sz (K d4) q" if "q \<in> set (Peers t)" for q
    using holds_sealable [OF h that] by (auto simp: sealable_def k4 stored_append)
  moreover have "stored sz (K d4) MagicInterface (IfKID t) (IfLabel t) (IfRaw t) (IfPubKey t)"
    using id by (simp add: k4 stored_append)
  ultimately have "holds sz h (K d') (canonTree ?t')"
    using reseal_holds [OF s, of "IfLabel t" "IfRaw t"] id new(1) clear by auto
  moreover obtain tag where t': "?t' = t\<lparr>Peers := insertPeer atHead new (Peers t), Iface := (resealed ?t)\<lparr>MAC := tag\<rparr>, IfRaw := IfRaw t'\<rparr>"
    using reseal_Inr [OF s] by auto
  moreover note cn = holds_canon [OF h]
  moreover have "Peers (canonTree ?t') = insertPeer atHead (new\<lparr>cpPeer := canonPeer (cpPeer new)\<rparr>) (Peers t)"
    using cn by (simp add: canonTree_def map_idI)
  moreover have "settings (canonTree ?t') = settings t"
    unfolding t' by (rule settings_resealed) (use cn in auto)
  ultimately show ?thesis using new(2) by blast
qed

text \<open>One whose reference is taken is written all the same, and leaves two records that answer to it.\<close>

lemma add_clash:
  assumes h: "holds sz h (K d) t" and r: "peerAddTo n sz c tok p psk atHead adopt t d = (Inr t', d')"
    and ok: "specOk p" and taken: "\<not> refFree (K d) (psPubKey p)"
  shows "\<not> refs_clear (K d')"
proof -
  note id = holds_identity [OF h]
  from add_placed [OF _ r ok] id obtain new d4 rest where
    s: "reseal sz c tok (t\<lparr>Peers := insertPeer atHead new (Peers t)\<rparr>) d4 = (Inr (t'\<lparr>Peers := insertPeer atHead new (Peers t)\<rparr>), d')"
    and k4: "K d4 = K d @ rest" and "\<not> refs_clear (K d4)" using taken by blast
  moreover have "stored sz (K d4) MagicInterface (IfKID t) (IfLabel t) (IfRaw t) (IfPubKey t)"
    using id by (simp add: k4 stored_append)
  ultimately show ?thesis using reseal_store [OF s] id refs_clear_rewrite by fastforce
qed

end

end
