(* ===== verification/Edits.thy ===== *)
theory Edits
  imports PeerAdd
begin

text \<open>
  The edits of \<open>cmd/wg-hem/peer.go\<close> as operations on configurations.  An abstract edit changes
  the list of peers and nothing else; the commands implement it on every key store: what the
  next load returns is the edited configuration.
\<close>

datatype edit =
    AddPeer PeerSpec "bytes option" bool bool
  | RemovePeer bytes bool
  | UpdatePeer PeerSpec bool "bytes option"

fun runEdit :: "nat \<Rightarrow> size_tags \<Rightarrow> 'd Client \<Rightarrow> 'd TokenFunc \<Rightarrow> edit \<Rightarrow> Tree \<Rightarrow> ('d, error, Tree) io" where
  "runEdit fuel sz c tok (AddPeer p psk atHead adopt) t = peerAddTo fuel sz c tok p psk atHead adopt t"
| "runEdit fuel sz c tok (RemovePeer key del) t = peerRemoveFrom sz c tok key del t"
| "runEdit fuel sz c tok (UpdatePeer p clr psk) t = peerUpdateIn sz c tok p clr psk t"

text \<open>The abstract edit.\<close>

fun editedPeers :: "size_tags \<Rightarrow> store \<Rightarrow> edit \<Rightarrow> ConfigPeer list \<Rightarrow> ConfigPeer list \<Rightarrow> bool" where
  "editedPeers sz k (AddPeer p psk atHead adopt) ps ps' \<longleftrightarrow>
     psPubKey p \<notin> cpPubKey ` set ps \<and> (\<exists>new. addedPeer sz k p psk adopt new \<and> ps' = insertPeer atHead new ps)"
| "editedPeers sz k (RemovePeer key del) ps ps' \<longleftrightarrow>
     key \<in> cpPubKey ` set ps \<and> ps' = filter (\<lambda>p. cpPubKey p \<noteq> key) ps"
| "editedPeers sz k (UpdatePeer p clr psk) ps ps' \<longleftrightarrow>
     (\<exists>i w enc. i < length ps \<and> cpPubKey (ps ! i) = psPubKey p \<and> updatedTo clr psk (cpPeer (ps ! i)) w \<and>
        Peer_Encode sz (specPeer p w) = Inr enc \<and>
        ps' = ps[i := (ps ! i)\<lparr>cpLabel := psLabel p, cpRaw := enc, cpPeer := canonPeer (specPeer p w)\<rparr>])"

text \<open>The commands read the peer they are given with \<open>ParsePeerSpec\<close> before anything else.\<close>

fun parsedEdit :: "size_tags \<Rightarrow> edit \<Rightarrow> bool" where
  "parsedEdit sz (AddPeer p psk atHead adopt) \<longleftrightarrow> (\<exists>s. ParsePeerSpec sz s = Inr p)"
| "parsedEdit sz (RemovePeer key del) \<longleftrightarrow> True"
| "parsedEdit sz (UpdatePeer p clr psk) \<longleftrightarrow> (\<exists>s. ParsePeerSpec sz s = Inr p)"

text \<open>
  Adding a peer whose four-byte reference another record of the device already answers to.  The
  commands do not look for this.
\<close>

fun clashes :: "store \<Rightarrow> edit \<Rightarrow> bool" where
  "clashes k (AddPeer p psk atHead adopt) \<longleftrightarrow> \<not> refFree k (psPubKey p)"
| "clashes k (RemovePeer key del) \<longleftrightarrow> False"
| "clashes k (UpdatePeer p clr psk) \<longleftrightarrow> False"

text \<open>
  Two trees of one identity whose messages, as the device is asked to authenticate them, differ
  and have the same tag.
\<close>

definition sharedCollision :: "size_tags \<Rightarrow> (string \<Rightarrow> bytes \<Rightarrow> bytes) \<Rightarrow> Tree \<Rightarrow> Tree \<Rightarrow> bool" where
  "sharedCollision sz h t t' \<longleftrightarrow>
     (case (Canonical sz (IfPubKey t) (IfRaw t) (map recordOf (Peers t)),
            Canonical sz (IfPubKey t') (IfRaw t') (map recordOf (Peers t'))) of
        (Inr m, Inr m') \<Rightarrow> m \<noteq> m' \<and> h (IfKID t) m = h (IfKID t') m'
      | _ \<Rightarrow> False)"

context key_store
begin

lemma edit_holds:
  assumes "holds sz h (K d) t" and "runEdit fuel sz c tok e t d = (Inr r, d')" and "parsedEdit sz e" and "\<not> clashes (K d) e"
  shows "\<exists>t'. holds sz h (K d') t' \<and> settings t' = settings t \<and> editedPeers sz (K d) e (Peers t) (Peers t')"
proof (cases e)
  case (AddPeer p psk atHead adopt)
  with assms have "peerIndex (psPubKey p) t = None" by (auto simp: peerAddTo_def split: if_splits)
  then have "psPubKey p \<notin> cpPubKey ` set (Peers t)" by (simp add: peerIndex_None)
  with AddPeer assms add_holds [OF assms(1)] show ?thesis by (fastforce dest: ParsePeerSpec_specOk)
next
  case (RemovePeer key del)
  with assms have "peerRemoveFrom sz c tok key del t d = (Inr r, d')" by simp
  from remove_holds [OF assms(1) this] RemovePeer show ?thesis
    by (intro exI [of _ "canonTree r"]) auto
next
  case (UpdatePeer p clr psk)
  with assms have "peerUpdateIn sz c tok p clr psk t d = (Inr r, d')" "wf_Peer (specPeer p None)"
    by (auto simp: specOk_def dest: ParsePeerSpec_specOk)
  from update_holds [OF assms(1) this] UpdatePeer show ?thesis
    by (intro exI [of _ "canonTree r"]) auto
qed

lemma blind_store: "\<not> refs_clear (K d) \<Longrightarrow> \<not> isOk (fst (LoadIdentity fuel sz c tok kid d))"
proof
  assume "\<not> refs_clear (K d)" "isOk (fst (LoadIdentity fuel sz c tok kid d))"
  moreover from this obtain t d' where "LoadIdentity fuel sz c tok kid d = (Inr t, d')" by (metis isOk_iff prod.collapse)
  ultimately show False using load_sound by (auto simp: holds_def)
qed

lemma edit_loads:
  assumes "LoadIdentity fuel sz c tok kid d = (Inr t, d0)" and "runEdit fuel sz c tok e t d0 = (Inr r, d1)" and "parsedEdit sz e"
  shows "if clashes (K d0) e then \<forall>n kid'. \<not> isOk (fst (LoadIdentity n sz c tok kid' d1))
     else \<exists>t'. (\<forall>n. length (K d1) < 50 * n \<longrightarrow> fst (LoadIdentity n sz c tok kid d1) = Inr t') \<and>
       settings t' = settings t \<and> editedPeers sz (K d0) e (Peers t) (Peers t')"
proof (cases "clashes (K d0) e")
  case True
  from load_sound [OF assms(1)] have l: "holds sz h (K d0) t" by auto
  have "\<not> refs_clear (K d1)"
    using True assms(2,3) add_clash [OF l] by (cases e) (auto dest: ParsePeerSpec_specOk)
  with True blind_store show ?thesis by simp
next
  case False
  from load_sound [OF assms(1)] have l: "holds sz h (K d0) t" "IfKID t = kid" by auto
  from edit_holds [OF l(1) assms(2,3) False] obtain t' where t': "holds sz h (K d1) t'" "settings t' = settings t"
    "editedPeers sz (K d0) e (Peers t) (Peers t')" by blast
  have "IfKID t' = kid" using t'(2) l(2) by (simp add: settings_def)
  with load_complete [OF t'(1)] have "fst (LoadIdentity n sz c tok kid d1) = Inr t'" if "length (K d1) < 50 * n" for n
    using that by (metis fst_conv)
  with t' False show ?thesis by auto
qed

text \<open>A record is one per key: an update of it under one identity is seen by every other.\<close>

lemma shared_update:
  assumes "holds sz h (K d) t" and h2: "holds sz h (K d) t2" and ne: "IfKID t2 \<noteq> IfKID t"
    and "peerUpdateIn sz c tok p clr psk t d = (Inr r, d')" and "wf_Peer (specPeer p None)"
    and q: "q \<in> set (Peers t2)" "cpPubKey q = psPubKey p" and ch: "\<forall>x \<in> set (Peers r). cpPubKey x = psPubKey p \<longrightarrow> cpRaw x \<noteq> cpRaw q"
    and h2': "holds sz h (K d') t2'" "IfKID t2' = IfKID t2"
  shows "sharedCollision sz h t2 t2'"
proof -
  from update_holds [OF assms(1,4,5)] obtain i enc where hr: "holds sz h (K d') (canonTree r)"
    and i: "i < length (Peers t)" "cpPubKey (Peers t ! i) = psPubKey p"
    and rest: "\<And>magic kid l raw pk. kid \<noteq> cpKID (Peers t ! i) \<Longrightarrow> kid \<noteq> IfKID t \<Longrightarrow>
      stored sz (K d) magic kid l raw pk \<Longrightarrow> stored sz (K d') magic kid l raw pk"
    and len: "i < length (Peers (canonTree r))" "cpPubKey (Peers (canonTree r) ! i) = psPubKey p" by auto
  let ?x = "Peers (canonTree r) ! i"
  note id2 = holds_identity [OF h2] and id2' = holds_identity [OF h2'(1)]
  have "stored sz (K d) MagicPeer (cpKID (Peers t ! i)) (cpLabel (Peers t ! i)) (cpRaw (Peers t ! i)) (cpPubKey (Peers t ! i))"
    using holds_sealable [OF assms(1) nth_mem [OF i(1)]] by (simp add: sealable_def)
  then have "IfKID t2 \<noteq> cpKID (Peers t ! i)" using peer_not_identity id2 by metis
  then have "stored sz (K d') MagicInterface (IfKID t2) (IfLabel t2) (IfRaw t2) (IfPubKey t2)" using rest ne id2 by blast
  with stored_unique id2' h2'(2) have raw: "IfRaw t2' = IfRaw t2" "IfPubKey t2' = IfPubKey t2" by metis+
  then have "Iface t2' = Iface t2" using h2 h2'(1) by (auto simp: holds_def tree_ok_def)
  moreover obtain m m' where m: "Canonical sz (IfPubKey t2) (IfRaw t2) (map recordOf (Peers t2)) = Inr m" "MAC (Iface t2) = h (IfKID t2) m"
    and m': "Canonical sz (IfPubKey t2) (IfRaw t2) (map recordOf (Peers t2')) = Inr m'" "MAC (Iface t2') = h (IfKID t2) m'"
    using h2 h2' raw by (auto simp: holds_def)
  ultimately have "h (IfKID t2) m = h (IfKID t2) m'" by simp
  moreover have "m \<noteq> m'"
  proof
    assume "m = m'"
    have wf: "\<forall>x \<in> set (map recordOf (Peers t2)). wf_PeerRecord sz x" "\<forall>x \<in> set (map recordOf (Peers t2')). wf_PeerRecord sz x"
      using h2 h2'(1) by (auto simp: holds_def tree_ok_def peer_ok_def wf_PeerRecord_def recordOf_def)
    have "length (IfRaw t2) = Size sz" "length (IfPubKey t2) = PubKeyLen" using h2 by (auto simp: holds_def tree_ok_def)
    with Canonical_inject [OF m(1) m'(1) [folded \<open>m = m'\<close>] _ _ _ _ wf]
    have "mset (map recordOf (Peers t2)) = mset (map recordOf (Peers t2'))" by simp
    then have "recordOf q \<in> set (map recordOf (Peers t2'))" using q(1) by (metis image_eqI list.set_map set_mset_mset)
    then obtain q' where q': "q' \<in> set (Peers t2')" "recordOf q' = recordOf q" by auto
    have x: "sealable sz (K d') ?x" "peer_ok sz ?x" "sealable sz (K d') q'" "peer_ok sz q'"
      using holds_sealable [OF hr nth_mem [OF len(1)]] holds_sealable [OF h2'(1) q'(1)] hr h2'(1) q'(1) nth_mem [OF len(1)]
      by (auto simp: holds_def tree_ok_def)
    have "cpPubKey q' = psPubKey p" "cpRaw q' = cpRaw q" using q' q(2) by (auto simp: recordOf_def)
    moreover have "cpKID ?x = cpKID q'" using x len(2) calculation by (simp add: peer_ok_def)
    moreover from this have "cpRaw ?x = cpRaw q'" using x stored_unique unfolding sealable_def by metis
    moreover have "Peers r ! i \<in> set (Peers r)" "cpPubKey (Peers r ! i) = psPubKey p" "cpRaw ?x = cpRaw (Peers r ! i)"
      using len by (simp_all add: canonTree_def)
    ultimately show False using ch by auto
  qed
  ultimately show ?thesis using m(1) m'(1) raw h2'(2) by (auto simp: sharedCollision_def)
qed

lemma shared_breaks:
  assumes "LoadIdentity n1 sz c tok kid d0 = (Inr t, d1)" and "LoadIdentity n2 sz c tok kid2 d1 = (Inr t2, d)"
    and "kid2 \<noteq> kid" and "peerUpdateIn sz c tok p clr psk t d = (Inr r, d')" and "specOk p"
    and "q \<in> set (Peers t2)" "cpPubKey q = psPubKey p" and "\<forall>x \<in> set (Peers r). cpPubKey x = psPubKey p \<longrightarrow> cpRaw x \<noteq> cpRaw q"
  shows "(case fst (LoadIdentity n sz c tok kid2 d') of Inl _ \<Rightarrow> True | Inr t2' \<Rightarrow> sharedCollision sz h t2 t2')"
proof (cases "isOk (fst (LoadIdentity n sz c tok kid2 d'))")
  case True
  then obtain t2' d'' where l: "LoadIdentity n sz c tok kid2 d' = (Inr t2', d'')" by (metis isOk_iff prod.collapse)
  note t1 = load_sound [OF assms(1)] and t2 = load_sound [OF assms(2)] and t2' = load_sound [OF l]
  have k: "K d = K d0" "K d = K d1" using t1 t2 by auto
  have h1: "holds sz h (K d) t" "holds sz h (K d) t2" "IfKID t2 \<noteq> IfKID t" "wf_Peer (specPeer p None)"
    using t1 t2 k assms(3,5) by (auto simp: specOk_def)
  have "holds sz h (K d') t2'" "IfKID t2' = IfKID t2" using t2 t2' by auto
  from shared_update [OF h1(1-3) assms(4) h1(4) assms(6-8) this] l show ?thesis by simp
qed (auto simp: isOk_iff split: sum.splits)

end

text \<open>
  C1: the peer commands implement the edits.  On every device that behaves as a key store, when
  a configuration was loaded and an edit of it succeeds, then the next load succeeds and
  returns the abstractly edited configuration: the identity and the interface's settings are
  untouched, every other peer is unchanged and in its place, and the peer concerned is added
  where asked, dropped, or replaced in place.  A peer that was added is the one asked for, or,
  when the device had its key, what the device stored for it, which is the record asked for or
  was adopted and carries no pre-shared key.  There is exactly one exception: an added peer
  whose four-byte reference another record answers to.  The command does not look for this and
  succeeds, and afterwards no identity of the device loads.
\<close>

theorem edits_refine:
  assumes "key_store c tok K h" and "LoadIdentity fuel sz c tok kid d = (Inr t, d0)"
    and "runEdit fuel sz c tok e t d0 = (Inr r, d1)" and "parsedEdit sz e"
  shows "if clashes (K d0) e then \<forall>n kid'. \<not> isOk (fst (LoadIdentity n sz c tok kid' d1))
     else \<exists>t'. (\<forall>n. length (K d1) < 50 * n \<longrightarrow> fst (LoadIdentity n sz c tok kid d1) = Inr t') \<and>
       settings t' = settings t \<and> editedPeers sz (K d0) e (Peers t) (Peers t')"
  using key_store.edit_loads [OF assms(1)] assms(2-4) by blast

text \<open>
  C2: the loader decides whether a device holds a configuration.  With fuel for the pages the
  store fills, \<open>LoadIdentity\<close> returns a tree exactly when the store holds that tree: the
  identity's and every listed peer's record are stored under the identifiers their keys derive,
  no two peer records of the device share a reference, and the tag is the device's over the
  canonical message.
\<close>

theorem load_decides_holds:
  assumes "key_store c tok K h" and "length (K d) < 50 * fuel"
  shows "fst (LoadIdentity fuel sz c tok kid d) = Inr t \<longleftrightarrow> holds sz h (K d) t \<and> IfKID t = kid"
proof -
  from key_store.load_iff [OF assms(1), of d fuel] assms(2)
  have "(\<exists>d'. LoadIdentity fuel sz c tok kid d = (Inr t, d')) \<longleftrightarrow> holds sz h (K d) t \<and> IfKID t = kid" by blast
  moreover have "(\<exists>d'. LoadIdentity fuel sz c tok kid d = (Inr t, d')) \<longleftrightarrow> fst (LoadIdentity fuel sz c tok kid d) = Inr t"
    by (metis fst_conv prod.collapse)
  ultimately show ?thesis by simp
qed

text \<open>
  C36: one shared reference blinds every configuration.  References are four bytes; once two
  peer records of a device answer to the same one, no identity of the device loads any more,
  whether or not its configuration uses either record.
\<close>

theorem shared_reference_blocks_all:
  assumes "key_store c tok K h" and "\<not> refs_clear (K d)"
  shows "\<not> isOk (fst (LoadIdentity fuel sz c tok kid d))"
  using key_store.blind_store [OF assms] .

text \<open>
  C17: a shared peer ties configurations together.  The device keeps one record per public
  key, and every tag covers the records of its peers.  When \<open>peer update\<close> changes the record of
  a peer that another identity's configuration lists too, that other configuration, which
  loaded before, does not load afterwards; unless the message the device authenticated for it
  before and the one it authenticates now, two different messages, have the same tag.
\<close>

theorem shared_update_breaks_others:
  assumes "key_store c tok K h" and "LoadIdentity n1 sz c tok kid d0 = (Inr t, d1)" and "LoadIdentity n2 sz c tok kid2 d1 = (Inr t2, d)"
    and "kid2 \<noteq> kid" and "peerUpdateIn sz c tok p clr psk t d = (Inr r, d')" and "specOk p"
    and "q \<in> set (Peers t2)" "cpPubKey q = psPubKey p" and "\<forall>x \<in> set (Peers r). cpPubKey x = psPubKey p \<longrightarrow> cpRaw x \<noteq> cpRaw q"
  shows "(case fst (LoadIdentity n sz c tok kid2 d') of Inl _ \<Rightarrow> True | Inr t2' \<Rightarrow> sharedCollision sz h t2 t2')"
  using key_store.shared_breaks [OF assms(1-3)] assms(4-) by blast

end
