(* ===== verification/Sha1Eval.thy ===== *)
theory Sha1Eval
  imports Descr
begin

text \<open>
  The digest computed on integers, so that identifiers of concrete keys can be evaluated: the
  rounds of \<open>Sha1\<close> on the values of their words.
\<close>

unbundle bit_operations_syntax

definition rl :: "nat \<Rightarrow> int \<Rightarrow> int" where "rl n x = take_bit 32 (push_bit n x) OR drop_bit (32 - n) x"

definition sha1_fI :: "nat \<Rightarrow> int \<Rightarrow> int \<Rightarrow> int \<Rightarrow> int" where
  "sha1_fI t b c d = (if t < 20 then (b AND c) OR (take_bit 32 (NOT b) AND d)
      else if t < 40 then b XOR c XOR d
      else if t < 60 then (b AND c) OR (b AND d) OR (c AND d)
      else b XOR c XOR d)"

definition sha1_kI :: "nat \<Rightarrow> int" where "sha1_kI t = (if t < 20 then 0x5A827999 else if t < 40 then 0x6ED9EBA1
               else if t < 60 then 0x8F1BBCDC else 0xCA62C1D6)"

fun roundsI :: "nat \<Rightarrow> nat \<Rightarrow> int list \<Rightarrow> int \<Rightarrow> int \<Rightarrow> int \<Rightarrow> int \<Rightarrow> int \<Rightarrow> int list" where
  "roundsI 0 t ws a b c d e = [a, b, c, d, e]" 
| "roundsI (Suc n) t ws a b c d e = 
   roundsI n (Suc t) (tl ws @ [rl 1 (ws ! 13 XOR ws ! 8 XOR ws ! 2 XOR ws ! 0)])
     (take_bit 32 (rl 5 a + sha1_fI t b c d + e + sha1_kI t + hd ws)) a (rl 30 b) c d"

fun ints :: "sha1_state \<Rightarrow> int list" where "ints (a, b, c, d, e) = map uint [a, b, c, d, e]"

lemma uint_rotl: "uint (rotl n w) = rl n (uint w)"
proof -
  have "take_bit 32 (uint w) = uint w" using uint_lt2p [of w] by (simp add: take_bit_int_eq_self)
  then show ?thesis by (simp add: rotl_def rl_def unsigned_or_eq unsigned_push_bit_eq unsigned_drop_bit_eq)
qed

lemma uint_f: "uint (sha1_f t b c d) = sha1_fI t (uint b) (uint c) (uint d)"
  by (simp add: sha1_f_def sha1_fI_def unsigned_or_eq unsigned_and_eq unsigned_xor_eq unsigned_not_eq)

lemma uint_k: "uint (sha1_k t) = sha1_kI t"
  by (simp add: sha1_k_def sha1_kI_def)

lemma uint_add: "uint (x + y :: u32) = take_bit 32 (uint x + uint y)"
  by (simp add: uint_word_ariths take_bit_eq_mod)

lemma rounds_ints: "length ws = 16 \<Longrightarrow> roundsI n t (map uint ws) (uint a) (uint b) (uint c) (uint d) (uint e) =
   ints (sha1_rounds n t ws (a, b, c, d, e))"
proof (induction n arbitrary: t ws a b c d e)
  case (Suc n)
  let ?w = "tl ws @ [sha1_next ws]" and ?a = "rotl 5 a + sha1_f t b c d + e + sha1_k t + hd ws"
  have ne: "ws \<noteq> []" using Suc.prems by auto
  have w: "map uint ?w = tl (map uint ws) @ [rl 1 (map uint ws ! 13 XOR map uint ws ! 8 XOR map uint ws ! 2 XOR map uint ws ! 0)]"
    using Suc.prems by (simp add: sha1_next_def uint_rotl unsigned_xor_eq map_tl)
  have a: "uint ?a = take_bit 32 (rl 5 (uint a) + sha1_fI t (uint b) (uint c) (uint d) + uint e + sha1_kI t + hd (map uint ws))"
    by (simp add: uint_add uint_rotl uint_f uint_k list.map_sel(1) [OF ne] take_bit_eq_mod mod_add_left_eq mod_add_right_eq)
  have "roundsI n (Suc t) (map uint ?w) (uint ?a) (uint a) (uint (rotl 30 b)) (uint c) (uint d)
     = ints (sha1_rounds n (Suc t) ?w (?a, a, rotl 30 b, c, d))"
    by (rule Suc.IH) (use Suc.prems in simp)
  then show ?case unfolding w a uint_rotl by (simp add: sha1_round_def)
qed simp

lemma roundsI_step: "roundsI (numeral k) t [w0,w1,w2,w3,w4,w5,w6,w7,w8,w9,w10,w11,w12,w13,w14,w15] a b c d e = 
   roundsI (pred_numeral k) (Suc t) [w1,w2,w3,w4,w5,w6,w7,w8,w9,w10,w11,w12,w13,w14,w15, rl 1 (w13 XOR w8 XOR w2 XOR w0)]
     (take_bit 32 (rl 5 a + sha1_fI t b c d + e + sha1_kI t + w0)) a (rl 30 b) c d"
  by (simp add: numeral_eq_Suc)

lemma roundsI_step1: "roundsI (Suc 0) t [w0,w1,w2,w3,w4,w5,w6,w7,w8,w9,w10,w11,w12,w13,w14,w15] a b c d e = 
   roundsI 0 (Suc t) [w1,w2,w3,w4,w5,w6,w7,w8,w9,w10,w11,w12,w13,w14,w15, rl 1 (w13 XOR w8 XOR w2 XOR w0)]
     (take_bit 32 (rl 5 a + sha1_fI t b c d + e + sha1_kI t + w0)) a (rl 30 b) c d"
  by simp

lemmas sha1_eval = roundsI_step roundsI_step1 rl_def sha1_fI_def sha1_kI_def take_bit_eq_mod push_bit_eq_mult drop_bit_eq_div

lemma block_eval:
  assumes "length ws = 16" and "roundsI 80 0 (map uint ws) 0x67452301 0xEFCDAB89 0x98BADCFE 0x10325476 0xC3D2E1F0 = [a, b, c, d, e]"
  shows "sha1_rounds 80 0 ws sha1_init = (word_of_int a, word_of_int b, word_of_int c, word_of_int d, word_of_int e)"
proof -
  obtain a' b' c' d' e' where r: "sha1_rounds 80 0 ws sha1_init = (a', b', c', d', e')" by (metis prod_cases5)
  have "roundsI 80 0 (map uint ws) 0x67452301 0xEFCDAB89 0x98BADCFE 0x10325476 0xC3D2E1F0 = ints (a', b', c', d', e')"
    using rounds_ints [OF assms(1), of 80 0 "0x67452301" "0xEFCDAB89" "0x98BADCFE" "0x10325476" "0xC3D2E1F0"] r
    by (simp add: sha1_init_def)
  with assms(2) r show ?thesis by auto
qed

lemma replicate_numeral_Cons: "replicate (numeral k) x = x # replicate (pred_numeral k) x"
  by (simp add: numeral_eq_Suc)

lemma Sum_eval:
  assumes "length (sha1_pad m) = 64" "be_words (sha1_pad m) = ws" and "length ws = 16"
    and "roundsI 80 0 (map uint ws) 0x67452301 0xEFCDAB89 0x98BADCFE 0x10325476 0xC3D2E1F0 = [a, b, c, d, e]"
  shows "sha1_Sum m = concat (map u32_bytes [0x67452301 + word_of_int a, 0xEFCDAB89 + word_of_int b,
    0x98BADCFE + word_of_int c, 0x10325476 + word_of_int d, 0xC3D2E1F0 + word_of_int e])"
proof -
  have "sha1_blocks 1 (sha1_pad m) sha1_init = sha1_add sha1_init (sha1_rounds 80 0 ws sha1_init)"
    using assms(1,2) by simp
  with block_eval [OF assms(3,4)] assms(1) show ?thesis
    by (simp add: sha1_Sum_def sha1_add_def sha1_init_def)
qed

lemmas pad_eval = sha1_pad_def be_bytes_def replicate_numeral_Cons le_bytes_numeral

lemma sha1_Sum_empty:
  "sha1_Sum [] = [218, 57, 163, 238, 94, 107, 75, 13, 50, 85, 191, 239, 149, 96, 24, 144, 175, 216, 7, 9]"
proof -
  have w: "length (sha1_pad []) = 64"
    "be_words (sha1_pad []) = [0x80000000, 0, 0, 0, 0, 0, 0, 0, 0, 0, 0, 0, 0, 0, 0, 0]"
    by (simp_all add: pad_eval)
  have "roundsI 80 0 (map uint [0x80000000, 0, 0, 0, 0, 0, 0, 0, 0, 0, 0, 0, 0, 0, 0, 0 :: u32])
      0x67452301 0xEFCDAB89 0x98BADCFE 0x10325476 0xC3D2E1F0 = [0x72f480ed, 0x6e9d9f84, 0x999ae2f1, 0x852dc41a, 0xec052519]"
    by (simp add: sha1_eval del: roundsI.simps(2))
  from Sum_eval [OF w _ this] show ?thesis by (simp add: u32_bytes_def)
qed

lemma sha1_Sum_3:
  "sha1_Sum (replicate 32 3) = [137, 244, 156, 141, 23, 245, 9, 180, 185, 15, 139, 8, 72, 200, 244, 77, 228, 99, 196, 244]"
proof -
  have w: "length (sha1_pad (replicate 32 3)) = 64"
    "be_words (sha1_pad (replicate 32 3)) = [0x3030303, 0x3030303, 0x3030303, 0x3030303, 0x3030303, 0x3030303, 0x3030303, 0x3030303, 0x80000000, 0, 0, 0, 0, 0, 0, 0x100]"
    by (simp_all add: pad_eval)
  have "roundsI 80 0 (map uint [0x3030303, 0x3030303, 0x3030303, 0x3030303, 0x3030303, 0x3030303, 0x3030303, 0x3030303, 0x80000000, 0, 0, 0, 0, 0, 0, 0x100 :: u32])
      0x67452301 0xEFCDAB89 0x98BADCFE 0x10325476 0xC3D2E1F0 = [0x22af798c, 0x28275e2b, 0x2054ae0a, 0x38969fd7, 0x2090e304]"
    by (simp add: sha1_eval del: roundsI.simps(2))
  from Sum_eval [OF w _ this] show ?thesis by (simp add: u32_bytes_def)
qed

lemma sha1_Sum_5:
  "sha1_Sum (replicate 32 5) = [3, 96, 232, 16, 172, 186, 44, 72, 215, 207, 194, 156, 114, 28, 38, 190, 50, 129, 45, 43]"
proof -
  have w: "length (sha1_pad (replicate 32 5)) = 64"
    "be_words (sha1_pad (replicate 32 5)) = [0x5050505, 0x5050505, 0x5050505, 0x5050505, 0x5050505, 0x5050505, 0x5050505, 0x5050505, 0x80000000, 0, 0, 0, 0, 0, 0, 0x100]"
    by (simp_all add: pad_eval)
  have "roundsI 80 0 (map uint [0x5050505, 0x5050505, 0x5050505, 0x5050505, 0x5050505, 0x5050505, 0x5050505, 0x5050505, 0x80000000, 0, 0, 0, 0, 0, 0, 0x100 :: u32])
      0x67452301 0xEFCDAB89 0x98BADCFE 0x10325476 0xC3D2E1F0 = [0x9c1bc50f, 0xbcec80bf, 0x3f14e59e, 0x61e9d248, 0x6eae4b3b]"
    by (simp add: sha1_eval del: roundsI.simps(2))
  from Sum_eval [OF w _ this] show ?thesis by (simp add: u32_bytes_def)
qed

lemma sha1_Sum_7:
  "sha1_Sum (replicate 32 7) = [0, 105, 106, 184, 212, 33, 248, 22, 54, 108, 19, 126, 198, 104, 19, 253, 33, 141, 89, 39]"
proof -
  have w: "length (sha1_pad (replicate 32 7)) = 64"
    "be_words (sha1_pad (replicate 32 7)) = [0x7070707, 0x7070707, 0x7070707, 0x7070707, 0x7070707, 0x7070707, 0x7070707, 0x7070707, 0x80000000, 0, 0, 0, 0, 0, 0, 0x100]"
    by (simp_all add: pad_eval)
  have "roundsI 80 0 (map uint [0x7070707, 0x7070707, 0x7070707, 0x7070707, 0x7070707, 0x7070707, 0x7070707, 0x7070707, 0x80000000, 0, 0, 0, 0, 0, 0, 0x100 :: u32])
      0x67452301 0xEFCDAB89 0x98BADCFE 0x10325476 0xC3D2E1F0 = [0x992447b7, 0xe4544c8d, 0x9db13680, 0xb635bf87, 0x5dba7737]"
    by (simp add: sha1_eval del: roundsI.simps(2))
  from Sum_eval [OF w _ this] show ?thesis by (simp add: u32_bytes_def)
qed

lemma KID_empty: "KID [] = ''da39a3ee5e6b4b0d3255bfef95601890''"
  by (simp add: KID_def sha1_Sum_empty KIDLen_def hex_char_def char_of_def bit_0)

end
