(* ===== verification/MemStore.thy ===== *)
theory MemStore
  imports Edits Sha1Eval
begin

text \<open>
  A device in memory: the key store as a list, with the identifiers the client derives.  It is
  a key store in the sense of \<open>Store\<close>, so what is proved of every such device is about
  something; and the examples of the peer commands run on it.
\<close>

definition memKeys :: "store \<Rightarrow> store" where
  "memKeys d = (if distinct (map kidOf d) then d else [])"

definition memClient :: "(string \<Rightarrow> bytes \<Rightarrow> bytes) \<Rightarrow> store Client" where
  "memClient h = deafClient
     \<lparr>SearchKeys := (\<lambda>_ pat off n d. (Inr (int (length (matching pat (memKeys d))), take n (drop off (matching pat (memKeys d)))), d)),
      GetPubKey := (\<lambda>_ kid d. case find (\<lambda>x. kidOf x = kid) (memKeys d) of
          None \<Rightarrow> (Inl (HemError 404 ''absent''), d)
        | Some x \<Rightarrow> (Inr \<lparr>keyPubKey = snd x, keyTypeOf = keyType\<rparr>, d)),
      ImportKey := (\<lambda>_ l ty pk b d. if KID pk \<in> kidOf ` set (memKeys d) then (Inl (HemError 409 ''exists''), d)
        else (Inr (KID pk), memKeys d @ [(\<lparr>keKID = KID pk, keLabel = l, keDescr = b, keCreated = 0\<rparr>, pk)])),
      UpdateKey := (\<lambda>_ kid l b d. if kid \<in> kidOf ` set (memKeys d) then (Inr (), map (rewrite kid l b) (memKeys d))
        else (Inl (HemError 404 ''absent''), d)),
      DeleteKey := (\<lambda>_ kid d. (Inr (), filter (\<lambda>x. kidOf x \<noteq> kid) (memKeys d))),
      HmacHash := (\<lambda>_ kid msg _ d. (Inr (take MACLen (h kid msg @ zeroMAC)), d)),
      HmacVerify := (\<lambda>_ kid msg tag _ d. if tag = take MACLen (h kid msg @ zeroMAC) then (Inr (), d) else (Inl (HemError 406 ''mismatch''), d)),
      CipherWrap := (\<lambda>_ _ b _ d. (Inr (take 40 (b @ replicate 40 9)), d))\<rparr>"

definition memTag :: "(string \<Rightarrow> bytes \<Rightarrow> bytes) \<Rightarrow> string \<Rightarrow> bytes \<Rightarrow> bytes" where
  "memTag h kid msg = take MACLen (h kid msg @ zeroMAC)"

lemma map_kidOf_rewrite [simp]: "map kidOf (map (rewrite kid l b) k) = map kidOf k"
  by (induction k) simp_all

lemma distinct_memKeys [simp]: "distinct (map kidOf (memKeys d))"
  by (simp add: memKeys_def)

lemma memKeys_id: "distinct (map kidOf d) \<Longrightarrow> memKeys d = d"
  by (simp add: memKeys_def)

lemma memKeys_changes [simp]:
  "memKeys (map (rewrite kid l b) (memKeys d)) = map (rewrite kid l b) (memKeys d)"
  "memKeys (filter P (memKeys d)) = filter P (memKeys d)"
  "KID pk \<notin> kidOf ` set (memKeys d) \<Longrightarrow>
   memKeys (memKeys d @ [(\<lparr>keKID = KID pk, keLabel = l, keDescr = b, keCreated = 0\<rparr>, pk)]) =
     memKeys d @ [(\<lparr>keKID = KID pk, keLabel = l, keDescr = b, keCreated = 0\<rparr>, pk)]"
proof -
  show "memKeys (map (rewrite kid l b) (memKeys d)) = map (rewrite kid l b) (memKeys d)"
    by (rule memKeys_id) (simp only: map_kidOf_rewrite distinct_memKeys)
  show "memKeys (filter P (memKeys d)) = filter P (memKeys d)"
    by (rule memKeys_id) (simp add: distinct_map_filter)
  show "memKeys (memKeys d @ [(\<lparr>keKID = KID pk, keLabel = l, keDescr = b, keCreated = 0\<rparr>, pk)]) =
     memKeys d @ [(\<lparr>keKID = KID pk, keLabel = l, keDescr = b, keCreated = 0\<rparr>, pk)]" if "KID pk \<notin> kidOf ` set (memKeys d)"
    by (rule memKeys_id) (use that in \<open>simp add: kidOf_def\<close>)
qed

lemma rewrite_absent: "kid \<notin> kidOf ` set k \<Longrightarrow> map (rewrite kid l b) k = k"
  by (induction k) (auto simp: rewrite_def kidOf_def)

lemma find_memKeys: "(e, pk) \<in> set (memKeys d) \<Longrightarrow> find (\<lambda>x. kidOf x = keKID e) (memKeys d) = Some (e, pk)"
proof -
  assume e: "(e, pk) \<in> set (memKeys d)"
  then have "find (\<lambda>x. kidOf x = keKID e) (memKeys d) \<noteq> None" by (auto simp: find_None_iff kidOf_def)
  then obtain x where x: "find (\<lambda>x. kidOf x = keKID e) (memKeys d) = Some x" by blast
  from find_SomeD [OF this] e distinct_memKeys [of d] have "x = (e, pk)"
    by (auto simp: distinct_map inj_on_def kidOf_def)
  with x show ?thesis by simp
qed

interpretation mem: key_store "memClient h" returnS memKeys "memTag h" for h
proof (unfold_locales, goal_cases)
  case (4 e pk d t)
  then show ?case using find_memKeys [of e pk d] by (simp add: memClient_def)
next
  case (10 t kid)
  show ?case by (auto simp: honest_hmac_def memClient_def memTag_def MACLen_def)
qed (auto simp: memClient_def rewrite_absent split: option.splits if_splits)

subsection \<open>The example configuration in memory\<close>

definition exampleStore :: "bytes \<Rightarrow> store" where
  "exampleStore tag =
     [(\<lparr>keKID = KID exampleIfKey, keLabel = ''id'', keDescr = exampleIfRecord tag, keCreated = 1\<rparr>, exampleIfKey),
      (\<lparr>keKID = KID examplePeerKey, keLabel = ''peer'', keDescr = examplePeerRecord, keCreated = 2\<rparr>, examplePeerKey)]"

lemma example_refs: "MakePeerRef exampleIfKey = [3, 96, 232, 16]" "MakePeerRef examplePeerKey = [137, 244, 156, 141]"
  by (simp_all add: MakePeerRef_def exampleIfKey_def examplePeerKey_def sha1_Sum_3 sha1_Sum_5 PeerRefLen_def)

lemma example_kids: "KID exampleIfKey \<noteq> KID examplePeerKey"
  using PeerRefFromKID_KID [of exampleIfKey] PeerRefFromKID_KID [of examplePeerKey] by (auto simp: example_refs)

lemma exampleStore_keys [simp]: "memKeys (exampleStore tag) = exampleStore tag"
  using example_kids by (simp add: memKeys_def exampleStore_def kidOf_def)

lemma exampleStore_mem:
  "KID exampleIfKey \<in> kidOf ` set (exampleStore tag)" "KID examplePeerKey \<in> kidOf ` set (exampleStore tag)"
  by (simp_all add: exampleStore_def kidOf_def)

lemma exampleIfRecord_magic:
  "length tag = MACLen \<Longrightarrow> take (length (bytes_of MagicInterface)) (exampleIfRecord tag) = bytes_of MagicInterface"
  using Interface_Encode_magic [OF exampleIf_wf exampleIf_Encode] by blast

lemma examplePeerRecord_magic: "take (length (bytes_of MagicPeer)) examplePeerRecord = bytes_of MagicPeer"
  using Peer_Encode_magic [OF examplePeer_Encode] by blast

lemma storedI:
  "(e, pk) \<in> set k \<Longrightarrow> take (length (bytes_of magic)) (keDescr e) = bytes_of magic \<Longrightarrow> Normalize sz (keDescr e) = Inr raw \<Longrightarrow>
   stored sz k magic (keKID e) (keLabel e) raw pk"
  by (auto simp: stored_def)

lemma exampleStore_stored:
  assumes "length tag = MACLen"
  shows "stored size_descr64 (exampleStore tag) MagicInterface (KID exampleIfKey) ''id'' (exampleIfRecord tag) exampleIfKey"
    and "stored size_descr64 (exampleStore tag) MagicPeer (KID examplePeerKey) ''peer'' examplePeerRecord examplePeerKey"
proof -
  have "Normalize size_descr64 (exampleIfRecord tag) = Inr (exampleIfRecord tag)"
    "Normalize size_descr64 examplePeerRecord = Inr examplePeerRecord"
    by (rule Normalize_padded; simp add: example_lengths examplePeerRecord_def)+
  moreover note exampleIfRecord_magic [OF assms] examplePeerRecord_magic
  ultimately show
    "stored size_descr64 (exampleStore tag) MagicInterface (KID exampleIfKey) ''id'' (exampleIfRecord tag) exampleIfKey"
    "stored size_descr64 (exampleStore tag) MagicPeer (KID examplePeerKey) ''peer'' examplePeerRecord examplePeerKey"
    using storedI [of "fst (exampleStore tag ! 0)" exampleIfKey "exampleStore tag" MagicInterface size_descr64 "exampleIfRecord tag"]
      storedI [of "fst (exampleStore tag ! 1)" examplePeerKey "exampleStore tag" MagicPeer size_descr64 examplePeerRecord]
    by (simp_all add: exampleStore_def)
qed

lemma exampleStore_peers:
  "length tag = MACLen \<Longrightarrow> map keKID (matching (bytes_of MagicPeer) (exampleStore tag)) = [KID examplePeerKey]"
  using exampleIfRecord_magic [of tag] magics_differ [of "exampleIfRecord tag"]
    examplePeerRecord_magic by (auto simp: matching_def exampleStore_def)

definition exampleTreeOf :: "bytes \<Rightarrow> bytes \<Rightarrow> Tree" where
  "exampleTreeOf key tag = (exampleTree tag)\<lparr>IfKID := KID key, IfPubKey := key\<rparr>"

lemma exampleTreeOf_self: "exampleTreeOf exampleIfKey tag = exampleTree tag"
  by (simp add: exampleTreeOf_def exampleTree_def)

lemma example_holds:
  assumes "Canonical size_descr64 key (exampleIfRecord zeroMAC) examplePeers = Inr msg" and "memTag h (KID key) msg = tag"
    and "stored size_descr64 k MagicInterface (KID key) ''id'' (exampleIfRecord tag) key"
    and "stored size_descr64 k MagicPeer (KID examplePeerKey) ''peer'' examplePeerRecord examplePeerKey"
    and "refs_clear k" and "length key = PubKeyLen"
  shows "holds size_descr64 (memTag h) k (exampleTreeOf key tag)"
proof -
  have l: "length tag = MACLen" using assms(2) by (auto simp: memTag_def MACLen_def)
  have dec: "DecodeInterface size_descr64 (exampleIfRecord tag) = Inr (canonInterface (exampleIf\<lparr>MAC := tag\<rparr>))"
    by (rule Interface_enc_dec [OF exampleIf_wf [OF l] exampleIf_Encode [OF l]])
  have pdec: "DecodePeer size_descr64 examplePeerRecord = Inr (canonPeer examplePeer)"
    by (rule Peer_enc_dec [OF examplePeer_wf examplePeer_Encode])
  have lens: "length examplePeerKey = PubKeyLen" "length examplePeerRecord = 64"
    by (simp_all add: examplePeerKey_def PubKeyLen_def examplePeerRecord_def)
  have "tree_ok size_descr64 (exampleTreeOf key tag)"
    using dec pdec lens assms(6) by (simp add: tree_ok_def peer_ok_def exampleTreeOf_def exampleTree_def example_lengths canonInterface_def exampleIf_def)
  moreover have "Canonical size_descr64 key (exampleIfRecord tag) examplePeers = Inr msg"
    using assms(1) by (simp add: example_Canonical_eq [OF l])
  moreover have "HasMAC (Iface (exampleTree tag))" "MAC (Iface (exampleTree tag)) = tag"
    by (simp_all add: exampleTree_def canonInterface_def exampleIf_def exampleInterface_def)
  moreover note example_records [of tag]
  ultimately show ?thesis using assms(2-5) unfolding holds_def by (simp add: exampleTree_def exampleTreeOf_def)
qed

lemma exampleStore_holds:
  assumes "Canonical size_descr64 exampleIfKey (exampleIfRecord zeroMAC) examplePeers = Inr msg"
    and "memTag h (KID exampleIfKey) msg = tag"
  shows "holds size_descr64 (memTag h) (exampleStore tag) (exampleTree tag)"
proof -
  have l: "length tag = MACLen" using assms(2) by (auto simp: memTag_def MACLen_def)
  have "refs_clear (exampleStore tag)" by (simp add: refs_clear_def exampleStore_peers [OF l] PeerRefFromKID_KID)
  from example_holds [OF assms exampleStore_stored [OF l] this example_lengths(1)] show ?thesis by (simp add: exampleTreeOf_self)
qed

text \<open>The peer's key is cleared and its label changed.\<close>

definition renamedSpec :: PeerSpec where
  "renamedSpec = exampleSpecPeer\<lparr>psLabel := ''office''\<rparr>"

definition renamedRecord :: bytes where
  "renamedRecord = pad size_descr64 (peerBytes (specPeer exampleSpecPeer None))"

lemma renamed_ok: "specOk renamedSpec" "specPeer renamedSpec w = specPeer exampleSpecPeer w" "psPubKey renamedSpec = examplePeerKey"
  by (simp_all add: specOk_def renamedSpec_def exampleSpecPeer_def specPeer_def wf_Peer_def examplePeerKey_def PubKeyLen_def)

definition renamedText :: string where
  "renamedText = ''pubkey=AwMDAwMDAwMDAwMDAwMDAwMDAwMDAwMDAwMDAwMDAwM=,label=office,endpoint=w.io:51820,allowed-ips=0.0.0.0/0''"

lemma renamed_parsed: "ParsePeerSpec size_descr64 renamedText = Inr renamedSpec"
  by (simp add: renamedText_def renamedSpec_def exampleSpecPeer_def examplePeerKey_def spec_eval text_eval)
    (simp add: eval_nat_numeral)

lemma renamed_Encode: "Peer_Encode size_descr64 (specPeer exampleSpecPeer None) = Inr renamedRecord"
proof -
  have "isOk (Peer_Encode size_descr64 (specPeer exampleSpecPeer None))"
    by (simp add: exampleSpecPeer_def specPeer_def encode_eval MaxHostname_def descr_lens)
  then show ?thesis by (auto simp: isOk_iff Peer_Encode_Inr renamedRecord_def)
qed

lemma example_resealed: "map cpPubKey ps = [examplePeerKey] \<Longrightarrow> resealed ((exampleTree tag)\<lparr>Peers := ps\<rparr>) = canonInterface (exampleIf\<lparr>MAC := zeroMAC\<rparr>)"
  by (cases ps) (auto simp: resealed_def exampleTree_def canonInterface_def exampleIf_def exampleInterface_def)

lemma example_reseals:
  assumes "map recordOf ps = [\<lparr>prPubKey = examplePeerKey, prDescr = b\<rparr>]" and "KID exampleIfKey \<in> kidOf ` set (memKeys d)"
    and l: "length tag = MACLen"
  shows "\<exists>t' d'. reseal size_descr64 (memClient h) returnS ((exampleTree tag)\<lparr>Peers := ps\<rparr>) d = (Inr t', d')"
proof -
  let ?t = "(exampleTree tag)\<lparr>Peers := ps\<rparr>" and ?i = "canonInterface (exampleIf\<lparr>MAC := zeroMAC\<rparr>)"
  have z: "length zeroMAC = MACLen" by simp
  have dec: "DecodeInterface size_descr64 (exampleIfRecord m) = Inr (canonInterface (exampleIf\<lparr>MAC := m\<rparr>))"
    if "length m = MACLen" for m by (rule Interface_enc_dec [OF exampleIf_wf [OF that] exampleIf_Encode [OF that]])
  have keys: "map cpPubKey ps = [examplePeerKey]" using assms(1) by (cases ps) (auto simp: recordOf_def)
  have wf: "wf_Interface (Iface ?t)" "wf_Interface ?i"
    using ifc.dec_canonical [OF dec [OF l]] ifc.dec_canonical [OF dec [OF z]] by (simp_all add: exampleTree_def)
  have enc: "Interface_Encode size_descr64 ?i = Inr (exampleIfRecord zeroMAC)"
    using ifc.dec_enc [OF dec [OF z]] by (simp add: Normalize_padded example_lengths)
  have "isOk (matchRefs (PeerRefs ?i) (map recordOf ps))"
    unfolding assms(1) by (simp add: isOk_iff matchRefs_iff exampleIf_def canonInterface_def)
  moreover have "length (map recordOf ps) \<le> MaxPeers size_descr64"
    unfolding assms(1) by (simp add: MaxPeers_def perPeer_def fixedLen_def deviceMsgLimit_def PubKeyLen_def Domain_def)
  ultimately obtain msg where msg: "Canonical size_descr64 exampleIfKey (exampleIfRecord zeroMAC) (map recordOf ps) = Inr msg"
    using Canonical_Encode [OF wf(2) enc] by metis
  show ?thesis
  proof (rule mem.reseal_succeeds [OF wf(1)])
    show "Interface_Encode size_descr64 (resealed ?t) = Inr (exampleIfRecord zeroMAC)"
      unfolding example_resealed [OF keys] by (rule enc)
    show "isOk (fst (UpdateKey (memClient h) u (IfKID ?t) l b d1))" if "memKeys d1 = memKeys d" for u l b d1
      using assms(2) that by (simp add: memClient_def exampleTree_def)
    show "Canonical size_descr64 (IfPubKey ?t) (exampleIfRecord zeroMAC) (map recordOf (Peers ?t)) = Inr msg"
      using msg by (simp add: exampleTree_def)
  qed
qed

lemma example_update:
  assumes "length tag = MACLen" and k: "memKeys k = k" "KID exampleIfKey \<in> kidOf ` set k" "KID examplePeerKey \<in> kidOf ` set k"
  shows "\<exists>r d'. peerUpdateIn size_descr64 (memClient h) returnS renamedSpec True None (exampleTree tag) k = (Inr r, d') \<and>
    map cpRaw (Peers r) = [renamedRecord]"
proof -
  let ?p = "\<lparr>cpKID = KID examplePeerKey, cpLabel = ''office'', cpPubKey = examplePeerKey, cpRaw = renamedRecord,
    cpPeer = specPeer exampleSpecPeer None\<rparr>"
  let ?k = "map (rewrite (KID examplePeerKey) ''office'' renamedRecord) k"
  have "KID exampleIfKey \<in> kidOf ` set ?k" using k(2) by (simp add: image_image)
  moreover have "memKeys ?k = ?k" using memKeys_changes(1) [of _ _ _ k] k(1) by simp
  ultimately obtain t' d' where
    r: "reseal size_descr64 (memClient h) returnS ((exampleTree tag)\<lparr>Peers := [?p]\<rparr>) ?k = (Inr t', d')"
    using example_reseals [of "[?p]" renamedRecord ?k tag h] assms(1) by (auto simp: recordOf_def)
  have ps: "Peers t' = [?p]" using reseal_Peers [OF r] by simp
  have ix: "peerIndex (psPubKey renamedSpec) (exampleTree tag) = Some 0"
    by (simp add: peerIndex_def exampleTree_def renamed_ok)
  have upd: "UpdateKey (memClient h) u (KID examplePeerKey) l b k = (Inr (), map (rewrite (KID examplePeerKey) l b) k)" for u l b
    using k by (simp add: memClient_def)
  have new: "(Peers (exampleTree tag))[0 := (Peers (exampleTree tag) ! 0)\<lparr>cpLabel := psLabel renamedSpec, cpRaw := renamedRecord,
      cpPeer := specPeer exampleSpecPeer None\<rparr>] = [?p]"
    by (simp add: exampleTree_def renamedSpec_def)
  have "cpKID (Peers (exampleTree tag) ! 0) = KID examplePeerKey" "psLabel renamedSpec = ''office''"
    by (simp_all add: exampleTree_def renamedSpec_def)
  with ix r new upd renamed_Encode ps show ?thesis
    by (simp add: peerUpdateIn_def updatedPSK_def bindS_apply Record_def renamed_ok mapErrS_def)
qed

lemma memKeys_full: "memKeys d = k \<Longrightarrow> k \<noteq> [] \<Longrightarrow> d = k"
  by (auto simp: memKeys_def split: if_splits)

lemma example_mem_load:
  "\<exists>tag. length tag = MACLen \<and> holds size_descr64 (memTag h) (exampleStore tag) (exampleTree tag) \<and>
     LoadIdentity 1 size_descr64 (memClient h) returnS (KID exampleIfKey) (exampleStore tag) = (Inr (exampleTree tag), exampleStore tag)"
proof -
  obtain msg where msg: "Canonical size_descr64 exampleIfKey (exampleIfRecord zeroMAC) examplePeers = Inr msg"
    using example_Canonical [of zeroMAC] by auto
  let ?tag = "memTag h (KID exampleIfKey) msg"
  have hh: "holds size_descr64 (memTag h) (exampleStore ?tag) (exampleTree ?tag)"
    by (rule exampleStore_holds [OF msg refl])
  have "length (exampleStore ?tag) < 50 * 1" by (simp add: exampleStore_def)
  with mem.load_complete [where d = "exampleStore ?tag" and fuel = 1] hh
  have "\<exists>d'. LoadIdentity 1 size_descr64 (memClient h) returnS (IfKID (exampleTree ?tag)) (exampleStore ?tag) = (Inr (exampleTree ?tag), d') \<and>
      memKeys d' = exampleStore ?tag" unfolding exampleStore_keys by blast
  moreover have "IfKID (exampleTree ?tag) = KID exampleIfKey" by (simp add: exampleTree_def)
  ultimately have "\<exists>d'. LoadIdentity 1 size_descr64 (memClient h) returnS (KID exampleIfKey) (exampleStore ?tag) = (Inr (exampleTree ?tag), d') \<and>
      memKeys d' = exampleStore ?tag" by simp
  then obtain d' where
    "LoadIdentity 1 size_descr64 (memClient h) returnS (KID exampleIfKey) (exampleStore ?tag) = (Inr (exampleTree ?tag), d')"
    "d' = exampleStore ?tag" using memKeys_full [of _ "exampleStore ?tag"] by (auto simp: exampleStore_def [of ?tag] simp del: exampleStore_keys)
  moreover have "length ?tag = MACLen" by (auto simp: memTag_def MACLen_def)
  ultimately show ?thesis using hh by blast
qed

theorem edits_refine_witness:
  "\<exists>d t r d1 t'. LoadIdentity 1 size_descr64 (memClient (\<lambda>_. toyTag)) returnS (KID exampleIfKey) d = (Inr t, d) \<and>
     runEdit 1 size_descr64 (memClient (\<lambda>_. toyTag)) returnS (UpdatePeer renamedSpec True None) t d = (Inr r, d1) \<and>
     editedPeers size_descr64 (memKeys d) (UpdatePeer renamedSpec True None) (Peers t) (Peers t') \<and> settings t' = settings t"
proof -
  let ?h = "\<lambda>_. toyTag"
  obtain tag where l: "length tag = MACLen" and
    ld: "LoadIdentity 1 size_descr64 (memClient ?h) returnS (KID exampleIfKey) (exampleStore tag) = (Inr (exampleTree tag), exampleStore tag)"
    using example_mem_load by blast
  obtain r d1 where u: "runEdit 1 size_descr64 (memClient ?h) returnS (UpdatePeer renamedSpec True None) (exampleTree tag) (exampleStore tag) = (Inr r, d1)"
    using example_update [OF l exampleStore_keys exampleStore_mem, of ?h tag] by auto
  have ok: "parsedEdit size_descr64 (UpdatePeer renamedSpec True None)" using renamed_parsed by auto
  from edits_refine [OF mem.key_store_axioms ld u ok, unfolded clashes.simps if_False] ld u show ?thesis by blast
qed

theorem load_decides_holds_witness:
  "\<exists>d t. length (memKeys d) < 50 * 1 \<and> fst (LoadIdentity 1 size_descr64 (memClient (\<lambda>_. toyTag)) returnS (KID exampleIfKey) d) = Inr t \<and>
     holds size_descr64 (memTag (\<lambda>_. toyTag)) (memKeys d) t"
proof -
  let ?h = "\<lambda>_. toyTag"
  obtain tag where ld: "LoadIdentity 1 size_descr64 (memClient ?h) returnS (KID exampleIfKey) (exampleStore tag) = (Inr (exampleTree tag), exampleStore tag)"
    using example_mem_load by blast
  have n: "length (memKeys (exampleStore tag)) < 50 * 1" by simp (simp add: exampleStore_def)
  from load_decides_holds [OF mem.key_store_axioms n, of size_descr64 ?h "KID exampleIfKey" "exampleTree tag"] ld n
  show ?thesis by (metis fst_conv)
qed

text \<open>Two identifiers that start with the same four bytes.\<close>

definition clashingKID :: "byte \<Rightarrow> string" where
  "clashingKID b = hexEncodeToString (replicate 4 0 @ replicate 12 b)"

definition clashingStore :: store where
  "clashingStore =
     [(\<lparr>keKID = clashingKID 0, keLabel = ''a'', keDescr = examplePeerRecord, keCreated = 1\<rparr>, exampleIfKey),
      (\<lparr>keKID = clashingKID 1, keLabel = ''b'', keDescr = examplePeerRecord, keCreated = 2\<rparr>, examplePeerKey)]"

lemma clashingKID_ref: "PeerRefFromKID (clashingKID b) = Inr (replicate 4 0)"
  by (simp add: PeerRefFromKID_def clashingKID_def KIDLen_def PeerRefLen_def)

lemma clashingKID_neq: "clashingKID 0 \<noteq> clashingKID 1"
proof
  assume "clashingKID 0 = clashingKID 1"
  then have "hexDecodeString (clashingKID 0) = hexDecodeString (clashingKID 1)" by simp
  then show False by (simp add: clashingKID_def)
qed

lemma clashingStore_refs: "memKeys clashingStore = clashingStore" "\<not> refs_clear clashingStore"
proof -
  show "memKeys clashingStore = clashingStore" using clashingKID_neq by (simp add: memKeys_def clashingStore_def kidOf_def)
  have "map keKID (matching (bytes_of MagicPeer) clashingStore) = [clashingKID 0, clashingKID 1]"
    using examplePeerRecord_magic by (simp add: matching_def clashingStore_def)
  then show "\<not> refs_clear clashingStore" by (simp add: refs_clear_def clashingKID_ref)
qed

theorem shared_reference_blocks_all_witness:
  "\<not> refs_clear (memKeys clashingStore) \<and>
   \<not> isOk (fst (LoadIdentity 1 size_descr64 (memClient (\<lambda>_. toyTag)) returnS ''k'' clashingStore))"
  using shared_reference_blocks_all [OF mem.key_store_axioms, of clashingStore] clashingStore_refs by simp

subsection \<open>Two identities with one peer\<close>

definition otherKey :: bytes where "otherKey = replicate 32 7"

definition pairStore :: "bytes \<Rightarrow> bytes \<Rightarrow> store" where
  "pairStore tag tag2 = exampleStore tag @
     [(\<lparr>keKID = KID otherKey, keLabel = ''id'', keDescr = exampleIfRecord tag2, keCreated = 3\<rparr>, otherKey)]"

lemma other_kids: "KID otherKey \<noteq> KID examplePeerKey" "KID otherKey \<noteq> KID exampleIfKey"
proof -
  have "MakePeerRef otherKey = [0, 105, 106, 184]"
    by (simp add: MakePeerRef_def otherKey_def sha1_Sum_7 PeerRefLen_def)
  then have "MakePeerRef otherKey \<noteq> MakePeerRef examplePeerKey" "MakePeerRef otherKey \<noteq> MakePeerRef exampleIfKey"
    by (simp_all add: example_refs)
  then show "KID otherKey \<noteq> KID examplePeerKey" "KID otherKey \<noteq> KID exampleIfKey"
    using PeerRefFromKID_KID sum.inject(2) by metis+
qed

lemma pairStore_keys: "memKeys (pairStore tag tag2) = pairStore tag tag2"
  using example_kids other_kids by (simp add: memKeys_def pairStore_def exampleStore_def kidOf_def)

lemma pairStore_mem:
  "KID exampleIfKey \<in> kidOf ` set (pairStore tag tag2)" "KID examplePeerKey \<in> kidOf ` set (pairStore tag tag2)"
  using exampleStore_mem [of tag] by (auto simp: pairStore_def)

lemma pairStore_clear: "length tag = MACLen \<Longrightarrow> length tag2 = MACLen \<Longrightarrow> refs_clear (pairStore tag tag2)"
proof -
  assume l: "length tag = MACLen" "length tag2 = MACLen"
  have "matching (bytes_of MagicPeer) (pairStore tag tag2) = matching (bytes_of MagicPeer) (exampleStore tag)"
    using exampleIfRecord_magic [OF l(2)] magics_differ [of "exampleIfRecord tag2"] by (auto simp: matching_def pairStore_def)
  then show ?thesis by (simp add: refs_clear_def exampleStore_peers [OF l(1)] PeerRefFromKID_KID)
qed

lemma pairStore_loads:
  "\<exists>tag tag2. length tag = MACLen \<and>
     (\<forall>d. memKeys d = pairStore tag tag2 \<longrightarrow>
       LoadIdentity 1 size_descr64 (memClient h) returnS (KID exampleIfKey) d = (Inr (exampleTree tag), d) \<and>
       LoadIdentity 1 size_descr64 (memClient h) returnS (KID otherKey) d = (Inr (exampleTreeOf otherKey tag2), d))"
proof -
  obtain msg msg2 where msg: "Canonical size_descr64 exampleIfKey (exampleIfRecord zeroMAC) examplePeers = Inr msg"
    "Canonical size_descr64 otherKey (exampleIfRecord zeroMAC) examplePeers = Inr msg2"
    using example_Canonical [of zeroMAC exampleIfKey] example_Canonical [of zeroMAC otherKey] by auto
  let ?tag = "memTag h (KID exampleIfKey) msg" and ?tag2 = "memTag h (KID otherKey) msg2"
  let ?k = "pairStore ?tag ?tag2"
  have l: "length ?tag = MACLen" "length ?tag2 = MACLen" by (auto simp: memTag_def MACLen_def)
  have st: "stored size_descr64 ?k MagicInterface (KID exampleIfKey) ''id'' (exampleIfRecord ?tag) exampleIfKey"
    "stored size_descr64 ?k MagicPeer (KID examplePeerKey) ''peer'' examplePeerRecord examplePeerKey"
    using exampleStore_stored [OF l(1)] stored_append unfolding pairStore_def by blast+
  have "stored size_descr64 ?k MagicInterface (KID otherKey) ''id'' (exampleIfRecord ?tag2) otherKey"
    using storedI [of "fst (?k ! 2)" otherKey ?k MagicInterface size_descr64 "exampleIfRecord ?tag2"] exampleIfRecord_magic [OF l(2)]
      Normalize_padded [of "exampleIfRecord ?tag2" size_descr64]
    by (simp add: pairStore_def exampleStore_def example_lengths)
  from example_holds [OF msg(2) refl this st(2) pairStore_clear [OF l]]
  have h2: "holds size_descr64 (memTag h) ?k (exampleTreeOf otherKey ?tag2)" by (simp add: otherKey_def PubKeyLen_def)
  have h1: "holds size_descr64 (memTag h) ?k (exampleTree ?tag)"
    using example_holds [OF msg(1) refl st pairStore_clear [OF l] example_lengths(1)] by (simp add: exampleTreeOf_self)
  have n: "length ?k < 50 * 1" "?k \<noteq> []" by (simp_all add: pairStore_def exampleStore_def)
  have id: "IfKID (exampleTree ?tag) = KID exampleIfKey" "IfKID (exampleTreeOf otherKey ?tag2) = KID otherKey"
    by (simp_all add: exampleTree_def exampleTreeOf_def)
  have "LoadIdentity 1 size_descr64 (memClient h) returnS (IfKID t) d = (Inr t, d)"
    if "holds size_descr64 (memTag h) ?k t" "memKeys d = ?k" for t d
  proof -
    have "holds size_descr64 (memTag h) (memKeys d) t" "length (memKeys d) < 50 * 1" using that n by simp_all
    from mem.load_complete [OF this] obtain d' where
      "LoadIdentity 1 size_descr64 (memClient h) returnS (IfKID t) d = (Inr t, d')" "memKeys d' = memKeys d" by blast
    moreover from this have "d' = d" using memKeys_full [of _ ?k] that(2) n(2) by metis
    ultimately show ?thesis by simp
  qed
  from this [OF h1] this [OF h2] l(1) id show ?thesis by metis
qed

lemma renamedRecord_neq: "renamedRecord \<noteq> examplePeerRecord"
proof
  assume "renamedRecord = examplePeerRecord"
  then have "canonPeer (specPeer exampleSpecPeer None) = canonPeer examplePeer"
    using Peer_enc_dec [OF _ renamed_Encode] Peer_enc_dec [OF examplePeer_wf examplePeer_Encode] renamed_ok(1)
    by (simp add: specOk_def renamed_ok)
  then have "PSKWrapped (canonPeer (specPeer exampleSpecPeer None)) = PSKWrapped (canonPeer examplePeer)" by simp
  then have "PSKWrapped (specPeer exampleSpecPeer None) = PSKWrapped examplePeer" by (simp add: canonPeer_def)
  then show False by (simp add: specPeer_def examplePeer_def)
qed

theorem shared_update_breaks_others_witness:
  "\<exists>d t t2 r d'. LoadIdentity 1 size_descr64 (memClient (\<lambda>_. toyTag)) returnS (KID exampleIfKey) d = (Inr t, d) \<and>
     LoadIdentity 1 size_descr64 (memClient (\<lambda>_. toyTag)) returnS (KID otherKey) d = (Inr t2, d) \<and>
     peerUpdateIn size_descr64 (memClient (\<lambda>_. toyTag)) returnS renamedSpec True None t d = (Inr r, d') \<and>
     (case fst (LoadIdentity 1 size_descr64 (memClient (\<lambda>_. toyTag)) returnS (KID otherKey) d') of
        Inl _ \<Rightarrow> True | Inr t2' \<Rightarrow> sharedCollision size_descr64 (memTag (\<lambda>_. toyTag)) t2 t2')"
proof -
  let ?h = "\<lambda>_. toyTag"
  obtain tag tag2 where l: "length tag = MACLen" and
    ld: "LoadIdentity 1 size_descr64 (memClient ?h) returnS (KID exampleIfKey) (pairStore tag tag2) = (Inr (exampleTree tag), pairStore tag tag2)"
    "LoadIdentity 1 size_descr64 (memClient ?h) returnS (KID otherKey) (pairStore tag tag2) = (Inr (exampleTreeOf otherKey tag2), pairStore tag tag2)"
    using pairStore_loads pairStore_keys by metis
  obtain r d' where u: "peerUpdateIn size_descr64 (memClient ?h) returnS renamedSpec True None (exampleTree tag) (pairStore tag tag2) = (Inr r, d')"
    and ps: "map cpRaw (Peers r) = [renamedRecord]"
    using example_update [OF l pairStore_keys pairStore_mem, of ?h tag tag2] by auto
  let ?q = "hd (Peers (exampleTreeOf otherKey tag2))"
  have q: "?q \<in> set (Peers (exampleTreeOf otherKey tag2))" "cpPubKey ?q = psPubKey renamedSpec" "cpRaw ?q = examplePeerRecord"
    by (simp_all add: exampleTreeOf_def exampleTree_def renamed_ok)
  have ch: "\<forall>x \<in> set (Peers r). cpPubKey x = psPubKey renamedSpec \<longrightarrow> cpRaw x \<noteq> cpRaw ?q"
    using ps renamedRecord_neq q(3) by auto
  from shared_update_breaks_others [OF mem.key_store_axioms ld other_kids(2) u renamed_ok(1) q(1,2) ch, of 1] ld u
  show ?thesis by blast
qed

subsection \<open>A session over a key store\<close>

text \<open>
  A session that the phone authorises, on a device that is a key store, is a key store: the client
  the session runs and the tokens it hands out keep the promises.
\<close>

lemma onDevice_sel [simp]: "fst (onDevice m s) = fst (m (fst s))" "fst (snd (onDevice m s)) = snd (m (fst s))"
  by (cases s; cases "m (fst s)"; simp add: onDevice_def)+

lemma onDevice_fst_eq: "onDevice m s = (r, s') \<longleftrightarrow> m (fst s) = (r, fst s') \<and> snd s' = snd s"
  by (cases s; cases "m (fst s)"; cases s') (auto simp: onDevice_def)

lemma onDevice_apply: "onDevice m (d, s) = (case m d of (r, d') \<Rightarrow> (r, (d', s)))"
  by (simp add: onDevice_def)

lemma key_store_lift:
  assumes ks: "key_store c tok K h" and grant: "\<And>scope s. \<exists>t s'. tok' scope s = (Inr t, s') \<and> K (fst s') = K (fst s)"
  shows "key_store (liftClient c) tok' (\<lambda>s. K (fst s)) h"
proof (unfold_locales, goal_cases)
  case (2 scope s)
  from grant show ?case by blast
next
  case (3 t pat off n s)
  from key_store.searches [OF ks, of t pat off n "fst s"] show ?case
    by (cases s) (auto simp: liftClient_def onDevice_apply)
next
  case (4 e pk s t)
  from key_store.gets [OF ks 4, of t] show ?case
    by (cases s) (auto simp: liftClient_def onDevice_apply split: prod.splits)
next
  case (10 t kid)
  from key_store.macs [OF ks, of t kid] show ?case
    by (auto simp: honest_hmac_def liftClient_def onDevice_def split: prod.splits) (metis fst_conv)+
next
  case (7 t l ty pk b s kid s')
  with key_store.imports_ok [OF ks, of t l ty pk b "fst s" kid "fst s'"] show ?case by (simp add: liftClient_def onDevice_fst_eq)
next
  case (8 t l ty pk b s e s')
  with key_store.imports_fail [OF ks, of t l ty pk b "fst s" e "fst s'"] show ?case by (simp add: liftClient_def onDevice_fst_eq)
qed (simp_all add: liftClient_def key_store.distinct_kids [OF ks] key_store.gets_keep [OF ks] key_store.updates [OF ks]
    key_store.deletes [OF ks] key_store.macs_keep [OF ks] key_store.wraps_keep [OF ks])

lemma key_store_session:
  assumes "key_store c tok K h" and "devMobile dev" and "\<And>scope d. \<exists>t d'. AuthRemote c scope d = (Inr t, d') \<and> K d' = K d"
  shows "key_store (liftClient c) (Token c dev) (\<lambda>s. K (fst s)) h"
proof (rule key_store_lift [OF assms(1)])
  fix scope and s :: "'a \<times> Auth"
  obtain t d' where "AuthRemote c scope (fst s) = (Inr t, d')" "K d' = K (fst s)" using assms(3) by blast
  then show "\<exists>t s'. Token c dev scope s = (Inr t, s') \<and> K (fst s') = K (fst s)" using assms(2) by (cases s) (simp add: Token_def)
qed

definition phoneClient :: "(string \<Rightarrow> bytes \<Rightarrow> bytes) \<Rightarrow> store Client" where
  "phoneClient h = (memClient h)\<lparr>Checkin := returnS (), AuthRemote := (\<lambda>_. returnS ''t'')\<rparr>"

definition phoneDevice :: "'d Device" where
  "phoneDevice = \<lparr>devMobile = True, devExpSecs = 28800, Passphrase = None\<rparr>"

interpretation phone: key_store "phoneClient h" returnS memKeys "memTag h" for h
proof (unfold_locales, goal_cases)
  case (4 e pk d t)
  then show ?case using mem.gets [of e pk d h t] by (simp add: phoneClient_def)
next
  case (10 t kid)
  from mem.macs [of h t kid] show ?case by (simp add: honest_hmac_def phoneClient_def)
qed (use mem.updates [where h = h] mem.deletes [where h = h] mem.imports_ok [where h = h] mem.imports_fail [where h = h]
      mem.gets_keep [where h = h] mem.searches [where h = h] mem.macs_keep [where h = h] mem.wraps_keep [where h = h]
    in \<open>auto simp: phoneClient_def\<close>)

interpretation sess: key_store "liftClient (phoneClient h)" "Token (phoneClient h) phoneDevice" "\<lambda>s. memKeys (fst s)" "memTag h" for h
  by (rule key_store_session [OF phone.key_store_axioms]) (simp_all add: phoneDevice_def phoneClient_def)

end
