(* ===== verification/WipeCmd.thy ===== *)
theory WipeCmd
  imports MemStore
begin

text \<open>
  \<open>cmd/wg-hem/wipe.go\<close>: deleting every record of this client from the device.  Which keys that
  are is read by prefix, not from a configuration that has to verify.
\<close>

fun listLoop :: "nat \<Rightarrow> 'd Client \<Rightarrow> 'd TokenFunc \<Rightarrow> string \<Rightarrow> string \<Rightarrow> KeyEntry list \<Rightarrow> nat \<Rightarrow>
    ('d, error, KeyEntry list) io" where
  "listLoop 0 c tok magic token all offset = failS OutOfFuel"
| "listLoop (Suc n) c tok magic token all offset =
     (\<lambda>d. case SearchKeys c token (bytes_of magic) offset 50 d of
        (Inl e, d') \<Rightarrow>
          if token = [] \<and> isAuthError e
          then bindS (tok ''keymgmt:search'') (\<lambda>token. listLoop n c tok magic token all offset) d'
          else (Inl (classify e exitDevice ''searching for %s records''), d')
      | (Inr (found, page), d') \<Rightarrow>
          (let all = all @ page; offset = offset + length page in
           if page = [] \<or> int offset \<ge> found then (Inr all, d')
           else listLoop n c tok magic token all offset d'))"

definition listRecords :: "nat \<Rightarrow> 'd Client \<Rightarrow> 'd TokenFunc \<Rightarrow> string \<Rightarrow> ('d, error, KeyEntry list) io" where
  "listRecords fuel c tok magic = listLoop fuel c tok magic [] [] 0"

text \<open>\<open>confirm\<close> (\<open>peer.go\<close>) on the line that was read, or none.\<close>

definition confirm :: "string option \<Rightarrow> string \<Rightarrow> bool" where
  "confirm line want = (case line of None \<Rightarrow> False | Some l \<Rightarrow> TrimSpace l = want)"

fun deleteAll :: "'d Client \<Rightarrow> string \<Rightarrow> KeyEntry list \<Rightarrow> nat \<Rightarrow> ('d, error, nat) io" where
  "deleteAll c delTok [] deleted = returnS deleted"
| "deleteAll c delTok (e # es) deleted =
     bindS (mapErrS (\<lambda>x. classify x exitDevice ''deleting %s (%d of %d done)'') (DeleteKey c delTok (keKID e))) (\<lambda>_.
       deleteAll c delTok es (deleted + 1))"

definition wipeListed :: "'d Client \<Rightarrow> 'd TokenFunc \<Rightarrow> bool \<Rightarrow> string option \<Rightarrow> KeyEntry list \<Rightarrow> KeyEntry list \<Rightarrow> ('d, error, nat) io" where
  "wipeListed c tok yes answer ifs peers =
     (if length ifs + length peers = 0 then returnS 0
      else if \<not> yes \<and> \<not> confirm answer (if length ifs > 0 then ''delete my identity key'' else ''wipe'')
      then failS (failf exitUsage ''cancelled'' [])
      else bindS (tok ''keymgmt:del'') (\<lambda>delTok. deleteAll c delTok (peers @ ifs) 0))"

definition wipeRecords :: "nat \<Rightarrow> 'd Client \<Rightarrow> 'd TokenFunc \<Rightarrow> bool \<Rightarrow> bool \<Rightarrow> string option \<Rightarrow> ('d, error, nat) io" where
  "wipeRecords fuel c tok yes peersOnly answer =
     bindS (listRecords fuel c tok MagicInterface) (\<lambda>ifs.
     bindS (listRecords fuel c tok MagicPeer) (\<lambda>peers.
       wipeListed c tok yes answer (if peersOnly then [] else ifs) peers))"

definition cmdWipe :: "nat \<Rightarrow> 'd Client \<Rightarrow> 'd Device \<Rightarrow> bool \<Rightarrow> bool \<Rightarrow> string option \<Rightarrow> ('d, error, nat) io" where
  "cmdWipe fuel c dev yes peersOnly answer =
     bindS (mapErrS exitFrom (Connect c dev)) (\<lambda>auth d.
       case wipeRecords fuel (liftClient c) (Token c dev) yes peersOnly answer (d, auth) of
         (r, (d', _)) \<Rightarrow> (r, Wipe c d'))"

subsection \<open>It lists what the loader would find\<close>

lemma listLoop_search:
  "listLoop n c tok magic token all off d = (Inr es, d') \<longleftrightarrow> searchLoop n c tok magic token all off d = (Inr es, d')"
proof (induction n arbitrary: token all off d)
  case (Suc n)
  show ?case
    by (cases "SearchKeys c token (bytes_of magic) off 50 d"; cases "fst (SearchKeys c token (bytes_of magic) off 50 d)")
      (auto simp: Let_def searchPage_def Suc.IH bindS_apply split: prod.splits sum.splits)
qed simp

lemma listRecords_search: "listRecords fuel c tok magic d = (Inr es, d') \<longleftrightarrow> search fuel c tok magic d = (Inr es, d')"
  by (simp add: listRecords_def search_def listLoop_search)

subsection \<open>What it deletes\<close>

definition marked :: "string \<Rightarrow> KeyEntry \<times> bytes \<Rightarrow> bool" where
  "marked magic x \<longleftrightarrow> take (length (bytes_of magic)) (keDescr (fst x)) = bytes_of magic"

lemma matching_marked: "matching (bytes_of magic) k = map fst (filter (marked magic) k)"
  by (induction k) (auto simp: matching_def marked_def)

context key_store
begin

lemma keeps_listRecords [keeps_intros]: "keeps (\<lambda>d. K d = k) (listRecords fuel c tok magic)"
proof -
  have "K (snd (listLoop n c tok magic token all off d)) = K d" for n token all off d
  proof (induction n arbitrary: all off d)
    case (Suc n)
    obtain d1 where s: "SearchKeys c token (bytes_of magic) off 50 d =
        (Inr (int (length (matching (bytes_of magic) (K d))), take 50 (drop off (matching (bytes_of magic) (K d)))), d1)" and "K d1 = K d"
      using searches by blast
    with Suc.IH show ?case by (simp add: Let_def)
  qed simp
  then show ?thesis by (simp add: keeps_def listRecords_def)
qed

lemma listRecords_all:
  "listRecords fuel c tok magic d = (Inr es, d') \<Longrightarrow> es = matching (bytes_of magic) (K d)"
  using searchLoop_sound [of 0 magic d fuel "[]" es d'] by (simp add: listRecords_search search_def)

lemma deleteAll_removes:
  "deleteAll c t es n d = (r, d') \<Longrightarrow>
   \<exists>m \<le> length es. K d' = filter (\<lambda>x. kidOf x \<notin> keKID ` set (take m es)) (K d) \<and> (isOk r \<longrightarrow> m = length es)"
proof (induction es arbitrary: n d)
  case (Cons e es)
  obtain q d1 where q: "DeleteKey c t (keKID e) d = (q, d1)" by fastforce
  show ?case
  proof (cases q)
    case (Inl x)
    with Cons.prems q deletes [of t "keKID e" d] show ?thesis by (intro exI [of _ 0]) (auto simp: bindS_apply mapErrS_def)
  next
    case (Inr u)
    with Cons.prems q have "deleteAll c t es (n + 1) d1 = (r, d')" by (simp add: bindS_apply mapErrS_def)
    from Cons.IH [OF this] obtain m where m: "m \<le> length es" "isOk r \<longrightarrow> m = length es"
      "K d' = filter (\<lambda>x. kidOf x \<notin> keKID ` set (take m es)) (K d1)" by blast
    moreover have "K d1 = filter (\<lambda>x. kidOf x \<noteq> keKID e) (K d)" using deletes [of t "keKID e" d] q Inr by simp
    ultimately show ?thesis by (intro exI [of _ "Suc m"]) (auto intro: filter_cong)
  qed
qed auto

lemma kid_of_marked:
  "x \<in> set (K d) \<Longrightarrow> kidOf x \<in> keKID ` set (matching (bytes_of magic) (K d)) \<longleftrightarrow> marked magic x"
proof -
  assume x: "x \<in> set (K d)"
  have "y = x" if "y \<in> set (K d)" "kidOf x = kidOf y" for y using kid_unique x that by metis
  moreover have "keKID ` set (matching (bytes_of magic) (K d)) = kidOf ` set (filter (marked magic) (K d))"
    by (simp add: matching_marked image_image kidOf_def)
  ultimately show ?thesis using x by auto
qed

lemma wipeListed_cases:
  assumes "wipeListed c tok yes answer ifs peers d = (r, d')"
  shows "K d' = K d \<and> (isOk r \<longrightarrow> peers @ ifs = []) \<or> (\<exists>t d1. K d1 = K d \<and> deleteAll c t (peers @ ifs) 0 d1 = (r, d'))"
proof -
  obtain t d1 where "tok ''keymgmt:del'' d = (Inr t, d1)" "K d1 = K d" using grants by blast
  with assms show ?thesis by (auto simp: wipeListed_def bindS_apply split: if_splits)
qed

text \<open>Whatever happens, a prefix of the peers and then of the identities is gone, and nothing else.\<close>

definition wiped :: "bool \<Rightarrow> store \<Rightarrow> KeyEntry list" where
  "wiped peersOnly k = matching (bytes_of MagicPeer) k @ (if peersOnly then [] else matching (bytes_of MagicInterface) k)"

lemma wipe_prefix:
  assumes "wipeRecords fuel c tok yes peersOnly answer d = (r, d')"
  shows "\<exists>m. K d' = filter (\<lambda>x. kidOf x \<notin> keKID ` set (take m (wiped peersOnly (K d)))) (K d) \<and>
     (isOk r \<longrightarrow> length (wiped peersOnly (K d)) \<le> m)"
proof -
  have none: ?thesis if "K d' = K d" "isOk r \<longrightarrow> wiped peersOnly (K d) = []"
    using that by (intro exI [of _ 0]) auto
  obtain r1 d1 where l1: "listRecords fuel c tok MagicInterface d = (r1, d1)" by fastforce
  obtain r2 d2 where l2: "listRecords fuel c tok MagicPeer d1 = (r2, d2)" by fastforce
  have k: "K d1 = K d" "K d2 = K d" using keepsD [OF keeps_listRecords refl l1] keepsD [OF keeps_listRecords refl l2] by auto
  show ?thesis
  proof (cases r1)
    case (Inl e)
    with assms l1 k none show ?thesis by (auto simp: wipeRecords_def bindS_apply)
  next
    case r1: (Inr ifs)
    show ?thesis
    proof (cases r2)
      case (Inl e)
      with assms l1 l2 r1 k none show ?thesis by (auto simp: wipeRecords_def bindS_apply)
    next
      case (Inr peers)
      with assms l1 l2 r1 have w: "wipeListed c tok yes answer (if peersOnly then [] else ifs) peers d2 = (r, d')"
        by (simp add: wipeRecords_def bindS_apply)
      have all: "peers @ (if peersOnly then [] else ifs) = wiped peersOnly (K d)"
        unfolding wiped_def using listRecords_all l1 l2 k r1 Inr by metis
      from wipeListed_cases [OF w, unfolded all k(2)] none deleteAll_removes show ?thesis by (metis order_refl)
    qed
  qed
qed

text \<open>Which is what the order of the deletions is for.\<close>

lemma wipe_safe:
  assumes "wipeRecords fuel c tok yes peersOnly answer d = (r, d')"
  shows "set (K d') \<subseteq> set (K d)"
    and "x \<in> set (K d) \<Longrightarrow> x \<notin> set (K d') \<Longrightarrow> marked MagicPeer x \<or>
      marked MagicInterface x \<and> \<not> peersOnly \<and> (\<forall>y \<in> set (K d'). \<not> marked MagicPeer y)"
    and "isOk r \<Longrightarrow> y \<in> set (K d') \<Longrightarrow> \<not> marked MagicPeer y \<and> (peersOnly \<or> \<not> marked MagicInterface y)"
proof -
  from wipe_prefix [OF assms] obtain m where
    k: "K d' = filter (\<lambda>x. kidOf x \<notin> keKID ` set (take m (wiped peersOnly (K d)))) (K d)"
    and ok: "isOk r \<longrightarrow> length (wiped peersOnly (K d)) \<le> m" by blast
  let ?P = "matching (bytes_of MagicPeer) (K d)" and ?I = "matching (bytes_of MagicInterface) (K d)"
  have tk: "take m (wiped peersOnly (K d)) = take m ?P @ take (m - length ?P) (if peersOnly then [] else ?I)"
    by (simp add: wiped_def)
  show "set (K d') \<subseteq> set (K d)" by (auto simp: k)
  show "\<not> marked MagicPeer y \<and> (peersOnly \<or> \<not> marked MagicInterface y)" if "isOk r" "y \<in> set (K d')"
  proof -
    from that k ok have y: "y \<in> set (K d)" "kidOf y \<notin> keKID ` set (wiped peersOnly (K d))" by auto
    with kid_of_marked [OF y(1), of MagicPeer] kid_of_marked [OF y(1), of MagicInterface] show ?thesis
      by (auto simp: wiped_def image_Un split: if_splits)
  qed
  show "marked MagicPeer x \<or> marked MagicInterface x \<and> \<not> peersOnly \<and> (\<forall>y \<in> set (K d'). \<not> marked MagicPeer y)"
    if x: "x \<in> set (K d)" "x \<notin> set (K d')"
  proof (cases "marked MagicPeer x")
    case False
    have gone: "kidOf x \<in> keKID ` set (take m (wiped peersOnly (K d)))" using x by (simp add: k)
    have "kidOf x \<notin> keKID ` set (take m ?P)" using False kid_of_marked [OF x(1), of MagicPeer] by (auto dest: in_set_takeD)
    with gone have i: "kidOf x \<in> keKID ` set (take (m - length ?P) (if peersOnly then [] else ?I))" by (auto simp: tk)
    then have po: "\<not> peersOnly" "m - length ?P \<noteq> 0" by (auto split: if_splits)
    with i have "marked MagicInterface x" using kid_of_marked [OF x(1), of MagicInterface] by (auto dest: in_set_takeD)
    moreover have "\<not> marked MagicPeer y" if "y \<in> set (K d')" for y
    proof -
      from that po(2) have "y \<in> set (K d)" "kidOf y \<notin> keKID ` set ?P" by (auto simp: k tk image_Un)
      with kid_of_marked show ?thesis by blast
    qed
    ultimately show ?thesis using po(1) by blast
  qed simp
qed

end

text \<open>
  C18: a wipe that stops anywhere is safe.  On every device that behaves as a key store, whatever
  a wipe returns and however many deletions went through: nothing is added, only records of this
  client are deleted, an identity key only when it was asked for and only when no peer record is
  left, and a wipe that succeeds leaves no record it was asked to delete.
\<close>

theorem wipe_is_safe:
  assumes "key_store c tok K h" and "wipeRecords fuel c tok yes peersOnly answer d = (r, d')"
  shows "set (K d') \<subseteq> set (K d) \<and>
    (\<forall>x \<in> set (K d) - set (K d'). marked MagicPeer x \<or>
      marked MagicInterface x \<and> \<not> peersOnly \<and> (\<forall>y \<in> set (K d'). \<not> marked MagicPeer y)) \<and>
    (isOk r \<longrightarrow> (\<forall>y \<in> set (K d'). \<not> marked MagicPeer y \<and> (peersOnly \<or> \<not> marked MagicInterface y)))"
  using key_store.wipe_safe [OF assms] by blast

theorem wipe_is_safe_witness:
  "\<exists>tag d'. wipeRecords 1 (memClient (\<lambda>_. toyTag)) returnS True False None (exampleStore tag) = (Inr 2, d') \<and>
     (\<forall>y \<in> set (memKeys d'). \<not> marked MagicPeer y \<and> \<not> marked MagicInterface y)"
proof -
  have l: "length zeroMAC = MACLen" by simp
  let ?k = "exampleStore zeroMAC"
  have i: "matching (bytes_of MagicInterface) ?k = [fst (?k ! 0)]" and p: "matching (bytes_of MagicPeer) ?k = [fst (?k ! 1)]"
    using exampleIfRecord_magic [OF l] examplePeerRecord_magic magics_differ [of "exampleIfRecord zeroMAC"]
      magics_differ [of examplePeerRecord] by (auto simp: matching_def exampleStore_def)
  have lst: "listRecords 1 (memClient (\<lambda>_. toyTag)) returnS magic ?k = (Inr (matching (bytes_of magic) ?k), ?k)"
    if "length (matching (bytes_of magic) ?k) = 1" for magic
    using that by (simp add: listRecords_def memClient_def)
  have del: "\<exists>d'. deleteAll (memClient (\<lambda>_. toyTag)) t [e, e'] 0 d = (Inr 2, d')" for t e e' d
    by (simp add: memClient_def bindS_apply mapErrS_def)
  obtain d' where w: "wipeRecords 1 (memClient (\<lambda>_. toyTag)) returnS True False None ?k = (Inr 2, d')"
    using lst [of MagicInterface] lst [of MagicPeer] del [of "''keymgmt:del''" "fst (?k ! 1)" "fst (?k ! 0)" ?k]
    by (auto simp: wipeRecords_def wipeListed_def bindS_apply i p)
  from wipe_is_safe [OF mem.key_store_axioms w] w show ?thesis by auto
qed

end
