(* ===== verification/UpDown.thy ===== *)
theory UpDown
  imports MemStore Failover
begin

text \<open>
  The commands that start and stop a tunnel: the choice of an identity
  (\<open>cmd/wg-hem/session.go\<close>) and of a peer, \<open>cmdUp\<close> (\<open>up.go\<close>), \<open>cmdDown\<close> (\<open>down.go\<close>) and
  the exit codes of a missing state (\<open>state.go\<close>).  A line that was read is a parameter, an
  error reading it is \<open>Inl\<close>; the end of the input is the line so far.  Printing is left out.
\<close>

subsection \<open>Choosing an identity\<close>

definition identityKIDs :: "Identity list \<Rightarrow> string list" where
  "identityKIDs ids = map idKID ids"

definition matchIdentity :: "Identity list \<Rightarrow> string \<Rightarrow> error + string" where
  "matchIdentity ids want =
     (let want = ToLower want;
          found = filter (\<lambda>i. HasPrefix (ToLower (idKID i)) want) ids
      in case found of
           [i] \<Rightarrow> Inr (idKID i)
         | [] \<Rightarrow> Inl (failf exitUsage (''no interface key here starts with %q; the device holds '' @ Join '', '' (identityKIDs ids)) [])
         | _ \<Rightarrow> Inl (failf exitUsage (''%q matches %d interface keys ('' @ Join '', '' (identityKIDs found) @ ''); give more of it'') []))"

definition promptForIdentity :: "Identity list \<Rightarrow> error + string \<Rightarrow> error + string" where
  "promptForIdentity ids answer =
     (case answer of
        Inl e \<Rightarrow> Inl (failf exitUsage ''reading the identity selection: %w'' [e])
      | Inr line \<Rightarrow>
          (let line = TrimSpace line in
           if line = [] then Inl (failf exitUsage ''no identity chosen; answer with a number, or pass --identity'' [])
           else case Atoi line of
               None \<Rightarrow> Inl (failf exitUsage ''%q is not one of the %d interface keys offered'' [])
             | Some n \<Rightarrow>
                 if n < 1 \<or> n > int (length ids)
                 then Inl (failf exitUsage ''%q is not one of the %d interface keys offered'' [])
                 else Inr (idKID (ids ! nat (n - 1)))))"

definition chooseIdentity :: "string \<Rightarrow> error + string \<Rightarrow> Identity list \<Rightarrow> error + string" where
  "chooseIdentity identity answer ids =
     (if TrimSpace identity \<noteq> [] then matchIdentity ids (TrimSpace identity) else promptForIdentity ids answer)"

definition addrList :: "Prefix list \<Rightarrow> string" where
  "addrList addrs = (if addrs = [] then ''(unreadable record)'' else Join '', '' (map PrefixString addrs))"

subsection \<open>Choosing a peer\<close>

definition promptForPeer :: "Tree \<Rightarrow> error + string \<Rightarrow> error + ConfigPeer" where
  "promptForPeer tree answer =
     (case answer of
        Inl e \<Rightarrow> Inl (failf exitUsage ''reading the peer selection: %w'' [e])
      | Inr line \<Rightarrow>
          (let line = TrimSpace line in
           if line = [] then (if Peers tree = [] then Inl Panic else Inr (Peers tree ! 0))
           else case Atoi line of
               None \<Rightarrow> Inl (failf exitUsage ''%q is not one of the %d peers offered'' [])
             | Some n \<Rightarrow>
                 if n < 1 \<or> n > int (length (Peers tree))
                 then Inl (failf exitUsage ''%q is not one of the %d peers offered'' [])
                 else Inr (Peers tree ! nat (n - 1))))"

fun uniquePeer :: "string \<Rightarrow> ConfigPeer list \<Rightarrow> ConfigPeer option \<Rightarrow> error + ConfigPeer option" where
  "uniquePeer pre [] found = Inr found"
| "uniquePeer pre (p # ps) found =
     (if \<not> HasPrefix (b64Encode (cpPubKey p)) pre then uniquePeer pre ps found
      else if found \<noteq> None then Inl (failf exitUsage ''--peer-pubkey %q matches more than one peer'' [])
      else uniquePeer pre ps (Some p))"

definition selectPeer :: "Tree \<Rightarrow> int \<Rightarrow> string \<Rightarrow> error + string \<Rightarrow> error + ConfigPeer" where
  "selectPeer tree index keyPrefix answer =
     (if Peers tree = [] then Inl (failf exitIntegrit ''the configuration has no peers'' [])
      else if index \<noteq> 0 then
        (if index < 1 \<or> index > int (length (Peers tree))
         then Inl (failf exitUsage ''--peer %d: the configuration has %d peers'' [])
         else Inr (Peers tree ! nat (index - 1)))
      else if keyPrefix \<noteq> [] then
        bindE (uniquePeer keyPrefix (Peers tree) None) (\<lambda>found.
          case found of
            None \<Rightarrow> Inl (failf exitUsage ''--peer-pubkey %q matches no peer in the configuration'' [])
          | Some p \<Rightarrow> Inr p)
      else if length (Peers tree) = 1 then Inr (Peers tree ! 0)
      else promptForPeer tree answer)"

subsection \<open>Up\<close>

text \<open>
  The command after its flags: what \<open>Run\<close> returned and the tunnel it left, both absent while it
  still runs or was never started.  The first line of the terminal answers the peer prompt when there
  is one; the rest answer the failover prompts.  The preflight check is the platform's.
\<close>

definition needsPrompt :: "Tree \<Rightarrow> int \<Rightarrow> string \<Rightarrow> bool" where
  "needsPrompt tree index keyPrefix \<longleftrightarrow> index = 0 \<and> keyPrefix = [] \<and> length (Peers tree) > 1"

definition upOn :: "'w Client \<Rightarrow> 'w Device \<Rightarrow> 'w Platform \<Rightarrow> Env \<Rightarrow> string \<Rightarrow> string \<Rightarrow> int \<Rightarrow> string \<Rightarrow> bool \<Rightarrow>
    (error + string) list \<Rightarrow> event list \<Rightarrow> Auth \<Rightarrow> Tree \<Rightarrow> 'w \<Rightarrow> (error + unit) option \<times> 'w \<times> (Tree \<times> Tunnel) option" where
  "upOn c dev P E url ifname index key autoFailover answers es auth tree w =
     (case selectPeer tree index key (case answers of [] \<Rightarrow> Inr [] | a # _ \<Rightarrow> a) of
        Inl e \<Rightarrow> (Some (Inl e), Wipe c w, None)
      | Inr peer \<Rightarrow>
          (case Token c dev (''keymgmt:use:'' @ IfKID tree) (w, auth) of
             (Inl e, (w1, _)) \<Rightarrow> (Some (Inl e), Wipe c w1, None)
           | (Inr useTok, (w1, _)) \<Rightarrow>
               (let opts = \<lparr>oTree = tree, oUseTok = useTok, oHEMURL = url, oIfname = ifname\<rparr>;
                    rest = (if needsPrompt tree index key then drop 1 answers else answers);
                    out = (if autoFailover
                           then (case Tunnel_Run c P E opts WalkPeers es (\<lambda>_. False) peer (w1, New opts) of (r, _, s) \<Rightarrow> (r, s))
                           else (case Tunnel_Run c P E opts repromptPeer es rest peer (w1, New opts) of (r, _, s) \<Rightarrow> (r, s)))
                in case out of
                     (None, (w2, t)) \<Rightarrow> (None, w2, Some (tree, t))
                   | (Some r, (w2, t)) \<Rightarrow> (Some (mapErr exitFrom r), Wipe c w2, Some (tree, t)))))"

definition cmdUp :: "nat \<Rightarrow> size_tags \<Rightarrow> 'w Client \<Rightarrow> 'w Device \<Rightarrow> ('w \<times> Auth) ChooseFunc \<Rightarrow> 'w Platform \<Rightarrow> Env \<Rightarrow> error + unit \<Rightarrow>
    string \<Rightarrow> string \<Rightarrow> int \<Rightarrow> string \<Rightarrow> bool \<Rightarrow> (error + string) list \<Rightarrow> event list \<Rightarrow> 'w \<Rightarrow>
    (error + unit) option \<times> 'w \<times> (Tree \<times> Tunnel) option" where
  "cmdUp fuel sz c dev chooser P E preflight url ifname index key autoFailover answers es w =
     (if index \<noteq> 0 \<and> key \<noteq> []
      then (Some (Inl (failf exitUsage ''--peer and --peer-pubkey select the same thing; pass one'' [])), w, None)
      else case preflight of
          Inl e \<Rightarrow> (Some (Inl (failf exitUsage ''%w'' [e])), w, None)
        | Inr _ \<Rightarrow>
            (case mapErrS classifyLoad (Device_Load fuel sz c dev chooser) w of
               (Inl e, w1) \<Rightarrow> (Some (Inl e), w1, None)
             | (Inr (auth, tree), w1) \<Rightarrow> upOn c dev P E url ifname index key autoFailover answers es auth tree w1))"

subsection \<open>Down\<close>

definition ErrPermission :: error where
  "ErrPermission = Msg ''permission denied''"

definition Is :: "error \<Rightarrow> error \<Rightarrow> bool" where
  "Is e target \<longleftrightarrow> target \<in> set (unwrapped e)"

definition stateExit :: "error \<Rightarrow> error" where
  "stateExit e =
     (if Is e ErrPermission then failf exitUsage ''%w%x0A%s'' [e]
      else if Is e ErrNotRunning then failf exitUsage ''%w'' [e]
      else if Is e ErrAmbiguous then failf exitUsage ''%w - name one with --interface'' [e]
      else failf exitDevice ''%w'' [e])"

text \<open>
  What the command does to the world besides files: a signal, which reaches a process or not,
  and whether a state file is there.
\<close>

record 'w Process =
  Signal :: "int \<Rightarrow> int \<Rightarrow> 'w \<Rightarrow> bool \<times> 'w"
  Absent :: "string \<Rightarrow> 'w \<Rightarrow> bool \<times> 'w"

text \<open>
  \<open>waitGone\<close>: the clock answers \<open>n\<close> more times that the deadline has not passed.
\<close>

fun waitGone :: "nat \<Rightarrow> 'w Platform \<Rightarrow> 'w Process \<Rightarrow> string \<Rightarrow> int \<Rightarrow> 'w \<Rightarrow> bool \<times> 'w" where
  "waitGone n P Q ifname pid w =
     (case Absent Q (Path ifname) w of
        (True, w1) \<Rightarrow> (True, w1)
      | (False, w1) \<Rightarrow>
          (case Signal Q pid 0 w1 of
             (False, w2) \<Rightarrow> (True, snd (RemoveState P ifname w2))
           | (True, w2) \<Rightarrow>
               (case n of 0 \<Rightarrow> (False, w2) | Suc m \<Rightarrow> waitGone m P Q ifname pid w2)))"

declare waitGone.simps [simp del]

definition SIGTERM :: int where "SIGTERM = 15"

text \<open>Taking the interface down from here, once its owner is not there to do it.\<close>

definition takeDown :: "'w Platform \<Rightarrow> string \<Rightarrow> ('w, error, unit) io" where
  "takeDown P name =
     (\<lambda>w. case ifDown P name w of (r, w1) \<Rightarrow>
        (mapErr (\<lambda>e. failf exitDevice ''removing %s: %w'' [e]) r, snd (RemoveState P name w1)))"

definition cmdDown :: "nat \<Rightarrow> (string \<Rightarrow> State option) \<Rightarrow> 'w Platform \<Rightarrow> 'w Process \<Rightarrow> string \<Rightarrow> bool \<Rightarrow> ('w, error, unit) io" where
  "cmdDown n unjson P Q ifname explicit =
     bindS (mapErrS stateExit (Resolve unjson P ifname explicit)) (\<lambda>st w.
       case Signal Q (sPID st) SIGTERM w of
         (False, w1) \<Rightarrow> takeDown P (sInterface st) w1
       | (True, w1) \<Rightarrow>
           (case waitGone n P Q (sInterface st) (sPID st) w1 of
              (True, w2) \<Rightarrow> (Inr (), w2)
            | (False, w2) \<Rightarrow> takeDown P (sInterface st) w2))"

subsection \<open>What a choice is\<close>

lemma matchIdentity_Inr:
  "matchIdentity ids want = Inr kid \<longleftrightarrow>
   (\<exists>i. filter (\<lambda>i. HasPrefix (ToLower (idKID i)) (ToLower want)) ids = [i] \<and> kid = idKID i)"
  by (auto simp: matchIdentity_def Let_def split: list.splits)

lemma filter_singleton: "filter P xs = [x] \<Longrightarrow> x \<in> set xs"
  by (auto simp: filter_eq_Cons_iff)

lemma chooseIdentity_offered: "chooseIdentity identity answer ids = Inr kid \<Longrightarrow> kid \<in> set (identityKIDs ids)"
proof -
  assume c: "chooseIdentity identity answer ids = Inr kid"
  show ?thesis
  proof (cases "TrimSpace identity = []")
    case True
    with c show ?thesis
      by (auto simp: chooseIdentity_def promptForIdentity_def identityKIDs_def Let_def split: sum.splits option.splits if_splits)
  next
    case False
    with c obtain i where "filter (\<lambda>i. HasPrefix (ToLower (idKID i)) (ToLower (TrimSpace identity))) ids = [i]" "kid = idKID i"
      by (auto simp: chooseIdentity_def matchIdentity_Inr)
    with filter_singleton show ?thesis by (fastforce simp: identityKIDs_def)
  qed
qed

lemma uniquePeer_Inr:
  "uniquePeer pre ps found = Inr r \<longleftrightarrow>
   (let ms = filter (\<lambda>p. HasPrefix (b64Encode (cpPubKey p)) pre) ps in
    ms = [] \<and> r = found \<or> (\<exists>p. ms = [p] \<and> found = None \<and> r = Some p))"
  by (induction ps arbitrary: found) (auto simp: Let_def)

lemma selectPeer_offered:
  "selectPeer tree index key answer = Inr p \<Longrightarrow> p \<in> set (Peers tree) \<and>
   (index = 0 \<longrightarrow> key \<noteq> [] \<longrightarrow> filter (\<lambda>p. HasPrefix (b64Encode (cpPubKey p)) key) (Peers tree) = [p])"
proof -
  assume s: "selectPeer tree index key answer = Inr p"
  show ?thesis
  proof (cases "index = 0 \<and> key \<noteq> []")
    case True
    with s have "filter (\<lambda>p. HasPrefix (b64Encode (cpPubKey p)) key) (Peers tree) = [p]"
      by (auto simp: selectPeer_def uniquePeer_Inr Let_def result_inv split: if_splits option.splits)
    with filter_singleton show ?thesis by fastforce
  next
    case False
    with s show ?thesis
      by (auto simp: selectPeer_def promptForPeer_def Let_def split: if_splits sum.splits option.splits)
  qed
qed

subsection \<open>What an upped tunnel is on\<close>

lemma honest_lift: "honest_hmac c token kid h \<Longrightarrow> honest_hmac (liftClient c) token kid h"
  by (auto simp: honest_hmac_def liftClient_def onDevice_def split: prod.splits) (metis fst_conv)+

lemma Device_Load_authentic:
  assumes "\<And>token kid. honest_hmac c token kid (h kid)" and "Device_Load fuel sz c dev chooser w = (Inr (auth, t), w')"
  shows "tree_ok sz t \<and> (\<exists>msg. Canonical sz (IfPubKey t) (IfRaw t) (map recordOf (Peers t)) = Inr msg \<and>
     MAC (Iface t) = h (IfKID t) msg)"
proof -
  from assms(2) obtain a d1 where cn: "Connect c dev w = (Inr a, d1)" by (auto simp: Device_Load_def result_inv)
  obtain r s a' where "Load fuel sz (liftClient c) (Token c dev) chooser (d1, a) = (r, (s, a'))" by (metis prod_cases3)
  with assms(2) cn have "Load fuel sz (liftClient c) (Token c dev) chooser (d1, a) = (Inr t, (w', auth))"
    by (auto simp: Device_Load_def bindS_apply split: sum.splits)
  from Load_loadFrom [OF this] obtain e r s where
    "loadFrom fuel sz (liftClient c) (Token c dev) e r s = (Inr t, (w', auth))" by blast
  from loadFrom_authentic [OF honest_lift [OF assms(1)] this] show ?thesis by blast
qed

lemma upOn_inTree:
  "upOn c dev P E url ifname index key auto answers es auth tree w = (r, w', Some (t, tun)) \<Longrightarrow>
   t = tree \<and> inTree tree tun"
proof -
  assume u: "upOn c dev P E url ifname index key auto answers es auth tree w = (r, w', Some (t, tun))"
  then obtain peer useTok w1 a where p: "selectPeer tree index key (case answers of [] \<Rightarrow> Inr [] | a # _ \<Rightarrow> a) = Inr peer"
    and tk: "Token c dev (''keymgmt:use:'' @ IfKID tree) (w, auth) = (Inr useTok, (w1, a))"
    by (auto simp: upOn_def split: sum.splits prod.splits)
  let ?o = "\<lparr>oTree = tree, oUseTok = useTok, oHEMURL = url, oIfname = ifname\<rparr>"
  have "peer \<in> set (Peers (oTree ?o))" using selectPeer_offered [OF p] by simp
  note inv = walk.Run_inTree [OF this] reprompt.Run_inTree [OF this]
  show ?thesis
  proof (cases auto)
    case True
    obtain q x s where run: "Tunnel_Run c P E ?o WalkPeers es (\<lambda>_. False) peer (w1, New ?o) = (q, x, s)" by (metis prod_cases3)
    with inv(1) [of c P E es "\<lambda>_. False" w1] u p tk True show ?thesis
      by (auto simp: upOn_def Let_def split: option.splits prod.splits)
  next
    case False
    let ?rest = "if needsPrompt tree index key then drop 1 answers else answers"
    obtain q x s where run: "Tunnel_Run c P E ?o repromptPeer es ?rest peer (w1, New ?o) = (q, x, s)" by (metis prod_cases3)
    with inv(2) [of c P E es ?rest w1] u p tk False show ?thesis
      by (auto simp: upOn_def Let_def split: option.splits prod.splits)
  qed
qed

text \<open>
  C19: what \<open>up\<close> starts.  Whichever identity and peer are asked for and whatever is typed at the
  prompts, a tunnel that \<open>up\<close> starts is on a configuration the device has authenticated, and it
  never points at anything but one of its peers.
\<close>

theorem up_is_authentic:
  assumes "\<And>token kid. honest_hmac c token kid (h kid)"
    and "cmdUp fuel sz c dev chooser P E preflight url ifname index key auto answers es w = (r, w', Some (t, tun))"
  shows "tree_ok sz t \<and> inTree t tun \<and>
    (\<exists>msg. Canonical sz (IfPubKey t) (IfRaw t) (map recordOf (Peers t)) = Inr msg \<and> MAC (Iface t) = h (IfKID t) msg)"
proof -
  from assms(2) obtain a tree w1 where l: "Device_Load fuel sz c dev chooser w = (Inr (a, tree), w1)"
    and u: "upOn c dev P E url ifname index key auto answers es a tree w1 = (r, w', Some (t, tun))"
    by (auto simp: cmdUp_def mapErrS_def mapErr_eq_Inr split: if_splits sum.splits prod.splits)
  from Device_Load_authentic [OF assms(1) l] upOn_inTree [OF u] show ?thesis by simp
qed

theorem up_is_authentic_witness:
  "\<exists>tag r w' t tun. cmdUp 1 size_descr64 (phoneClient (\<lambda>_. toyTag)) phoneDevice None examplePlatform exampleEnv (Inr ()) ''u'' ''wg0'' 0 [] True [] []
     (exampleStore tag) = (r, w', Some (t, tun)) \<and> tree_ok size_descr64 t \<and> inTree t tun"
proof -
  let ?h = "\<lambda>_. toyTag" and ?c = "phoneClient (\<lambda>_. toyTag)"
  obtain tag where l: "length tag = MACLen" and hh: "holds size_descr64 (memTag ?h) (exampleStore tag) (exampleTree tag)"
    using example_mem_load by blast
  let ?a = "\<lparr>asked = False, expSecs = 28800\<rparr>"
  have cn: "Connect ?c phoneDevice (exampleStore tag) = (Inr ?a, exampleStore tag)"
    by (simp add: Connect_def phoneClient_def phoneDevice_def mapErrS_def bindS_apply)
  have one: "length (matching (bytes_of MagicInterface) (exampleStore tag)) = 1"
    using exampleIfRecord_magic [OF l] magics_differ [OF examplePeerRecord_magic] by (simp add: matching_def exampleStore_def)
  have n: "length (exampleStore tag) < 50 * 1" by (simp add: exampleStore_def)
  obtain w1 a1 where ld: "Load 1 size_descr64 (liftClient ?c) (Token ?c phoneDevice) None (exampleStore tag, ?a) = (Inr (exampleTree tag), (w1, a1))"
    using sess.load_only [of size_descr64 ?h "(exampleStore tag, ?a)" "exampleTree tag" 1 None] hh n one by auto
  have sp: "selectPeer (exampleTree tag) 0 [] (Inr []) = Inr (Peers (exampleTree tag) ! 0)"
    by (simp add: selectPeer_def exampleTree_def)
  have tk: "Token ?c phoneDevice s (w1, a1) = (Inr ''t'', (w1, a1))" for s
    by (simp add: Token_def phoneClient_def phoneDevice_def)
  let ?o = "\<lparr>oTree = exampleTree tag, oUseTok = ''t'', oHEMURL = ''u'', oIfname = ''wg0''\<rparr>"
  obtain q x w2 tun where run: "Tunnel_Run ?c examplePlatform exampleEnv ?o WalkPeers [] (\<lambda>_. False) (Peers (exampleTree tag) ! 0) (w1, New ?o)
      = (q, x, (w2, tun))" by (metis prod_cases4)
  have "\<exists>r w'. cmdUp 1 size_descr64 ?c phoneDevice None examplePlatform exampleEnv (Inr ()) ''u'' ''wg0'' 0 [] True [] []
     (exampleStore tag) = (r, w', Some (exampleTree tag, tun))"
    using cn ld sp tk run by (cases q) (simp_all add: cmdUp_def Device_Load_def upOn_def bindS_apply mapErrS_def)
  then obtain r w' where u: "cmdUp 1 size_descr64 ?c phoneDevice None examplePlatform exampleEnv (Inr ()) ''u'' ''wg0'' 0 [] True [] []
     (exampleStore tag) = (r, w', Some (exampleTree tag, tun))" by blast
  from up_is_authentic [OF phone.macs u] u show ?thesis by blast
qed

subsection \<open>Stopping\<close>

text \<open>The wait ends with the owner gone, or when the deadline has passed with the owner still there.\<close>

lemma waitGone_false:
  "waitGone n P Q ifname pid w = (False, w') \<Longrightarrow> \<exists>w1. Signal Q pid 0 w1 = (True, w')"
  by (induction n arbitrary: w) (subst (asm) waitGone.simps; auto split: prod.splits bool.splits nat.splits)+

lemma cmdDown_Inl:
  assumes "cmdDown n unjson P Q ifname explicit w = (Inl e, w')"
  shows "(\<exists>e0 w1. Resolve unjson P ifname explicit w = (Inl e0, w1) \<and> e = stateExit e0) \<or>
    (\<exists>st w1 w2 w3 e0. Resolve unjson P ifname explicit w = (Inr st, w1) \<and> ifDown P (sInterface st) w2 = (Inl e0, w3) \<and>
       e = failf exitDevice ''removing %s: %w'' [e0])"
  using assms
  by (auto simp: cmdDown_def takeDown_def bindS_apply mapErrS_def mapErr_def split: prod.splits sum.splits bool.splits if_splits)

end
