(* ===== verification/Quick.thy ===== *)
theory Quick
  imports Wgconf Teardown
begin

text \<open>
  \<open>cmd/wg-quick-encedo\<close>: the older front end, which reads a WireGuard file with the device's key
  identifiers in it and brings one interface up.  \<open>config.go\<close> reads the file; \<open>main.go\<close>
  authorises, resolves the peers' keys, configures the interface and undoes it.
\<close>

subsection \<open>The configuration file\<close>

record QInterface =
  qiAddress :: Prefix
  qiListenPort :: int
  qiHEMURL :: string
  qiHEMKID :: string
  qiBroker :: string
  qiDNS :: "string list"
  qiMTU :: int

record QPeer =
  qpPublicKey :: string
  qpHEMKID :: string
  qpEndpoint :: string
  qpAllowedIPs :: "Prefix list"
  qpKeepalive :: int

record QConfig =
  qInterface :: QInterface
  qPeers :: "QPeer list"

definition validateKID :: "string \<Rightarrow> string + unit" where
  "validateKID kid =
     (if length kid \<noteq> 32 then Inl ''HEM_KID must be a 32-character hex string, got %d characters''
      else case hexDecodeString kid of None \<Rightarrow> Inl ''HEM_KID is not valid hex: %w'' | Some _ \<Rightarrow> Inr ())"

definition addressKey :: "string \<Rightarrow> string \<Rightarrow> QInterface \<Rightarrow> string + QInterface" where
  "addressKey key value i =
     (if key = ''PrivateKey'' then Inl ''PrivateKey must not be present in config - use HEM_KID instead''
      else if key = ''Address'' then
        (case ParsePrefix value of None \<Rightarrow> Inl ''invalid Address %q: %w'' | Some p \<Rightarrow> Inr (i\<lparr>qiAddress := p\<rparr>))
      else if key = ''ListenPort'' then
        (case Atoi value of None \<Rightarrow> Inl ''invalid ListenPort: %w'' | Some n \<Rightarrow> Inr (i\<lparr>qiListenPort := n\<rparr>))
      else if key = ''HEM_URL'' then Inr (i\<lparr>qiHEMURL := value\<rparr>)
      else if key = ''HEM_KID'' then bindE (validateKID value) (\<lambda>_. Inr (i\<lparr>qiHEMKID := value\<rparr>))
      else if key = ''HEM_BROKER_URL'' then Inr (i\<lparr>qiBroker := value\<rparr>)
      else if key = ''DNS'' then Inr (i\<lparr>qiDNS := qiDNS i @ splitList value\<rparr>)
      else if key = ''MTU'' then
        (case Atoi value of None \<Rightarrow> Inl ''invalid MTU: %w'' | Some n \<Rightarrow> Inr (i\<lparr>qiMTU := n\<rparr>))
      else Inr i)"

definition peerLineKey :: "string \<Rightarrow> string \<Rightarrow> QPeer \<Rightarrow> string + QPeer" where
  "peerLineKey key value p =
     (if key = ''PublicKey'' then Inr (p\<lparr>qpPublicKey := value\<rparr>)
      else if key = ''HEM_KID'' then
        bindE (mapErr (\<lambda>e. ''peer HEM_KID: '' @ e) (validateKID value)) (\<lambda>_. Inr (p\<lparr>qpHEMKID := value\<rparr>))
      else if key = ''Endpoint'' then Inr (p\<lparr>qpEndpoint := value\<rparr>)
      else if key = ''AllowedIPs'' then
        bindE (parseAll ParsePrefix ''invalid AllowedIPs %q: %w'' (splitList value)) (\<lambda>ps.
          Inr (p\<lparr>qpAllowedIPs := qpAllowedIPs p @ ps\<rparr>))
      else if key = ''PersistentKeepalive'' then
        (case Atoi value of None \<Rightarrow> Inl ''invalid PersistentKeepalive: %w'' | Some n \<Rightarrow> Inr (p\<lparr>qpKeepalive := n\<rparr>))
      else Inr p)"

text \<open>\<open>qCurrent\<close> is \<open>currentPeer\<close>, present exactly while \<open>inPeer\<close>.\<close>

record QState =
  qCfg :: QConfig
  qCurrent :: "QPeer option"
  qInIface :: bool

definition emptyQInterface :: QInterface where
  "emptyQInterface = \<lparr>qiAddress = \<lparr>pfxAddr = AddrZero, pfxBits = -1\<rparr>, qiListenPort = 0, qiHEMURL = [], qiHEMKID = [],
     qiBroker = [], qiDNS = [], qiMTU = 0\<rparr>"

definition emptyQPeer :: QPeer where
  "emptyQPeer = \<lparr>qpPublicKey = [], qpHEMKID = [], qpEndpoint = [], qpAllowedIPs = [], qpKeepalive = 0\<rparr>"

definition flushPeer :: "QState \<Rightarrow> string + QState" where
  "flushPeer s =
     (case qCurrent s of
        None \<Rightarrow> Inr s
      | Some p \<Rightarrow>
          if qpPublicKey p = [] \<and> qpHEMKID p = [] then Inl ''peer is missing PublicKey or HEM_KID''
          else Inr (s\<lparr>qCfg := (qCfg s)\<lparr>qPeers := qPeers (qCfg s) @ [p]\<rparr>, qCurrent := None\<rparr>))"

definition openSection :: "string \<Rightarrow> QState \<Rightarrow> QState" where
  "openSection section s =
     s\<lparr>qInIface := (ToLower section = ''interface''),
       qCurrent := (if ToLower section = ''peer'' then Some emptyQPeer else None)\<rparr>"

definition keyLine :: "string \<Rightarrow> string \<Rightarrow> QState \<Rightarrow> string + QState" where
  "keyLine key value s =
     (if qInIface s then
        bindE (addressKey key value (qInterface (qCfg s))) (\<lambda>i. Inr (s\<lparr>qCfg := (qCfg s)\<lparr>qInterface := i\<rparr>\<rparr>))
      else case qCurrent s of
          None \<Rightarrow> Inr s
        | Some p \<Rightarrow> bindE (peerLineKey key value p) (\<lambda>p. Inr (s\<lparr>qCurrent := Some p\<rparr>)))"

definition configLine :: "string \<Rightarrow> QState \<Rightarrow> string + QState" where
  "configLine line s =
     (let line = TrimSpace line in
      if line = [] \<or> HasPrefix line ''#'' \<or> HasPrefix line '';'' then Inr s
      else if HasPrefix line ''['' \<and> HasSuffix line '']'' then
        bindE (flushPeer s) (\<lambda>s. Inr (openSection (butlast (tl line)) s))
      else case Cut line (CHR ''='') of
          None \<Rightarrow> Inr s
        | Some (key, value) \<Rightarrow> keyLine (TrimSpace key) (TrimSpace value) s)"

fun configLines :: "string list \<Rightarrow> QState \<Rightarrow> string + QState" where
  "configLines [] s = Inr s"
| "configLines (line # lines) s = bindE (configLine line s) (configLines lines)"

text \<open>The lines the scanner delivered, and whether it then stopped with an error.\<close>

definition ParseConfig :: "string list \<Rightarrow> bool \<Rightarrow> string + QConfig" where
  "ParseConfig lines scanErr =
     bindE (configLines lines \<lparr>qCfg = \<lparr>qInterface = emptyQInterface, qPeers = []\<rparr>, qCurrent = None, qInIface = False\<rparr>) (\<lambda>s.
       if scanErr then Inl ''scanner error''
       else bindE (flushPeer s) (\<lambda>s.
         if qiHEMURL (qInterface (qCfg s)) = [] then Inl ''HEM_URL is required in [Interface]''
         else if qiHEMKID (qInterface (qCfg s)) = [] then Inl ''HEM_KID is required in [Interface]''
         else Inr (qCfg s)))"

subsection \<open>What the configuration becomes\<close>

definition runtimePeers :: "QPeer list \<Rightarrow> RtPeer list" where
  "runtimePeers peers = map (\<lambda>p. \<lparr>rpEndpoint = qpEndpoint p, rpAllowedIPs = qpAllowedIPs p\<rparr>) peers"

text \<open>
  The bytes \<open>DecodeString\<close> returns with its error dropped: the whole key of a valid encoding,
  what was read before the first fault otherwise; that part is a parameter.
\<close>

definition decodeAnyway :: "(string \<Rightarrow> bytes) \<Rightarrow> string \<Rightarrow> bytes" where
  "decodeAnyway part s = (case b64Decode s of Some raw \<Rightarrow> raw | None \<Rightarrow> part s)"

definition peerUAPI :: "(string \<Rightarrow> bytes) \<Rightarrow> QPeer \<Rightarrow> string" where
  "peerUAPI part p =
     ''public_key='' @ hexEncodeToString (decodeAnyway part (qpPublicKey p)) @ lf @
     (if qpEndpoint p \<noteq> [] then ''endpoint='' @ qpEndpoint p @ lf else []) @
     concat (map (\<lambda>a. ''allowed_ip='' @ PrefixString a @ lf) (qpAllowedIPs p)) @
     (if qpKeepalive p > 0 then ''persistent_keepalive_interval='' @ Itoa (qpKeepalive p) @ lf else [])"

definition buildUAPIConfig :: "(string \<Rightarrow> bytes) \<Rightarrow> QConfig \<Rightarrow> string" where
  "buildUAPIConfig part cfg =
     ''private_key='' @ replicate 64 (CHR ''0'') @ lf @
     (if qiListenPort (qInterface cfg) \<noteq> 0 then ''listen_port='' @ Itoa (qiListenPort (qInterface cfg)) @ lf else []) @
     concat (map (peerUAPI part) (qPeers cfg)) @ lf"

subsection \<open>Authorising\<close>

definition sessionSeconds :: "string \<Rightarrow> int" where
  "sessionSeconds line =
     (if TrimSpace line = [] then 8 * 3600
      else case Atoi (TrimSpace line) of
          None \<Rightarrow> 8 * 3600
        | Some h \<Rightarrow> if h > 0 then wrap64 (h * 3600) else 8 * 3600)"

text \<open>
  The two tokens: for looking up the peers' keys, empty when no peer needs it, and for the
  handshakes.  The password is reused by handing none the second time.
\<close>

definition authTokens :: "'w Client \<Rightarrow> string \<Rightarrow> bool \<Rightarrow> int \<Rightarrow> string \<Rightarrow> error + bytes \<Rightarrow> ('w, error, string \<times> string) io" where
  "authTokens c scope needsLookup expSeconds choice password =
     (if choice = ''m'' then
        bindS (if needsLookup then AuthRemote c ''keymgmt:get'' else returnS []) (\<lambda>lookup.
        bindS (AuthRemote c scope) (\<lambda>ecdh. returnS (lookup, ecdh)))
      else
        bindS (liftE password) (\<lambda>pass.
        bindS (if needsLookup then AuthPassword c pass ''keymgmt:get'' 120 else returnS []) (\<lambda>lookup.
        bindS (AuthPassword c (if needsLookup then [] else pass) scope expSeconds) (\<lambda>ecdh.
          returnS (lookup, ecdh)))))"

definition authInteractive :: "'w Client \<Rightarrow> string \<Rightarrow> bool \<Rightarrow> string \<Rightarrow> string \<Rightarrow> error + bytes \<Rightarrow> ('w, error, string \<times> string) io" where
  "authInteractive c scope needsLookup hours choice password =
     (\<lambda>w. case authTokens c scope needsLookup (sessionSeconds hours) (TrimSpace (ToLower choice)) password w of
        (r, w') \<Rightarrow> (r, ClearKeys c w'))"

text \<open>The keys of the peers that are named by identifier, and the identifiers by key.\<close>

fun resolvePeers :: "'w Client \<Rightarrow> string \<Rightarrow> QPeer list \<Rightarrow> ('w, error, QPeer list \<times> (bytes \<times> string) list) io" where
  "resolvePeers c lookup [] = returnS ([], [])"
| "resolvePeers c lookup (p # ps) =
     (if qpHEMKID p = [] then
        bindS (resolvePeers c lookup ps) (\<lambda>(qs, kids). returnS (p # qs, kids))
      else
        bindS (mapErrS (\<lambda>e. Wrap ''GetPubKey peer HEM_KID %s...: %v'' [e]) (GetPubKey c lookup (qpHEMKID p))) (\<lambda>key.
        bindS (resolvePeers c lookup ps) (\<lambda>(qs, kids).
          returnS (p\<lparr>qpPublicKey := b64Encode (keyPubKey key)\<rparr> # qs, (copy32 (keyPubKey key), qpHEMKID p) # kids))))"

subsection \<open>Bringing the interface up\<close>

text \<open>
  The local variables of \<open>cmdUp\<close> - the name, the session, the pins and whether DNS was given - are
  the fields of the tunnel's record with the same meaning; a \<open>fatal\<close> is the error it prints.
\<close>

definition fatalS :: "string \<Rightarrow> ('w, error, 'a) io \<Rightarrow> ('w \<times> 's, error, 'a) io" where
  "fatalS msg m = mapErrS (\<lambda>e. Wrap msg [e]) (onDevice m)"

definition quickTeardown :: "'w Platform \<Rightarrow> ('w \<times> Tunnel, error, unit) io" where
  "quickTeardown P =
     bindS (readS (\<lambda>t. if dnsSet t then ignoreS (onDevice (RevertDNS P (tIfname t))) else returnS ())) (\<lambda>_.
     bindS (ignoreS (onDevice (devClose P))) (\<lambda>_.
     bindS (readS (\<lambda>t. ignoreS (onDevice (ifDown P (tIfname t))))) (\<lambda>_.
     bindS (onPins (Pins_Restore P)) (\<lambda>_.
       readS (\<lambda>t. ignoreS (onDevice (RemoveFile P (pubPath (tIfname t)))))))))"

text \<open>Up to the device session: the tokens, the keys and the routing plan.\<close>

definition quickSession :: "'w Client \<Rightarrow> 'w Platform \<Rightarrow> QConfig \<Rightarrow> string \<Rightarrow> string \<Rightarrow> error + bytes \<Rightarrow>
    ('w \<times> Tunnel, error, QConfig \<times> Plan) io" where
  "quickSession c P cfg hours choice password =
     (let i = qInterface cfg; needsLookup = list_ex (\<lambda>p. qpHEMKID p \<noteq> []) (qPeers cfg) in
      if \<not> PrefixIsValid (qiAddress i) then failS (Msg ''Address is required in [Interface]'')
      else
      bindS (fatalS ''checkin: %v'' (Checkin c)) (\<lambda>_.
      bindS (fatalS ''auth: %v'' (authInteractive c (''keymgmt:use:'' @ qiHEMKID i) needsLookup hours choice password)) (\<lambda>(lookup, ecdh).
      bindS (fatalS ''GetPubKey: %v'' (GetPubKey c ecdh (qiHEMKID i))) (\<lambda>my.
      bindS (ignoreS (onDevice (MkdirAll P Dir))) (\<lambda>_.
      bindS (readS (\<lambda>t. ignoreS (onDevice (WriteFile P (pubPath (tIfname t)) (b64Encode (keyPubKey my) @ lf))))) (\<lambda>_.
      bindS (onDevice (resolvePeers c lookup (qPeers cfg))) (\<lambda>(peers, kids).
      bindS (fatalS ''routing: %v'' (PlanRouting P (runtimePeers peers) (qiHEMURL i))) (\<lambda>plan.
      bindS (updS (\<lambda>t. t\<lparr>tHsm := Some (fold (\<lambda>(pk, kid). AddPeerKID pk kid) kids
               (NewHSM ecdh (qiHEMKID i) (copy32 (keyPubKey my))))\<rparr>)) (\<lambda>_.
        returnS (cfg\<lparr>qPeers := peers\<rparr>, plan))))))))))"

text \<open>And the interface: nothing up to here is undone by the program but by its exit.\<close>

definition quickCreate :: "'w Platform \<Rightarrow> ('w \<times> Tunnel, error, unit) io" where
  "quickCreate P =
     bindS (readS (\<lambda>t. fatalS ''create TUN: %v'' (CreateTUN P (tIfname t) 1420))) (\<lambda>name.
       updS (\<lambda>t. t\<lparr>tIfname := (if name \<noteq> [] then name else tIfname t), tDev := True\<rparr>))"

definition quickInterface :: "(string \<Rightarrow> bytes) \<Rightarrow> 'w Platform \<Rightarrow> QConfig \<Rightarrow> ('w \<times> Tunnel, error, unit) io" where
  "quickInterface part P cfg =
     (let i = qInterface cfg in
      bindS (fatalS ''bringing the tunnel device up: %v'' (devUp P)) (\<lambda>_.
      bindS (fatalS ''IpcSet: %v'' (IpcSet P (buildUAPIConfig part cfg))) (\<lambda>_.
      bindS (readS (\<lambda>t. fatalS ''bringing %s up: %v'' (ifUp P (tIfname t) [qiAddress i]))) (\<lambda>_.
        if qiMTU i > 0
        then readS (\<lambda>t. fatalS ''setting the MTU: %v'' (SetMTU P (tIfname t) (nat (qiMTU i))))
        else returnS ()))))"

definition quickDevice :: "(string \<Rightarrow> bytes) \<Rightarrow> 'w Client \<Rightarrow> 'w Platform \<Rightarrow> QConfig \<Rightarrow> string \<Rightarrow> string \<Rightarrow> error + bytes \<Rightarrow>
    ('w \<times> Tunnel, error, QConfig \<times> Plan) io" where
  "quickDevice part c P cfg hours choice password =
     bindS (quickSession c P cfg hours choice password) (\<lambda>(cfg, plan).
     bindS (quickCreate P) (\<lambda>_.
     bindS (quickInterface part P cfg) (\<lambda>_.
       returnS (cfg, plan))))"

text \<open>From the first pinned route on: every error here goes through the teardown.\<close>

definition giveDNS :: "'w Platform \<Rightarrow> string list \<Rightarrow> ('w \<times> Tunnel, error, unit) io" where
  "giveDNS P servers =
     bindS (readS (\<lambda>t. fatalS ''setting DNS: %v'' (SetDNS P (tIfname t) servers))) (\<lambda>_.
       updS (\<lambda>t. t\<lparr>dnsSet := True\<rparr>))"

definition quickRoutes :: "'w Client \<Rightarrow> 'w Platform \<Rightarrow> QConfig \<Rightarrow> Plan \<Rightarrow> ('w \<times> Tunnel, error, unit) io" where
  "quickRoutes c P cfg plan =
     bindS (mapErrS (\<lambda>e. Wrap ''route exception: %v'' [e]) (onPins (Pins_Add P (Endpoints plan)))) (\<lambda>_.
     bindS (readS (\<lambda>t. fatalS ''installing routes: %v'' (AddRoutes P (tIfname t) (concat (map qpAllowedIPs (qPeers cfg)))))) (\<lambda>_.
     bindS (if qiDNS (qInterface cfg) = [] then returnS ()
            else giveDNS P (qiDNS (qInterface cfg))) (\<lambda>_.
     bindS (if HEMInside plan then fatalS ''%v'' (ProbeHEM c (planHEMHost plan)) else returnS ()) (\<lambda>_.
       readS (\<lambda>t. fatalS ''UAPI listen: %v'' (UAPIListen P (tIfname t)))))))"

definition quickVars :: "string \<Rightarrow> Tunnel" where
  "quickVars ifname = \<lparr>tIfname = ifname, tDev = False, tHsm = None, tPins = None, dnsSet = False, blind = False,
     tPeer = None, tPsk = [], hemInside = False, hemHost = []\<rparr>"

text \<open>The whole command; \<open>ended\<close> says whether one of the channels it waits on fired, none while it holds.\<close>

definition quickUp :: "(string \<Rightarrow> bytes) \<Rightarrow> 'w Client \<Rightarrow> 'w Platform \<Rightarrow> string + QConfig \<Rightarrow> string \<Rightarrow> string \<Rightarrow> error + bytes \<Rightarrow>
    bool \<Rightarrow> 'w \<times> Tunnel \<Rightarrow> (error + unit) option \<times> 'w \<times> Tunnel" where
  "quickUp part c P file hours choice password ended s =
     (case file of
        Inl e \<Rightarrow> (Some (Inl (Wrap ''config: %v'' [Msg e])), s)
      | Inr cfg \<Rightarrow>
          (case bindS (quickDevice part c P cfg hours choice password) (\<lambda>x.
                  bindS (updS (\<lambda>t. t\<lparr>tPins := Some []\<rparr>)) (\<lambda>_. returnS x)) s of
             (Inl e, s1) \<Rightarrow> (Some (Inl e), s1)
           | (Inr (cfg, plan), s1) \<Rightarrow>
               (case quickRoutes c P cfg plan s1 of
                  (Inl e, s2) \<Rightarrow> (Some (Inl e), snd (quickTeardown P s2))
                | (Inr _, s2) \<Rightarrow> if ended then (Some (Inr ()), snd (quickTeardown P s2)) else (None, s2))))"

subsection \<open>What is read is usable\<close>

definition okKID :: "string \<Rightarrow> bool" where
  "okKID kid \<longleftrightarrow> length kid = 32 \<and> hexDecodeString kid \<noteq> None"

lemma validateKID_Inr: "validateKID kid = Inr u \<longleftrightarrow> okKID kid"
  by (auto simp: validateKID_def okKID_def split: option.splits)

definition okQPeer :: "QPeer \<Rightarrow> bool" where
  "okQPeer p \<longleftrightarrow> (qpHEMKID p \<noteq> [] \<longrightarrow> okKID (qpHEMKID p)) \<and> (\<forall>a \<in> set (qpAllowedIPs p). PrefixIsValid a)"

definition okQState :: "QState \<Rightarrow> bool" where
  "okQState s \<longleftrightarrow> (qiHEMKID (qInterface (qCfg s)) \<noteq> [] \<longrightarrow> okKID (qiHEMKID (qInterface (qCfg s)))) \<and>
     (qiAddress (qInterface (qCfg s)) \<noteq> qiAddress emptyQInterface \<longrightarrow> PrefixIsValid (qiAddress (qInterface (qCfg s)))) \<and>
     (\<forall>p \<in> set (qPeers (qCfg s)). okQPeer p \<and> (qpPublicKey p \<noteq> [] \<or> qpHEMKID p \<noteq> [])) \<and>
     (\<forall>p. qCurrent s = Some p \<longrightarrow> okQPeer p)"

lemma flushPeer_ok: "flushPeer s = Inr s' \<Longrightarrow> okQState s \<Longrightarrow> okQState s' \<and> qCurrent s' = None"
  by (auto simp: flushPeer_def okQState_def split: option.splits if_splits)

lemma addressKey_ok:
  "addressKey key value (qInterface (qCfg s)) = Inr i \<Longrightarrow> okQState s \<Longrightarrow> okQState (s\<lparr>qCfg := (qCfg s)\<lparr>qInterface := i\<rparr>\<rparr>)"
  by (auto simp: addressKey_def okQState_def result_inv validateKID_Inr dest: ParsePrefix_valid split: if_splits option.splits)

lemma peerLineKey_ok: "peerLineKey key value p = Inr q \<Longrightarrow> okQPeer p \<Longrightarrow> okQPeer q"
  by (auto simp: peerLineKey_def okQPeer_def result_inv validateKID_Inr split: if_splits option.splits
      dest: parseAll_valid [where P = PrefixIsValid, OF _ ParsePrefix_valid])

lemma keyLine_ok:
  assumes "keyLine k v s = Inr s'" and ok: "okQState s"
  shows "okQState s'"
proof (cases "qInIface s")
  case True
  with assms(1) obtain i where "addressKey k v (qInterface (qCfg s)) = Inr i" "s' = s\<lparr>qCfg := (qCfg s)\<lparr>qInterface := i\<rparr>\<rparr>"
    by (auto simp: keyLine_def result_inv)
  with addressKey_ok ok show ?thesis by blast
next
  case False
  show ?thesis
  proof (cases "qCurrent s")
    case (Some p)
    with False assms(1) obtain q where "peerLineKey k v p = Inr q" "s' = s\<lparr>qCurrent := Some q\<rparr>" by (auto simp: keyLine_def result_inv)
    with peerLineKey_ok Some ok show ?thesis by (auto simp: okQState_def)
  qed (use False assms in \<open>simp add: keyLine_def\<close>)
qed

lemma openSection_ok: "okQState s \<Longrightarrow> qCurrent s = None \<Longrightarrow> okQState (openSection n s)"
  by (auto simp: okQState_def openSection_def okQPeer_def emptyQPeer_def)

lemma line_cases:
  assumes "(if a then Inr s else if b then x else case c of None \<Rightarrow> Inr s | Some (k, v) \<Rightarrow> f k v) = Inr s'"
    and "I s" and "x = Inr s' \<Longrightarrow> I s'" and "\<And>k v. f k v = Inr s' \<Longrightarrow> I s'"
  shows "I s'"
  using assms by (auto split: if_splits option.splits)

lemma configLine_ok:
  assumes "configLine line s = Inr s'" and "okQState s"
  shows "okQState s'"
proof (rule line_cases [OF assms(1) [unfolded configLine_def Let_def], of okQState, OF assms(2)])
  assume "bindE (flushPeer s) (\<lambda>s. Inr (openSection (butlast (tl (TrimSpace line))) s)) = Inr s'"
  then obtain u where "flushPeer s = Inr u" "s' = openSection (butlast (tl (TrimSpace line))) u" by (auto simp only: result_inv sum.inject)
  with flushPeer_ok openSection_ok assms(2) show "okQState s'" by blast
qed (use keyLine_ok assms(2) in blast)

lemma configLines_ok: "configLines lines s = Inr s' \<Longrightarrow> okQState s \<Longrightarrow> okQState s'"
  by (induction lines arbitrary: s) (auto simp: result_inv dest: configLine_ok)

text \<open>
  C37: a file that is accepted is well formed.  Its device and key are named, every identifier in
  it is 32 hexadecimal digits, every peer is named by a key or by an identifier, and every
  prefix is valid.
\<close>

theorem config_well_formed:
  assumes "ParseConfig lines scanErr = Inr cfg"
  shows "qiHEMURL (qInterface cfg) \<noteq> [] \<and> okKID (qiHEMKID (qInterface cfg)) \<and>
    (\<forall>p \<in> set (qPeers cfg). (qpPublicKey p \<noteq> [] \<or> qpHEMKID p \<noteq> []) \<and> (qpHEMKID p \<noteq> [] \<longrightarrow> okKID (qpHEMKID p)) \<and>
      (\<forall>a \<in> set (qpAllowedIPs p). PrefixIsValid a))"
proof -
  let ?s0 = "\<lparr>qCfg = \<lparr>qInterface = emptyQInterface, qPeers = []\<rparr>, qCurrent = None, qInIface = False\<rparr>"
  have 0: "okQState ?s0" by (simp add: okQState_def emptyQInterface_def)
  from assms obtain s1 s2 where s: "configLines lines ?s0 = Inr s1" "flushPeer s1 = Inr s2"
    and cfg: "cfg = qCfg s2" "qiHEMURL (qInterface cfg) \<noteq> []" "qiHEMKID (qInterface cfg) \<noteq> []"
    by (auto simp: ParseConfig_def result_inv split: if_splits)
  have "okQState s2" using configLines_ok [OF s(1) 0] flushPeer_ok [OF s(2)] by blast
  with cfg show ?thesis by (simp add: okQState_def okQPeer_def)
qed

definition exampleQuickLines :: "string list" where
  "exampleQuickLines =
     [''[Interface]'', ''Address = 10.0.0.2/32'', ''HEM_URL = hem'', ''HEM_KID = 0123456789abcdef0123456789abcdef'', ''[Peer]'',
      ''HEM_KID = fedcba9876543210fedcba9876543210'', ''AllowedIPs = 10.0.0.0/8'']"

definition exampleQuick :: QConfig where
  "exampleQuick =
     \<lparr>qInterface = emptyQInterface\<lparr>qiAddress := \<lparr>pfxAddr = Addr4 0x0A000002, pfxBits = 32\<rparr>, qiHEMURL := ''hem'',
        qiHEMKID := ''0123456789abcdef0123456789abcdef''\<rparr>,
      qPeers = [emptyQPeer\<lparr>qpHEMKID := ''fedcba9876543210fedcba9876543210'',
        qpAllowedIPs := [\<lparr>pfxAddr = Addr4 0x0A000000, pfxBits = 8\<rparr>]\<rparr>]\<rparr>"

lemma quick_kids: "validateKID ''0123456789abcdef0123456789abcdef'' = Inr ()"
  "validateKID ''fedcba9876543210fedcba9876543210'' = Inr ()"
  by (simp_all add: validateKID_def hex_val_def less_eq_char_def char_of_eq_iff)

lemma exampleQuick_Parse: "ParseConfig exampleQuickLines False = Inr exampleQuick"
  by (simp add: text_eval ParseConfig_def exampleQuickLines_def configLine_def flushPeer_def openSection_def keyLine_def
      addressKey_def peerLineKey_def quick_kids emptyQPeer_def emptyQInterface_def exampleQuick_def)

theorem config_well_formed_witness:
  "okKID (qiHEMKID (qInterface exampleQuick)) \<and> okKID (qpHEMKID (hd (qPeers exampleQuick)))"
  using config_well_formed [OF exampleQuick_Parse] by (simp add: exampleQuick_def)

text \<open>What it does not check: the text of a public key, and the length of a session.\<close>

lemma bad_key_is_accepted:
  "\<exists>cfg. ParseConfig [''[Interface]'', ''HEM_URL = hem'', ''HEM_KID = 0123456789abcdef0123456789abcdef'', ''[Peer]'', ''PublicKey = ?'']
     False = Inr cfg \<and> qpPublicKey (hd (qPeers cfg)) = ''?'' \<and> b64Decode ''?'' = None"
  by (simp add: text_eval ParseConfig_def configLine_def flushPeer_def openSection_def keyLine_def
      addressKey_def peerLineKey_def quick_kids emptyQPeer_def emptyQInterface_def)

lemma session_length_wraps: "sessionSeconds ''3000000000000000'' < 0"
  by (simp add: sessionSeconds_def wrap64_def text_eval)

subsection \<open>What it undoes\<close>

lemma fatalS_keeps [keeps_intros]: "keeps I (onDevice m) \<Longrightarrow> keeps I (fatalS msg m)"
  unfolding fatalS_def by (rule keeps_mapErrS)

lemma booked_giveDNS [keeps_intros]: "keeps booked (giveDNS (traced P) servers)"
  unfolding keeps_def
proof (intro allI impI)
  fix s :: "('a \<times> call list) \<times> Tunnel"
  assume b: "booked s"
  obtain w l t where s: "s = ((w, l), t)" by (metis prod.collapse)
  obtain r w' where "SetDNS P (tIfname t) servers w = (r, w')" by (metis surj_pair)
  with b show "booked (snd (giveDNS (traced P) servers s))"
    by (cases r) (auto simp: s io_eval readS_def fatalS_def giveDNS_def booked_def accounts_def)
qed

lemma built_giveDNS [keeps_intros]: "keeps (onTunnel built) (giveDNS P servers)"
  unfolding giveDNS_def by (intro keeps_intros) simp

lemma booked_quickRoutes: "keeps booked (quickRoutes (liftClient c) (traced P) cfg plan)"
  unfolding quickRoutes_def ProbeHEM_def liftClient_sel
  by (intro keeps_intros; (unfold traced_sel)?; (intro plain_intros)?)

lemma quickRoutes_built: "keeps (onTunnel built) (quickRoutes c P cfg plan)"
  unfolding quickRoutes_def by (intro keeps_intros) simp_all

definition quickTaken :: "string \<Rightarrow> call list \<Rightarrow> call list" where
  "quickTaken n up = (if gaveDNS up then [DNSReverted n] else []) @ [DevClosed, LinkDown n] @
     map removed (pinsAdded up) @ [FileRemoved (pubPath n)]"

lemma quickTeardown_traced:
  assumes "booked ((w, l), t)" and "built t"
  shows "\<exists>w'. quickTeardown (traced P) ((w, l), t) = (Inr (), ((w', l @ quickTaken (tIfname t) l), t\<lparr>tPins := Some []\<rparr>))"
proof -
  let ?n = "tIfname t"
  obtain ps where ps: "tPins t = Some ps" "pinsAdded l = ps" and dns: "dnsSet t \<longleftrightarrow> gaveDNS l"
    using assms by (auto simp: booked_def accounts_def built_def)
  obtain w1 where w1: "(if dnsSet t then snd (RevertDNS P ?n w) else w) = w1" by simp
  let ?l1 = "l @ (if gaveDNS l then [DNSReverted ?n] else [])"
  obtain r w2 where w2: "devClose P w1 = (r, w2)" by (metis surj_pair)
  obtain r3 w3 where w3: "ifDown P ?n w2 = (r3, w3)" by (metis surj_pair)
  obtain w4 where w4: "delRoutes (traced P) ps (w3, ?l1 @ [DevClosed, LinkDown ?n])
      = (Inr (), (w4, (?l1 @ [DevClosed, LinkDown ?n]) @ map removed ps))"
    using delRoutes_traced [of P ps w3 "?l1 @ [DevClosed, LinkDown ?n]"] by blast
  show ?thesis
    using w1 w2 w3 w4 ps dns
    by (cases "gaveDNS l"; cases "RevertDNS P ?n w")
      (simp_all add: quickTeardown_def io_eval readS_def onPins_def Pins_Restore_def quickTaken_def split: prod.splits)
qed

lemma fatalS_Inr: "fatalS msg m s = (Inr x, s') \<longleftrightarrow> onDevice m s = (Inr x, s')"
  by (simp add: fatalS_def mapErrS_eq_Inr)

lemma booked_start [simp]: "booked ((w, []), quickVars n)"
  by (simp add: booked_def accounts_def quickVars_def)

text \<open>The device phase pins nothing, gives no DNS and makes the device once.\<close>

lemma plain_then_onDevice:
  assumes "plainS m"
  shows "plainS (\<lambda>w. case m w of (r, w') \<Rightarrow> (r, (f (fst w'), snd w')))"
  unfolding plainS_def
proof (intro allI)
  fix w l
  obtain r w' l' where m: "m (w, l) = (r, (w', l'))" by (rule prod_cases3)
  with assms [unfolded plainS_def, rule_format, of w l]
  show "\<exists>l'. snd (snd (case m (w, l) of (r, w') \<Rightarrow> (r, (f (fst w'), snd w')))) = l @ l' \<and> list_all plain l'" by simp
qed

lemma liftClient_clear: "ClearKeys (liftClient c) w = (ClearKeys c (fst w), snd w)"
  by (simp add: liftClient_def onDevice_def split: prod.splits)

lemma plain_authInteractive [plain_intros]: "plainS (authInteractive (liftClient c) scope b hours choice password)"
proof -
  have "plainS (authTokens (liftClient c) scope b n ch password)" for n ch
    unfolding authTokens_def by (cases b; cases "ch = ''m''"; simp add: liftClient_def; intro plain_intros)
  then show ?thesis
    unfolding authInteractive_def liftClient_clear by (rule plain_then_onDevice)
qed

lemma plain_resolvePeers [plain_intros]: "plainS (resolvePeers (liftClient c) lookup ps)"
proof (induction ps)
  case (Cons p ps)
  have pr: "plainS (case x of (a, b) \<Rightarrow> returnS (g a b))" for x :: "QPeer list \<times> (bytes \<times> string) list" and g :: "_ \<Rightarrow> _ \<Rightarrow> QPeer list \<times> (bytes \<times> string) list"
    by (cases x) (simp add: plain_leaf)
  show ?case unfolding resolvePeers.simps liftClient_sel by (intro plain_intros Cons pr)
qed (simp only: resolvePeers.simps plain_leaf)

definition unpinned :: "Tunnel \<Rightarrow> bool" where "unpinned t \<longleftrightarrow> tPins t = None"

lemma session_booked: "keeps booked (quickSession (liftClient c) (traced P) cfg hours choice password)"
  unfolding quickSession_def Let_def liftClient_sel traced_sel
  by (intro keeps_intros plain_intros) (simp_all add: liftClient_def plain_onDevice)

lemma session_unpinned: "keeps (onTunnel unpinned) (quickSession c P cfg hours choice password)"
  unfolding quickSession_def Let_def by (intro keeps_intros) (simp_all add: unpinned_def)

lemma quickCreate_Inr:
  assumes "quickCreate (traced P) s = (Inr u, s')" and "booked s" and "unpinned (snd s)"
  shows "booked s'" and "unpinned (snd s')" and "tDev (snd s')"
  using assms by (cases s; cases "fst s"; auto simp: quickCreate_def result_inv readS_def fatalS_Inr logOk_def updS_def
      booked_def accounts_def unpinned_def split: prod.splits if_splits)+

lemma interface_keeps:
  "keeps booked (quickInterface part (traced P) cfg)" "keeps (onTunnel unpinned) (quickInterface part P' cfg)"
  "keeps (onTunnel tDev) (quickInterface part P' cfg)"
  unfolding quickInterface_def Let_def traced_sel by (intro keeps_intros plain_intros)+

lemma quickDevice_booked:
  assumes "quickDevice part (liftClient c) (traced P) cfg hours choice password ((w, []), quickVars n) = (Inr x, s)"
  shows "booked (fst s, (snd s)\<lparr>tPins := Some []\<rparr>)" and "built ((snd s)\<lparr>tPins := Some []\<rparr>)"
proof -
  from assms obtain cfg' plan s1 s2 where
    q: "quickSession (liftClient c) (traced P) cfg hours choice password ((w, []), quickVars n) = (Inr (cfg', plan), s1)"
    and cr: "quickCreate (traced P) s1 = (Inr (), s2)" and i: "quickInterface part (traced P) cfg' s2 = (Inr (), s)"
    by (auto simp: quickDevice_def result_inv)
  have b1: "booked s1" by (rule keepsD [OF session_booked booked_start q])
  have u1: "unpinned (snd s1)" using keepsD [OF session_unpinned _ q] by (simp add: onTunnel_def unpinned_def quickVars_def)
  note b2 = quickCreate_Inr [OF cr b1 u1]
  have "booked s" "unpinned (snd s)" "tDev (snd s)"
    using keepsD [OF interface_keeps(1) b2(1) i] keepsD [OF interface_keeps(2) _ i] keepsD [OF interface_keeps(3) _ i] b2(2,3)
    by (simp_all add: onTunnel_def)
  then show "booked (fst s, (snd s)\<lparr>tPins := Some []\<rparr>)" "built ((snd s)\<lparr>tPins := Some []\<rparr>)"
    by (simp_all add: booked_def accounts_def unpinned_def built_def)
qed

text \<open>
  C20: the older front end leaves the host as it found it too.  On any platform, once its device
  is configured, a run of \<open>wg-quick-encedo up\<close> that ends, by an error from the first pinned route on
  or because it was told to, ends with DNS taken back if it was given, the device closed, the link
  down, exactly the pinned routes removed, and the public key's file removed.
\<close>

theorem quick_takes_back_what_it_gave:
  assumes "isOk (fst (quickDevice part (liftClient c) (traced P) cfg hours choice password ((w, []), quickVars n)))"
    and "quickUp part (liftClient c) (traced P) (Inr cfg) hours choice password ended ((w, []), quickVars n) = (Some r, (w', log), t')"
  shows "\<exists>up name. log = up @ quickTaken name up \<and> pinsRemoved up = [] \<and> \<not> tookDNS up \<and> DevCreated \<in> set up \<and>
     DevClosed \<notin> set up \<and> pinsAdded log = pinsRemoved log \<and> tPins t' = Some []"
proof -
  obtain x s1 where d: "quickDevice part (liftClient c) (traced P) cfg hours choice password ((w, []), quickVars n) = (Inr x, s1)"
    using assms(1) by (metis isOk_iff prod.collapse)
  obtain cfg' plan where x: "x = (cfg', plan)" by (cases x)
  let ?s1 = "(fst s1, (snd s1)\<lparr>tPins := Some []\<rparr>)"
  note b1 = quickDevice_booked [OF d]
  obtain q s2 where rt: "quickRoutes (liftClient c) (traced P) cfg' plan ?s1 = (q, s2)" by (metis surj_pair)
  have b2: "booked s2" "built (snd s2)"
    using keepsD [OF booked_quickRoutes b1(1) rt] keepsD [OF quickRoutes_built _ rt] b1(2) by (simp_all add: onTunnel_def)
  have "((w', log), t') = snd (quickTeardown (traced P) s2)"
    using assms(2) d x rt by (auto simp: quickUp_def bindS_apply updS_def split: sum.splits if_splits prod.splits)
  moreover obtain wu up t where s2: "s2 = ((wu, up), t)" by (metis prod.collapse)
  moreover obtain w4 where "quickTeardown (traced P) ((wu, up), t) = (Inr (), ((w4, up @ quickTaken (tIfname t) up), t\<lparr>tPins := Some []\<rparr>))"
    using quickTeardown_traced b2 s2 by fastforce
  ultimately show ?thesis using b2
    by (intro exI [of _ up] exI [of _ "tIfname t"]) (auto simp: quickTaken_def booked_def accounts_def built_def)
qed

definition quickHost :: "unit Client" where
  "quickHost = exampleHost\<lparr>Checkin := returnS (), AuthRemote := (\<lambda>_. returnS ''t'')\<rparr>"

lemma example_plan: "\<exists>plan. PlanRouting (traced examplePlatform) [\<lparr>rpEndpoint = [], rpAllowedIPs = ps\<rparr>] ''hem'' w = (Inr plan, w)"
proof -
  have h: "resolveHost (traced examplePlatform) ''hem'' w = (Inr [Addr4 0x01020304], w)"
    by (simp add: resolveHost_def example_names traced_def examplePlatform_def io_eval AddrFromSlice_def be_nat_def Unmap_def Is4In6_def split: prod.splits)
  show ?thesis by (simp add: PlanRouting_def example_HEMHost io_eval h example_names HostOf_def SplitHostPort_def CutLast_def)
qed

lemma example_resolvePeers:
  "resolvePeers (liftClient quickHost) lookup (qPeers exampleQuick) w =
     (Inr ([emptyQPeer\<lparr>qpPublicKey := b64Encode exampleIfKey, qpHEMKID := ''fedcba9876543210fedcba9876543210'',
        qpAllowedIPs := [\<lparr>pfxAddr = Addr4 0x0A000000, pfxBits = 8\<rparr>]\<rparr>],
        [(copy32 exampleIfKey, ''fedcba9876543210fedcba9876543210'')]), w)"
  by (simp add: exampleQuick_def liftClient_def quickHost_def exampleHost_def io_eval emptyQPeer_def mapErrS_def split: prod.splits)

lemma example_auth: "authInteractive (liftClient quickHost) scope True [] ''m'' (Inr []) w = (Inr (''t'', ''t''), w')"
  if "w' = (ClearKeys quickHost (fst w), snd w)"
  using that by (simp add: authInteractive_def authTokens_def liftClient_clear liftClient_def quickHost_def io_eval
      TrimSpace_def is_space_def ToLower_def to_lower_def split: prod.splits)

lemma example_quickSession:
  "\<exists>x s. quickSession (liftClient quickHost) (traced examplePlatform) exampleQuick [] ''m'' (Inr []) (((), []), quickVars ''wg0'')
     = (Inr x, s)"
proof -
  have a: "PrefixIsValid (qiAddress (qInterface exampleQuick))" "list_ex (\<lambda>p. qpHEMKID p \<noteq> []) (qPeers exampleQuick)"
      "qiHEMURL (qInterface exampleQuick) = ''hem''"
    by (simp_all add: exampleQuick_def emptyQPeer_def emptyQInterface_def PrefixIsValid_def)
  have h: "Checkin (liftClient quickHost) w = (Inr (), w)" "GetPubKey quickHost tok kid v = (Inr \<lparr>keyPubKey = exampleIfKey, keyTypeOf = ''CURVE25519''\<rparr>, v)"
      "MkdirAll examplePlatform d v = (Inr (), v)" "WriteFile examplePlatform n b v = (Inr (), v)" for w tok kid v d n b
    by (simp_all add: liftClient_def quickHost_def exampleHost_def examplePlatform_def io_eval split: prod.splits)
  show ?thesis
    unfolding quickSession_def Let_def
    using example_plan [of "[\<lparr>pfxAddr = Addr4 0x0A000000, pfxBits = 8\<rparr>]" "((), [FileWritten (pubPath ''wg0'')])"]
    by (auto simp: a h io_eval readS_def fatalS_def example_auth example_resolvePeers runtimePeers_def emptyQPeer_def quickVars_def)
qed

lemma example_interface:
  "\<exists>s'. quickCreate (traced examplePlatform) ((w, l), t) = (Inr (), s')"
  "\<exists>s'. quickInterface part (traced examplePlatform) cfg ((w, l), t) = (Inr (), s')"
  by (simp_all add: quickCreate_def quickInterface_def Let_def fatalS_def io_eval readS_def examplePlatform_def split: prod.splits)

lemma example_quickDevice:
  "isOk (fst (quickDevice part (liftClient quickHost) (traced examplePlatform) exampleQuick [] ''m'' (Inr []) (((), []), quickVars ''wg0'')))"
proof -
  obtain cfg plan s where "quickSession (liftClient quickHost) (traced examplePlatform) exampleQuick [] ''m'' (Inr []) (((), []), quickVars ''wg0'')
      = (Inr (cfg, plan), s)"
    using example_quickSession by fast
  moreover obtain s2 where "quickCreate (traced examplePlatform) s = (Inr (), s2)"
    using example_interface(1) by (metis prod.collapse)
  moreover obtain s3 where "quickInterface part (traced examplePlatform) cfg s2 = (Inr (), s3)"
    using example_interface(2) by (metis prod.collapse)
  ultimately show ?thesis by (simp add: quickDevice_def bindS_apply)
qed

theorem quick_takes_back_what_it_gave_witness:
  "\<exists>r w' log t'. quickUp (\<lambda>_. []) (liftClient quickHost) (traced examplePlatform) (Inr exampleQuick) [] ''m'' (Inr []) True
     (((), []), quickVars ''wg0'') = (Some r, (w', log), t') \<and> pinsAdded log = pinsRemoved log"
proof -
  let ?run = "quickUp (\<lambda>_. []) (liftClient quickHost) (traced examplePlatform) (Inr exampleQuick) [] ''m'' (Inr []) True
     (((), []), quickVars ''wg0'')"
  have "fst ?run \<noteq> None"
    using example_quickDevice by (auto simp: quickUp_def split: prod.splits sum.splits)
  then obtain r w' log t' where t: "?run = (Some r, (w', log), t')" by (metis option.exhaust prod.collapse)
  from quick_takes_back_what_it_gave [OF example_quickDevice t] t show ?thesis by blast
qed

end
