(* ===== verification/Live.thy ===== *)
theory Live
  imports DaemonTunnel UpDown "HOL-Library.AList"
begin

text \<open>
  \<open>gui/live.go\<close> and \<open>gui/session.go\<close>: the window's session.  It authenticates a person, reads and
  checks the configuration, and asks the privileged component for a tunnel with one token; then it
  turns what the component says into what the window draws, and watches whether the device is
  still there.  The control connection is a parameter, as is \<open>json.Marshal\<close>; sentences the session
  only narrates are left out.
\<close>

subsection \<open>What the window knows\<close>

datatype Screen = NoModule | Ready | Connecting | Connected | Disconnecting | Ended

definition Screen_String :: "Screen \<Rightarrow> string" where
  "Screen_String s = (case s of NoModule \<Rightarrow> ''no module'' | Ready \<Rightarrow> ''ready'' | Connecting \<Rightarrow> ''connecting''
     | Connected \<Rightarrow> ''connected'' | Disconnecting \<Rightarrow> ''disconnecting'' | Ended \<Rightarrow> ''ended'')"

text \<open>A sentence is one of the program's own, or the text of an error.\<close>

datatype Sentence = Said string | ErrorText error

record WEvent =
  wState :: Screen
  wPeer :: string
  wAddrs :: "string list"
  wHEM :: string
  wExpires :: int
  wLast :: "int \<times> int"
  wRx :: "64 word"
  wTx :: "64 word"
  wReach :: string
  wNotice :: Sentence
  wErr :: "error option"

definition wEvent :: "Screen \<Rightarrow> string \<Rightarrow> WEvent" where
  "wEvent st hem = \<lparr>wState = st, wPeer = [], wAddrs = [], wHEM = hem, wExpires = 0, wLast = (0, 0), wRx = 0, wTx = 0,
     wReach = [], wNotice = Said [], wErr = None\<rparr>"

text \<open>The session: \<open>lsEvents\<close> is the channel's buffer, oldest first.\<close>

record liveSession =
  lsHEM :: string
  lsEvents :: "WEvent list"
  lsConn :: "nat option"
  lsClosed :: bool
  lsLast :: WEvent
  lsIfKID :: string

definition newLiveSession :: "string \<Rightarrow> liveSession" where
  "newLiveSession hemURL = \<lparr>lsHEM = hemURL, lsEvents = [], lsConn = None, lsClosed = False,
     lsLast = wEvent NoModule [], lsIfKID = []\<rparr>"

definition eventBuffer :: nat where "eventBuffer = 16"

definition Live_emit :: "WEvent \<Rightarrow> liveSession \<Rightarrow> liveSession" where
  "Live_emit e s =
     (if lsClosed s then s
      else if length (lsEvents s) < eventBuffer then s\<lparr>lsLast := e, lsEvents := lsEvents s @ [e]\<rparr>
      else s\<lparr>lsLast := e\<rparr>)"

definition errNoProfileChosen :: error where
  "errNoProfileChosen = Msg ''no profile chosen''"

definition humanError :: "error \<Rightarrow> Sentence" where
  "humanError e =
     (if Is e errNoProfileChosen then Said ''No profile chosen. Connect again to pick one.''
      else case KindOf e of
          KindAuth \<Rightarrow> Said ''That passphrase was not accepted - check it and try again.''
        | KindNetwork \<Rightarrow> Said ''The module did not answer. Check that it is plugged in.''
        | _ \<Rightarrow> ErrorText e)"

definition Live_failed :: "error \<Rightarrow> liveSession \<Rightarrow> liveSession" where
  "Live_failed e s = Live_emit ((wEvent Ready (lsHEM s))\<lparr>wNotice := humanError e, wErr := Some e\<rparr>) s"

subsection \<open>Connecting\<close>

definition pickIdentity :: "Identity list \<Rightarrow> (Identity list \<Rightarrow> error + string) option \<Rightarrow> error + string" where
  "pickIdentity ids ask =
     (case ids of
        [] \<Rightarrow> Inl (Fail KindIntegrity ''this module holds no configuration - provision it first'' [])
      | [i] \<Rightarrow> Inr (idKID i)
      | _ \<Rightarrow>
          (case ask of
             None \<Rightarrow> Inl (Fail KindDevice ''this module holds %d identities and nothing here can ask which to use'' [])
           | Some f \<Rightarrow> f ids))"

definition pickPeer :: "ConfigPeer list \<Rightarrow> (ConfigPeer list \<Rightarrow> error + string) option \<Rightarrow> error + string" where
  "pickPeer peers ask =
     (case peers of
        [] \<Rightarrow> Inl (Fail KindIntegrity ''the configuration names no peers'' [])
      | p # ps \<Rightarrow> if ps = [] then Inr (cpKID p) else (case ask of None \<Rightarrow> Inr (cpKID p) | Some f \<Rightarrow> f peers))"

definition publicKeys :: "Tree \<Rightarrow> (string \<times> string) list" where
  "publicKeys t = fold (\<lambda>p. AList.update (cpKID p) (b64Encode (cpPubKey p))) (Peers t) [(IfKID t, b64Encode (IfPubKey t))]"

text \<open>The control connection: connections are numbered as they are made.\<close>

record 'w Control =
  Dial :: "('w, error, nat) io"
  Send :: "nat \<Rightarrow> bytes \<Rightarrow> ('w, error, unit) io"
  Hang :: "nat \<Rightarrow> ('w, error, unit) io"

definition orFailed :: "('d \<times> liveSession, error, 'a) io \<Rightarrow> ('d \<times> liveSession, error, 'a) io" where
  "orFailed m = (\<lambda>x. case m x of
      (Inl e, (d, s)) \<Rightarrow> (Inl e, (d, Live_failed e s))
    | (Inr y, x') \<Rightarrow> (Inr y, x'))"

text \<open>Declining to choose is not a failure.\<close>

definition orDeclined :: "('d \<times> liveSession, error, 'a) io \<Rightarrow> ('d \<times> liveSession, error, 'a) io" where
  "orDeclined m = (\<lambda>x. case m x of
      (Inl e, (d, s)) \<Rightarrow>
        (Inl e, (d, if Is e errNoProfileChosen then Live_emit ((wEvent Ready (lsHEM s))\<lparr>wNotice := humanError e\<rparr>) s
                    else Live_failed e s))
    | (Inr y, x') \<Rightarrow> (Inr y, x'))"

type_synonym choosers = "(Identity list \<Rightarrow> error + string) option \<times> (ConfigPeer list \<Rightarrow> error + string) option"

text \<open>What is asked for, and the configuration it was decided on.\<close>

definition liveRequest :: "nat \<Rightarrow> size_tags \<Rightarrow> 'd Client \<Rightarrow> 'd TokenFunc \<Rightarrow> choosers \<Rightarrow> Build \<Rightarrow> string \<Rightarrow>
    ('d \<times> liveSession, error, Request \<times> Tree) io" where
  "liveRequest fuel sz c tok ask b url =
     bindS (orFailed (onDevice (Identities fuel sz c tok))) (\<lambda>ids.
     bindS (orDeclined (liftE (pickIdentity ids (fst ask)))) (\<lambda>kid.
     bindS (orFailed (onDevice (LoadIdentity fuel sz c tok kid))) (\<lambda>tree.
     bindS (orFailed (liftE (pickPeer (Peers tree) (snd ask)))) (\<lambda>peerKID.
     bindS (orFailed (onDevice (tok (''keymgmt:use:'' @ kid)))) (\<lambda>useTok.
       returnS (\<lparr>rOp = OpStart, rBuild = b, rHEMURL = url, rIdentity = kid, rPeer = peerKID, rToken = useTok,
         rPubKeys = publicKeys tree\<rparr>, tree))))))"

definition liveStart :: "'w Control \<Rightarrow> (Request \<Rightarrow> bytes) \<Rightarrow> Request \<Rightarrow> ('w \<times> liveSession, error, unit) io" where
  "liveStart ctl encode req =
     bindS (orFailed (mapErrS (\<lambda>e. Fail KindDevice ''the privileged component is not answering on %s: %v%x0AIs the service running?'' [])
              (onDevice (Dial ctl)))) (\<lambda>conn x.
       case bindS (liftE (WriteMsg (encode req))) (\<lambda>m. onDevice (Send ctl conn m)) x of
         (Inl e, (w, s)) \<Rightarrow>
           (let e' = Fail KindDevice ''asking for a tunnel: %v'' []; w' = snd (Hang ctl conn w)
            in (Inl e', (w', Live_failed e' s)))
       | (Inr _, (w, s)) \<Rightarrow> (Inr (), (w, s\<lparr>lsConn := Some conn, lsIfKID := rIdentity req\<rparr>)))"

definition workingOut :: "string \<Rightarrow> WEvent" where
  "workingOut hem = (wEvent Connecting hem)
     \<lparr>wNotice := Said ''Working out the key from your passphrase. On some machines this takes a few seconds.''\<rparr>"

text \<open>The device's key material is dropped on every way out, after the component was asked.\<close>

definition Live_Connect :: "nat \<Rightarrow> size_tags \<Rightarrow> 'w Client \<Rightarrow> 'w Device \<Rightarrow> 'w Control \<Rightarrow> (Request \<Rightarrow> bytes) \<Rightarrow> choosers \<Rightarrow>
    Build \<Rightarrow> ('w \<times> liveSession, error, Request \<times> Tree) io" where
  "Live_Connect fuel sz c dev ctl encode ask b =
     bindS (updS (\<lambda>s. Live_emit (wEvent Connecting (lsHEM s)) s)) (\<lambda>_.
     bindS (orFailed (onDevice (Connect c dev))) (\<lambda>auth (w, s).
       let s = Live_emit (workingOut (lsHEM s)) s in
       case liveRequest fuel sz (liftClient c) (Token c dev) ask b (lsHEM s) ((w, auth), s) of
         (Inl e, ((w, _), s)) \<Rightarrow> (Inl e, (Wipe c w, s))
       | (Inr (req, tree), ((w, _), s)) \<Rightarrow>
           (case liveStart ctl encode req (w, s) of
              (Inl e, (w, s)) \<Rightarrow> (Inl e, (Wipe c w, s))
            | (Inr _, (w, s)) \<Rightarrow> (Inr (req, tree), (Wipe c w, s)))))"

subsection \<open>While a tunnel is up\<close>

definition fromIPC :: "Event \<Rightarrow> string \<Rightarrow> WEvent" where
  "fromIPC e hemURL =
     \<lparr>wState = (if eState e = ''connecting'' then Connecting else if eState e = ''connected'' then Connected
                else if eState e = ''ended'' then Ended else Ready),
      wPeer = ePeer e, wAddrs = eAddrs e, wHEM = hemURL, wExpires = eExpires e, wLast = eLast e, wRx = eRx e, wTx = eTx e,
      wReach = [], wNotice = Said (eNotice e), wErr = None\<rparr>"

text \<open>One message of the component, which may not decode; \<open>True\<close> while the connection is read on.\<close>

datatype Msg = Garbled | MsgReply Reply | MsgEvent Event

definition consumeMsg :: "Msg \<Rightarrow> liveSession \<Rightarrow> bool \<times> liveSession" where
  "consumeMsg m s =
     (case m of
        Garbled \<Rightarrow> (True, s)
      | MsgReply r \<Rightarrow>
          (True, if rOK r then s
                 else Live_emit ((wEvent Ready (lsHEM s))\<lparr>wNotice := (case rErr r of None \<Rightarrow> Said [] | Some e \<Rightarrow> ErrorText e),
                   wErr := Some (Msg ''%s'')\<rparr>) s)
      | MsgEvent e \<Rightarrow>
          (let ev = fromIPC e (lsHEM s) in (wState ev \<noteq> Ended, Live_emit ev s)))"

text \<open>Whatever ends the connection: the session can be started again.\<close>

definition connectionOver :: "nat \<Rightarrow> liveSession \<Rightarrow> liveSession" where
  "connectionOver conn s =
     (let s = (if lsConn s = Some conn then s\<lparr>lsConn := None, lsIfKID := []\<rparr> else s)
      in Live_emit (wEvent Ready (lsHEM s)) s)"

text \<open>The messages of one connection up to its end.\<close>

fun Live_consume :: "nat \<Rightarrow> Msg list \<Rightarrow> liveSession \<Rightarrow> liveSession" where
  "Live_consume conn [] s = connectionOver conn s"
| "Live_consume conn (m # ms) s =
     (case consumeMsg m s of
        (True, s) \<Rightarrow> Live_consume conn ms s
      | (False, s) \<Rightarrow> connectionOver conn s)"

definition stopRequest :: Request where
  "stopRequest = \<lparr>rOp = OpStop, rBuild = \<lparr>Release = [], bDescr = 0\<rparr>, rHEMURL = [], rIdentity = [], rPeer = [], rToken = [], rPubKeys = []\<rparr>"

definition Live_Disconnect :: "'w Control \<Rightarrow> (Request \<Rightarrow> bytes) \<Rightarrow> ('w \<times> liveSession, error, unit) io" where
  "Live_Disconnect ctl encode =
     (\<lambda>(w, s). case lsConn s of
        None \<Rightarrow> (Inr (), (w, s))
      | Some conn \<Rightarrow>
          bindS (updS (\<lambda>s. Live_emit (wEvent Disconnecting (lsHEM s)) s)) (\<lambda>_.
          bindS (liftE (WriteMsg (encode stopRequest))) (\<lambda>m. onDevice (Send ctl conn m))) (w, s))"

definition Live_Close :: "'w Control \<Rightarrow> ('w \<times> liveSession, error, unit) io" where
  "Live_Close ctl =
     (\<lambda>(w, s). if lsClosed s then (Inr (), (w, s))
       else (Inr (), (case lsConn s of None \<Rightarrow> w | Some conn \<Rightarrow> snd (Hang ctl conn w), s\<lparr>lsClosed := True\<rparr>)))"

definition tunnelUp :: "liveSession \<Rightarrow> bool" where
  "tunnelUp s \<longleftrightarrow> lsConn s \<noteq> None \<and> \<not> lsClosed s"

subsection \<open>Renewing, importing\<close>

definition Live_Renew :: "'w Client \<Rightarrow> 'w Device \<Rightarrow> 'w Control \<Rightarrow> (Request \<Rightarrow> bytes) \<Rightarrow> ('w \<times> liveSession, error, unit) io" where
  "Live_Renew c dev ctl encode =
     (\<lambda>(w, s). case lsConn s of
        None \<Rightarrow> (Inl (Fail KindDevice ''there is no tunnel to renew'' []), (w, s))
      | Some conn \<Rightarrow>
          if lsIfKID s = [] then (Inl (Fail KindDevice ''this session does not know which identity it is running as'' []), (w, s))
          else
          (let kid = lsIfKID s;
               s = Live_emit ((wEvent Connected (lsHEM s))\<lparr>wNotice := Said ''Renewing the session...''\<rparr>) s in
           bindS (onDevice (Connect c dev)) (\<lambda>auth (w, s).
             case Token c dev (''keymgmt:use:'' @ kid) (w, auth) of
               (Inl e, (w, _)) \<Rightarrow> (Inl e, (Wipe c w, s))
             | (Inr tok, (w, _)) \<Rightarrow>
                 (case mapErrS (\<lambda>e. Classify e KindNetwork ''asking the component to take the new token'')
                         (bindS (liftE (WriteMsg (encode (stopRequest\<lparr>rOp := OpRefresh, rToken := tok\<rparr>)))) (Send ctl conn)) w of
                    (r, w) \<Rightarrow> (r, (Wipe c w, s)))) (w, s)))"

definition importFailure :: "error \<Rightarrow> Cleanup \<Rightarrow> error" where
  "importFailure e cl =
     (if RemovalErr cl \<noteq> None
      then Wrap ''%w%x0A%x0AThe key it created (%s) could not be removed either: %v. It carries no configuration record, so it has to be deleted by key id.'' [e]
      else if IdentityRemoved cl \<and> ImportedPeers cl > 0
      then Wrap ''%w%x0A%x0AThe identity key it created was removed, but %d peer key(s) were written before it failed and are still there.'' [e]
      else if IdentityRemoved cl
      then Wrap ''%w%x0A%x0ANothing was left behind: the key it created was removed.'' [e]
      else e)"

definition Live_Import :: "nat \<Rightarrow> size_tags \<Rightarrow> 'w Client \<Rightarrow> 'w Device \<Rightarrow> Params \<Rightarrow> ('w, error, Result) io" where
  "Live_Import fuel sz c dev p =
     bindS (Connect c dev) (\<lambda>auth w.
       case Run fuel sz (liftClient c) (Token c dev) p (w, auth) of
         ((Inl e, cl), (w, _)) \<Rightarrow> (Inl (importFailure e cl), Wipe c w)
       | ((Inr res, _), (w, _)) \<Rightarrow> (Inr res, Wipe c w))"

subsection \<open>Whether the device is there\<close>

fun Contains :: "string \<Rightarrow> string \<Rightarrow> bool" where
  "Contains [] sub \<longleftrightarrow> sub = []"
| "Contains (c # s) sub \<longleftrightarrow> HasPrefix (c # s) sub \<or> Contains s sub"

text \<open>What follows the last occurrence, as \<open>LastIndex\<close> finds it.\<close>

fun afterLast :: "string \<Rightarrow> string \<Rightarrow> string option" where
  "afterLast sub [] = None"
| "afterLast sub (c # s) =
     (case afterLast sub s of
        Some r \<Rightarrow> Some r
      | None \<Rightarrow> if HasPrefix (c # s) sub then Some (drop (length sub) (c # s)) else None)"

text \<open>\<open>text\<close> is \<open>err.Error()\<close>, the words of an error.\<close>

definition reachReason :: "(error \<Rightarrow> string) \<Rightarrow> error \<Rightarrow> string" where
  "reachReason text e =
     (let msg = text e; low = ToLower msg; has = (\<lambda>words. list_ex (Contains low) words);
          cause = (case afterLast [CHR 0x22, CHR '':'', CHR '' ''] msg of Some r \<Rightarrow> r | None \<Rightarrow> msg)
      in if (case AsHemError e of Some (HemError st code) \<Rightarrow> code = ''timeout'' | _ \<Rightarrow> False)
         then ''no answer in 2s - nothing plugged in, or no route to it''
         else if has [''no such host'', ''server misbehaving''] then ''the name does not resolve''
         else if has [''connection refused'', ''actively refused''] then ''the address answered and refused the connection''
         else if has [''network is unreachable'', ''no route to host'', ''unreachable network'', ''unreachable host'']
         then ''no route to the address''
         else if has [''x509:'', ''tls:'', ''certificate''] then ''certificate not accepted: '' @ cause
         else cause)"

definition Live_probe :: "'w Client \<Rightarrow> (error \<Rightarrow> string) \<Rightarrow> 'w \<times> liveSession \<Rightarrow> (bool \<times> string) \<times> 'w \<times> liveSession" where
  "Live_probe c text =
     (\<lambda>(w, s). if lsClosed s then ((True, []), (w, s))
       else (case GetVersion c w of
           (Inl e, w') \<Rightarrow> ((False, reachReason text e), (w', s))
         | (Inr _, w') \<Rightarrow> ((True, []), (w', s))))"

record watchState =
  wsPresent :: bool
  wsWhy :: string
  wsMisses :: nat

definition presenceMisses :: nat where "presenceMisses = 2"

text \<open>One round after the probe answered: what the loop keeps, the session, and whether a stop was asked for.\<close>

definition watchStep :: "'w Control \<Rightarrow> (Request \<Rightarrow> bytes) \<Rightarrow> bool \<times> string \<Rightarrow> watchState \<Rightarrow> 'w \<times> liveSession \<Rightarrow>
    watchState \<times> ('w \<times> liveSession) \<times> bool" where
  "watchStep ctl encode answer ws x =
     (let s = snd x in
      if tunnelUp s then
        (if fst answer then (ws\<lparr>wsMisses := 0\<rparr>, x, False)
         else if wsMisses ws + 1 \<ge> presenceMisses then
           (ws\<lparr>wsMisses := 0\<rparr>,
            snd (Live_Disconnect ctl encode (fst x, Live_emit ((wEvent Disconnecting (lsHEM s))
              \<lparr>wNotice := Said ''The module is gone - closing the tunnel.''\<rparr>) s)), True)
         else (ws\<lparr>wsMisses := wsMisses ws + 1\<rparr>, x, False))
      else if fst answer \<noteq> wsPresent ws \<or> snd answer \<noteq> wsWhy ws then
        (\<lparr>wsPresent = fst answer, wsWhy = snd answer, wsMisses = 0\<rparr>,
         (fst x, Live_emit (if fst answer then wEvent Ready (lsHEM s)
                            else (wEvent NoModule (lsHEM s))\<lparr>wReach := snd answer\<rparr>) s), False)
      else (ws\<lparr>wsMisses := 0\<rparr>, x, False))"

text \<open>The rounds, each on the session as the other goroutines have left it; which of them asked for a stop.\<close>

fun watchRounds :: "'w Control \<Rightarrow> (Request \<Rightarrow> bytes) \<Rightarrow> ((bool \<times> string) \<times> 'w \<times> liveSession) list \<Rightarrow> watchState \<Rightarrow> bool list" where
  "watchRounds ctl encode [] ws = []"
| "watchRounds ctl encode ((answer, x) # xs) ws =
     (case watchStep ctl encode answer ws x of (ws', _, st) \<Rightarrow> st # watchRounds ctl encode xs ws')"

definition watchStart :: watchState where
  "watchStart = \<lparr>wsPresent = False, wsWhy = [], wsMisses = 0\<rparr>"

definition missed :: "(bool \<times> string) \<times> 'w \<times> liveSession \<Rightarrow> bool" where
  "missed r \<longleftrightarrow> tunnelUp (snd (snd r)) \<and> \<not> fst (fst r)"

subsection \<open>The watch\<close>

lemma watchStep_flags:
  assumes "wsMisses ws < 2"
  shows "snd (snd (watchStep ctl encode answer ws x)) \<longleftrightarrow> missed (answer, x) \<and> wsMisses ws = 1"
    and "wsMisses (fst (watchStep ctl encode answer ws x)) = (if missed (answer, x) \<and> wsMisses ws = 0 then 1 else 0)"
  using assms by (auto simp: watchStep_def Let_def missed_def presenceMisses_def)

lemma watchRounds_flags:
  "wsMisses ws < 2 \<Longrightarrow> length (watchRounds ctl encode xs ws) = length xs \<and>
   (xs \<noteq> [] \<longrightarrow> (watchRounds ctl encode xs ws ! 0 \<longleftrightarrow> missed (xs ! 0) \<and> wsMisses ws = 1)) \<and>
   (\<forall>i. Suc i < length xs \<longrightarrow> (watchRounds ctl encode xs ws ! Suc i \<longleftrightarrow>
      missed (xs ! Suc i) \<and> missed (xs ! i) \<and> \<not> watchRounds ctl encode xs ws ! i))"
proof (induction xs arbitrary: ws)
  case (Cons x xs)
  obtain answer y where x: "x = (answer, y)" by (cases x)
  obtain ws' y' flag where st: "watchStep ctl encode answer ws y = (ws', y', flag)" by (metis prod_cases3)
  note fl = watchStep_flags [OF Cons.prems, of ctl encode answer y, unfolded st fst_conv snd_conv, folded x]
  have "wsMisses ws' < 2" by (simp add: fl(2))
  note IH = Cons.IH [OF this]
  have r: "watchRounds ctl encode (x # xs) ws = flag # watchRounds ctl encode xs ws'" by (simp add: x st)
  have "(flag # watchRounds ctl encode xs ws') ! Suc i \<longleftrightarrow>
      missed ((x # xs) ! Suc i) \<and> missed ((x # xs) ! i) \<and> \<not> (flag # watchRounds ctl encode xs ws') ! i"
    if i: "Suc i < length (x # xs)" for i
  proof (cases i)
    case 0
    with i have "watchRounds ctl encode xs ws' ! 0 \<longleftrightarrow> missed (xs ! 0) \<and> wsMisses ws' = 1" using IH by auto
    moreover have "wsMisses ws' = 1 \<longleftrightarrow> missed x \<and> \<not> flag" using fl Cons.prems by (cases "wsMisses ws"; simp)
    ultimately show ?thesis using 0 by simp
  next
    case (Suc j)
    with i IH show ?thesis by simp
  qed
  with fl(1) IH show ?case unfolding r by simp
qed simp

text \<open>
  C38: the watch takes a tunnel down for a module that is gone and for no blip.  Whatever the other
  goroutines do to the session in between, a round of the presence check asks for a stop exactly
  when it and the round before it found a tunnel up and the device missing and the round before
  it did not ask already; the first round never asks.
\<close>

theorem watch_stops_after_two_misses:
  "length (watchRounds ctl encode xs watchStart) = length xs \<and> (xs \<noteq> [] \<longrightarrow> \<not> watchRounds ctl encode xs watchStart ! 0) \<and>
   (\<forall>i. Suc i < length xs \<longrightarrow> (watchRounds ctl encode xs watchStart ! Suc i \<longleftrightarrow>
      missed (xs ! Suc i) \<and> missed (xs ! i) \<and> \<not> watchRounds ctl encode xs watchStart ! i))"
proof -
  have "wsMisses watchStart = 0" by (simp add: watchStart_def)
  with watchRounds_flags [of watchStart ctl encode xs] show ?thesis by simp
qed

definition runningSession :: liveSession where
  "runningSession = (newLiveSession ''hem'')\<lparr>lsConn := Some 0\<rparr>"

definition stillControl :: "'w Control" where
  "stillControl = \<lparr>Dial = returnS 0, Send = (\<lambda>_ _. returnS ()), Hang = (\<lambda>_. returnS ())\<rparr>"

theorem watch_stops_after_two_misses_witness:
  "watchRounds (stillControl :: unit Control) (\<lambda>_. []) [((False, ''x''), (), runningSession), ((False, ''x''), (), runningSession)] watchStart ! Suc 0"
proof -
  have "missed ((False, ''x''), (), runningSession)" by (simp add: missed_def tunnelUp_def runningSession_def newLiveSession_def)
  with watch_stops_after_two_misses [of "stillControl :: unit Control" "\<lambda>_. []"
      "[((False, ''x''), (), runningSession), ((False, ''x''), (), runningSession)]"]
  show ?thesis by (metis One_nat_def Suc_1 length_Cons lessI list.distinct(1) list.size(3) nth_Cons_0 nth_Cons_Suc)
qed

subsection \<open>What the connection leaves\<close>

lemma Live_emit_sel [simp]:
  "lsConn (Live_emit e s) = lsConn s" "lsIfKID (Live_emit e s) = lsIfKID s" "lsHEM (Live_emit e s) = lsHEM s"
  "lsClosed (Live_emit e s) = lsClosed s"
  by (simp_all add: Live_emit_def)

lemma Live_consume_frees: "lsConn (Live_consume conn ms s) \<noteq> Some conn"
  by (induction ms arbitrary: s) (auto simp: connectionOver_def Let_def split: prod.splits bool.splits)

text \<open>
  A start that was refused leaves the connection open on both sides: the component goes on reading,
  and nothing the window hears but an event that says \<open>ended\<close> makes it close its end.  Until then the
  session counts as holding a tunnel, so that the presence check stands aside.
\<close>

definition keepsOpen :: "Msg \<Rightarrow> bool" where
  "keepsOpen m \<longleftrightarrow> (case m of MsgEvent e \<Rightarrow> eState e \<noteq> ''ended'' | _ \<Rightarrow> True)"

lemma consumeMsg_keepsOpen: "keepsOpen m \<Longrightarrow> \<exists>t. consumeMsg m s = (True, t) \<and> lsConn t = lsConn s \<and> lsClosed t = lsClosed s"
  by (cases m) (auto simp: keepsOpen_def consumeMsg_def Let_def fromIPC_def)

lemma refused_start_holds_the_connection:
  "list_all keepsOpen ms \<Longrightarrow> \<exists>t. Live_consume conn (ms @ rest) s = Live_consume conn rest t \<and> tunnelUp t = tunnelUp s"
proof (induction ms arbitrary: s)
  case (Cons m ms)
  then obtain t where t: "consumeMsg m s = (True, t)" "tunnelUp t = tunnelUp s"
    using consumeMsg_keepsOpen [of m s] by (auto simp: tunnelUp_def)
  with Cons.IH [of t] Cons.prems show ?case by auto
qed auto

text \<open>A failed import that left peers behind, or a record that does not verify, is reported as it is.\<close>

lemma import_failure_can_be_silent:
  "\<not> IdentityRemoved cl \<Longrightarrow> RemovalErr cl = None \<Longrightarrow> importFailure e cl = e"
  by (simp add: importFailure_def)

text \<open>When nobody reads, the newest event is the one that is lost.\<close>

lemma full_buffer_drops_the_newest:
  "\<not> lsClosed s \<Longrightarrow> length (lsEvents s) = eventBuffer \<Longrightarrow>
   lsLast (Live_emit e s) = e \<and> lsEvents (Live_emit e s) = lsEvents s"
  by (simp add: Live_emit_def)

text \<open>
  \<open>emit\<close> looks at \<open>closed\<close> in one critical section and sends after it; \<open>Close\<close> closes the channel in
  another.  One step per critical section or send, and how many emitters are between the two.
\<close>

record channel =
  chClosed :: bool
  chPast :: nat
  chPanic :: bool

inductive emit_step :: "channel \<Rightarrow> channel \<Rightarrow> bool" where
  looked: "\<not> chClosed s \<Longrightarrow> emit_step s (s\<lparr>chPast := Suc (chPast s)\<rparr>)"
| sent: "chPast s = Suc n \<Longrightarrow> emit_step s (s\<lparr>chPast := n, chPanic := chPanic s \<or> chClosed s\<rparr>)"
| closed: "\<not> chClosed s \<Longrightarrow> emit_step s (s\<lparr>chClosed := True\<rparr>)"

inductive_cases emit_stepE: "emit_step s t"

text \<open>A send on a closed channel is a panic; it happens to an emitter that had looked before, and only then.\<close>

lemma emit_races_with_close:
  "\<exists>s. emit_step\<^sup>*\<^sup>* \<lparr>chClosed = False, chPast = 0, chPanic = False\<rparr> s \<and> chPanic s"
proof -
  let ?s = "\<lambda>c n p. \<lparr>chClosed = c, chPast = n, chPanic = p\<rparr>"
  have "emit_step (?s False 0 False) (?s False 1 False)" "emit_step (?s False 1 False) (?s True 1 False)"
      "emit_step (?s True 1 False) (?s True 0 True)"
    using looked [of "?s False 0 False"] closed [of "?s False 1 False"] sent [of "?s True 1 False" 0] by simp_all
  then have "emit_step\<^sup>*\<^sup>* (?s False 0 False) (?s True 0 True)" by (meson converse_rtranclp_into_rtranclp rtranclp.rtrancl_refl)
  then show ?thesis by (intro exI [of _ "?s True 0 True"]) simp
qed

lemma no_panic_without_a_late_emitter:
  "emit_step s t \<Longrightarrow> \<not> chPanic s \<Longrightarrow> chPanic t \<Longrightarrow> chClosed s \<and> chPast s > 0"
  by (auto elim: emit_stepE)

end
