(* ===== verification/LiveStore.thy ===== *)
theory LiveStore
  imports Live
begin

text \<open>
  The window and the component together, on a device that is a key store: what the window checked
  is what the component opens, with nothing but one token and the public keys.
\<close>

context key_store
begin

lemma resolve_supplied:
  "keys (KID pk) = Some pk \<Longrightarrow> length pk = PubKeyLen \<Longrightarrow> resolve c tok' (fromSupplied keys) (KID pk) d = (Inr (pk, fromSupplied keys), d)"
  by (simp add: resolve_def bindS_apply)

lemma loadPeers_supplied:
  assumes "\<And>r e. byRef r = Some e \<longleftrightarrow> e \<in> set (matching (bytes_of MagicPeer) k) \<and> PeerRefFromKID (keKID e) = Inr r"
    and "\<forall>p \<in> set ps. stored sz k MagicPeer (cpKID p) (cpLabel p) (cpRaw p) (cpPubKey p) \<and> peer_ok sz p \<and> keys (cpKID p) = Some (cpPubKey p)"
  shows "\<exists>seen'. loadPeers sz c tok' byRef (map (\<lambda>p. MakePeerRef (cpPubKey p)) ps) (fromSupplied keys) seen d = (Inr (ps, seen'), d)"
  using assms(2)
proof (induction ps arbitrary: seen)
  case (Cons p ps)
  from Cons.prems obtain e where e: "(e, cpPubKey p) \<in> set k" "keKID e = cpKID p" "keLabel e = cpLabel p"
    "take (length (bytes_of MagicPeer)) (keDescr e) = bytes_of MagicPeer" "Normalize sz (keDescr e) = Inr (cpRaw p)"
    and ok: "peer_ok sz p" and key: "keys (cpKID p) = Some (cpPubKey p)" by (auto simp: stored_def)
  from ok have kid: "KID (cpPubKey p) = cpKID p" and len: "length (cpPubKey p) = PubKeyLen"
    and dec: "DecodePeer sz (cpRaw p) = Inr (cpPeer p)" by (auto simp: peer_ok_def)
  have "byRef (MakePeerRef (cpPubKey p)) = Some e"
    using assms(1) e kid PeerRefFromKID_KID [of "cpPubKey p"] by (auto simp: set_matching)
  moreover have "resolve c tok' (fromSupplied keys) (keKID e) d = (Inr (cpPubKey p, fromSupplied keys), d)"
    using resolve_supplied [of keys "cpPubKey p"] kid key len e(2) by simp
  moreover from Cons.IH [of "sizes_add (length (keDescr e)) seen"] Cons.prems obtain seen' where
    "loadPeers sz c tok' byRef (map (\<lambda>p. MakePeerRef (cpPubKey p)) ps) (fromSupplied keys) (sizes_add (length (keDescr e)) seen) d
      = (Inr (ps, seen'), d)" by auto
  moreover have "\<lparr>cpKID = cpKID p, cpLabel = cpLabel p, cpPubKey = cpPubKey p, cpRaw = cpRaw p, cpPeer = cpPeer p\<rparr> = p" by simp
  ultimately show ?case using e dec by (simp add: bindS_apply Let_def mapErrS_def)
qed simp

lemma load_with_keys:
  assumes "holds sz h (K d) tree" and "length (K d) < 50 * fuel"
    and use: "\<And>d. \<exists>u d'. tok' (''keymgmt:use:'' @ IfKID tree) d = (Inr u, d') \<and> K d' = K d"
    and keys: "keys (IfKID tree) = Some (IfPubKey tree)" "\<And>p. p \<in> set (Peers tree) \<Longrightarrow> keys (cpKID p) = Some (cpPubKey p)"
  shows "\<exists>d'. LoadIdentityWithKeys fuel sz c tok' (IfKID tree) keys d = (Inr tree, d') \<and> K d' = K d"
proof -
  from assms(1) obtain e msg where e: "(e, IfPubKey tree) \<in> set (K d)" "keKID e = IfKID tree" "keLabel e = IfLabel tree"
    "take (length (bytes_of MagicInterface)) (keDescr e) = bytes_of MagicInterface" "Normalize sz (keDescr e) = Inr (IfRaw tree)"
    and ps: "\<forall>p \<in> set (Peers tree). stored sz (K d) MagicPeer (cpKID p) (cpLabel p) (cpRaw p) (cpPubKey p) \<and> peer_ok sz p \<and>
      keys (cpKID p) = Some (cpPubKey p)"
    and clear: "refs_clear (K d)" and ok: "tree_ok sz tree" and mac: "HasMAC (Iface tree)"
    "Canonical sz (IfPubKey tree) (IfRaw tree) (map recordOf (Peers tree)) = Inr msg" "MAC (Iface tree) = h (IfKID tree) msg"
    using keys(2) by (auto simp: holds_def stored_def tree_ok_def)
  from ok have t: "KID (IfPubKey tree) = IfKID tree" "length (IfPubKey tree) = PubKeyLen"
    "DecodeInterface sz (IfRaw tree) = Inr (Iface tree)" "Peers tree \<noteq> []"
    "PeerRefs (Iface tree) = map (\<lambda>p. MakePeerRef (cpPubKey p)) (Peers tree)" by (auto simp: tree_ok_def)
  obtain d1 where s1: "search fuel c tok' MagicInterface d = (Inr (matching (bytes_of MagicInterface) (K d)), d1)" "K d1 = K d"
    using search_all [OF assms(2)] by blast
  have f: "find (\<lambda>e'. keKID e' = IfKID tree) (matching (bytes_of MagicInterface) (K d)) = Some e"
    using find_kid [OF e(1,4)] e(2) by simp
  have r: "resolve c tok' (fromSupplied keys) (keKID e) d1 = (Inr (IfPubKey tree, fromSupplied keys), d1)"
    using resolve_supplied [of keys "IfPubKey tree"] e(2) t(1,2) keys(1) by simp
  obtain d3 where s2: "search fuel c tok' MagicPeer d1 = (Inr (matching (bytes_of MagicPeer) (K d)), d3)" "K d3 = K d"
    using search_all [of d1 fuel tok' MagicPeer] assms(2) s1(2) by auto
  obtain byRef where b: "indexPeers (matching (bytes_of MagicPeer) (K d)) (\<lambda>_. None) = Inr byRef"
    using clear indexPeers_ok [of "matching (bytes_of MagicPeer) (K d)" "\<lambda>_. None"] by (auto simp: refs_clear_def isOk_iff)
  have lk: "byRef r = Some e' \<longleftrightarrow> e' \<in> set (matching (bytes_of MagicPeer) (K d)) \<and> PeerRefFromKID (keKID e') = Inr r" for r e'
    using indexPeers_lookup [OF b, of r e'] by simp
  obtain seen where lp: "loadPeers sz c tok' byRef (PeerRefs (Iface tree)) (fromSupplied keys) (newSizes (length (keDescr e))) d3
      = (Inr (Peers tree, seen), d3)"
    using loadPeers_supplied [OF lk ps] t(5) by metis
  obtain u d5 where u: "tok' (''keymgmt:use:'' @ keKID e) d3 = (Inr u, d5)" "K d5 = K d" using use [of d3] s2(2) e(2) by auto
  obtain d6 where v: "Verify sz c u (keKID e) (IfPubKey tree) (IfRaw tree) (map recordOf (Peers tree)) d5 = (Inr (), d6)" "K d6 = K d"
    using Verify_holds [OF t(3) mac(1,2), of "keKID e" u d5] mac(3) e(2) u(2) by auto
  have refs: "PeerRefs (Iface tree) \<noteq> []" using t(4,5) by simp
  have "\<lparr>IfKID = IfKID tree, IfLabel = IfLabel tree, IfPubKey = IfPubKey tree, IfRaw = IfRaw tree, Iface = Iface tree,
      Peers = Peers tree\<rparr> = tree" by simp
  then have "loadFrom fuel sz c tok' e (fromSupplied keys) d1 = (Inr tree, d6)"
    using e t(3) refs r s2 b lp u v by (simp add: loadFrom_def Let_def bindS_apply mapErrS_def)
  with s1 f v(2) show ?thesis by (auto simp: LoadIdentityWithKeys_def loadNamed_def bindS_apply)
qed

end

subsection \<open>The keys that are handed over\<close>

lemma orFailed_Inr [result_inv]: "orFailed m x = (Inr y, x') \<longleftrightarrow> m x = (Inr y, x')"
  by (auto simp: orFailed_def split: prod.splits sum.splits)

lemma orDeclined_Inr [result_inv]: "orDeclined m x = (Inr y, x') \<longleftrightarrow> m x = (Inr y, x')"
  by (auto simp: orDeclined_def split: prod.splits sum.splits)

definition keyTable :: "(string \<times> string) list \<Rightarrow> (string \<Rightarrow> bytes) \<Rightarrow> bool" where
  "keyTable m g \<longleftrightarrow> (\<forall>x \<in> set m. snd x = b64Encode (g (fst x)))"

lemma keyTable_update: "keyTable m g \<Longrightarrow> g k = pk \<Longrightarrow> keyTable (AList.update k (b64Encode pk) m) g"
  by (induction m) (auto simp: keyTable_def)

lemma keyTable_fold:
  "keyTable m g \<Longrightarrow> \<forall>p \<in> set ps. g (cpKID p) = cpPubKey p \<Longrightarrow>
   keyTable (fold (\<lambda>p. AList.update (cpKID p) (b64Encode (cpPubKey p))) ps m) g \<and>
   fst ` set (fold (\<lambda>p. AList.update (cpKID p) (b64Encode (cpPubKey p))) ps m) = fst ` set m \<union> cpKID ` set ps"
proof (induction ps arbitrary: m)
  case (Cons p ps)
  let ?m = "AList.update (cpKID p) (b64Encode (cpPubKey p)) m"
  have "keyTable ?m g" using keyTable_update Cons.prems by (metis list.set_intros(1))
  from Cons.IH [OF this] Cons.prems(2) show ?case by (auto simp: dom_update)
qed simp

lemma decodeKeys_table:
  "keyTable m g \<Longrightarrow> \<exists>keys. decodeKeys m = Inr keys \<and> (\<forall>kid \<in> fst ` set m. keys kid = Some (g kid))"
proof (induction m)
  case (Cons x m)
  obtain kid v where x: "x = (kid, v)" by (cases x)
  with Cons obtain keys where "decodeKeys m = Inr keys" "\<forall>k \<in> fst ` set m. keys k = Some (g k)"
    by (auto simp: keyTable_def)
  with Cons.prems x show ?case by (auto simp: keyTable_def)
qed simp

context key_store
begin

text \<open>The key a store keeps under an identifier; one exists for every key of a configuration it holds.\<close>

lemma publicKeys_decode:
  assumes "holds sz h (K d) t"
  shows "\<exists>keys. decodeKeys (publicKeys t) = Inr keys \<and> keys (IfKID t) = Some (IfPubKey t) \<and>
    (\<forall>p \<in> set (Peers t). keys (cpKID p) = Some (cpPubKey p))"
proof -
  define g where "g = (\<lambda>kid. snd (the (find (\<lambda>x. kidOf x = kid) (K d))))"
  have g: "g kid = pk" if m: "stored sz (K d) magic kid l raw pk" for magic kid l raw pk
  proof -
    from m obtain e where e: "(e, pk) \<in> set (K d)" "kidOf (e, pk) = kid" by (auto simp: stored_def kidOf_def)
    then have "find (\<lambda>x. kidOf x = kid) (K d) \<noteq> None" by (auto simp: find_None_iff)
    then obtain y where y: "find (\<lambda>x. kidOf x = kid) (K d) = Some y" by blast
    from find_SomeD [OF y] kid_unique [of y d "(e, pk)"] e have "y = (e, pk)" by auto
    with y show ?thesis by (simp add: g_def)
  qed
  from assms have st: "stored sz (K d) MagicInterface (IfKID t) (IfLabel t) (IfRaw t) (IfPubKey t)"
    "\<forall>p \<in> set (Peers t). stored sz (K d) MagicPeer (cpKID p) (cpLabel p) (cpRaw p) (cpPubKey p)" by (simp_all add: holds_def)
  have i: "g (IfKID t) = IfPubKey t" by (rule g [OF st(1)])
  have ps: "\<forall>p \<in> set (Peers t). g (cpKID p) = cpPubKey p" using g [OF st(2) [rule_format]] by blast
  have "keyTable [(IfKID t, b64Encode (IfPubKey t))] g" using i by (simp add: keyTable_def)
  note tb = keyTable_fold [OF this ps, folded publicKeys_def]
  from decodeKeys_table [OF conjunct1 [OF tb]]
  obtain keys where d: "decodeKeys (publicKeys t) = Inr keys" and k: "\<forall>kid \<in> fst ` set (publicKeys t). keys kid = Some (g kid)"
    by blast
  have m: "IfKID t \<in> fst ` set (publicKeys t)" "\<forall>p \<in> set (Peers t). cpKID p \<in> fst ` set (publicKeys t)" using tb by auto
  have "keys (IfKID t) = Some (IfPubKey t)" using bspec [OF k m(1)] i by simp
  moreover have "keys (cpKID p) = Some (cpPubKey p)" if "p \<in> set (Peers t)" for p
    using bspec [OF k bspec [OF m(2) that]] bspec [OF ps that] by simp
  ultimately show ?thesis using d by blast
qed

end

subsection \<open>A window and a component on one device\<close>

text \<open>
  What the two rely on besides the store: a session of the window is a store as well, the device
  answers a checkin, and neither the control connection nor dropping key material touches the keys.
\<close>

locale window_store = key_store c tok K h
  for c :: "'d Client" and tok :: "'d TokenFunc" and K :: "'d \<Rightarrow> store" and h :: "string \<Rightarrow> bytes \<Rightarrow> bytes" +
  fixes dev :: "'d Device" and ctl :: "'d Control"
  assumes session: "key_store (liftClient c) (Token c dev) (\<lambda>s. K (fst s)) h"
    and answers: "\<exists>d'. Checkin c d = (Inr (), d') \<and> K d' = K d"
    and clears: "K (ClearKeys c d) = K d"
    and dials: "K (snd (Dial ctl d)) = K d"
    and sends: "K (snd (Send ctl conn b d)) = K d"
begin

lemma liveRequest_checked:
  assumes "liveRequest n sz (liftClient c) (Token c dev) ask b url ((w, a), s) = (Inr (req, t), ((w', a'), s'))"
  shows "holds sz h (K w) t \<and> K w' = K w \<and> rIdentity req = IfKID t \<and> rPubKeys req = publicKeys t \<and> rHEMURL req = url \<and>
    pickPeer (Peers t) (snd ask) = Inr (rPeer req)"
proof -
  from assms obtain ids d1 kid d2 pk ut d3 where
    i: "Identities n sz (liftClient c) (Token c dev) (w, a) = (Inr ids, d1)"
    and l: "LoadIdentity n sz (liftClient c) (Token c dev) kid d1 = (Inr t, d2)"
    and p: "pickPeer (Peers t) (snd ask) = Inr pk"
    and u: "Token c dev (''keymgmt:use:'' @ kid) d2 = (Inr ut, d3)" and w': "fst d3 = w'"
    and req: "req = \<lparr>rOp = OpStart, rBuild = b, rHEMURL = url, rIdentity = kid, rPeer = pk, rToken = ut, rPubKeys = publicKeys t\<rparr>"
    by (auto simp: liveRequest_def result_inv)
  from i obtain L where "search n (liftClient c) (Token c dev) MagicInterface (w, a) = (Inr L, d1)"
    by (auto simp: Identities_def result_inv)
  from key_store.search_sound [OF session this] have k1: "K (fst d1) = K w" by simp
  from key_store.load_sound [OF session l] k1 have t: "holds sz h (K w) t" "IfKID t = kid" "K (fst d2) = K w" by auto
  from key_store.grants [OF session, of "''keymgmt:use:'' @ kid" d2] u have "K (fst d3) = K (fst d2)" by auto
  with t p req w' show ?thesis by simp
qed

lemma liveStart_store:
  assumes "liveStart ctl encode req (w, s) = (Inr u, (w', s'))"
  shows "K w' = K w \<and> lsConn s' \<noteq> None \<and> lsIfKID s' = rIdentity req"
proof -
  from assms obtain conn w1 where d: "Dial ctl w = (Inr conn, w1)" and
    e: "(case bindS (liftE (WriteMsg (encode req))) (\<lambda>m. onDevice (Send ctl conn m)) (w1, s) of
         (Inl e, (w, s)) \<Rightarrow> (let e' = Fail KindDevice ''asking for a tunnel: %v'' []; w' = snd (Hang ctl conn w) in (Inl e', (w', Live_failed e' s)))
       | (Inr _, (w, s)) \<Rightarrow> (Inr (), (w, s\<lparr>lsConn := Some conn, lsIfKID := rIdentity req\<rparr>))) = (Inr u, (w', s'))"
    by (auto simp: liveStart_def result_inv)
  obtain r w2 s2 where b: "bindS (liftE (WriteMsg (encode req))) (\<lambda>m. onDevice (Send ctl conn m)) (w1, s) = (r, (w2, s2))"
    by (rule prod_cases3)
  with e have r: "r = Inr ()" "w' = w2" "lsConn s' = Some conn" "lsIfKID s' = rIdentity req" by (cases r; auto simp: Let_def)+
  with b obtain m where "Send ctl conn m w1 = (Inr (), w2)" by (auto simp: result_inv)
  with d r dials [of w] sends [of conn m w1] show ?thesis by simp
qed

lemma Live_Connect_checked:
  assumes "Live_Connect n sz c dev ctl encode ask b (w, s) = (Inr (req, t), (w', s'))"
  shows "holds sz h (K w') t \<and> rIdentity req = IfKID t \<and> rPubKeys req = publicKeys t \<and>
    pickPeer (Peers t) (snd ask) = Inr (rPeer req) \<and> rHEMURL req = lsHEM s \<and> lsConn s' \<noteq> None \<and> lsIfKID s' = IfKID t"
proof -
  define s1 where "s1 = Live_emit (workingOut (lsHEM s)) (Live_emit (wEvent Connecting (lsHEM s)) s)"
  have h1: "lsHEM s1 = lsHEM s" by (simp add: s1_def)
  from assms obtain a w1 where cn: "Connect c dev w = (Inr a, w1)" and
    e: "(case liveRequest n sz (liftClient c) (Token c dev) ask b (lsHEM s1) ((w1, a), s1) of
         (Inl e, ((w, _), s)) \<Rightarrow> (Inl e, (Wipe c w, s))
       | (Inr (req, tree), ((w, _), s)) \<Rightarrow>
           (case liveStart ctl encode req (w, s) of
              (Inl e, (w, s)) \<Rightarrow> (Inl e, (Wipe c w, s))
            | (Inr _, (w, s)) \<Rightarrow> (Inr (req, tree), (Wipe c w, s)))) = (Inr (req, t), (w', s'))"
    by (auto simp: Live_Connect_def result_inv Let_def s1_def)
  obtain r w2 a2 s2 where l: "liveRequest n sz (liftClient c) (Token c dev) ask b (lsHEM s1) ((w1, a), s1) = (r, ((w2, a2), s2))"
    by (metis prod.collapse)
  from e l obtain rt where r: "r = Inr rt" by (cases r) auto
  obtain q w3 s3 where st0: "liveStart ctl encode (fst rt) (w2, s2) = (q, (w3, s3))" by (rule prod_cases3)
  from e l r st0 have rt: "rt = (req, t)" and q: "q = Inr ()" and w': "w' = ClearKeys c w3" "s3 = s'"
    by (cases rt; cases q; simp add: Wipe_def)+
  note rq = l [unfolded r rt] and st = st0 [unfolded rt fst_conv q w'(2)]
  have "K w3 = K w2" "lsConn s' \<noteq> None" "lsIfKID s' = rIdentity req" using liveStart_store [OF st] by auto
  with liveRequest_checked [OF rq] w'(1) h1 clears [of w3] show ?thesis by simp
qed

text \<open>And the component: the one token is enough.\<close>

lemma open_checked:
  assumes "holds sz h (K w) t" and "rIdentity req = IfKID t" and "rPubKeys req = publicKeys t"
    and "pickPeer (Peers t) None = Inr (rPeer req)" and "newClient (rHEMURL req) = c" and "length (K w) < 50 * m"
  shows "\<exists>d w'. openTunnel m sz newClient ex req w = (Inr d, w') \<and> dTree d = t \<and> dPeer d = hd (Peers t) \<and>
    oUseTok (dOpts d) = rToken req"
proof -
  obtain w1 where w1: "Checkin c w = (Inr (), w1)" "K w1 = K w" using answers by blast
  obtain keys where k: "decodeKeys (publicKeys t) = Inr keys" "keys (IfKID t) = Some (IfPubKey t)"
      "\<forall>p \<in> set (Peers t). keys (cpKID p) = Some (cpPubKey p)"
    using publicKeys_decode [OF assms(1)] by blast
  have use: "\<exists>u d'. requestToken req (''keymgmt:use:'' @ IfKID t) d = (Inr u, d') \<and> K d' = K d" for d
    by (simp add: requestToken_def assms(2))
  have h1: "holds sz h (K w1) t" "length (K w1) < 50 * m" using assms(1,6) w1 by auto
  obtain w2 where l: "LoadIdentityWithKeys m sz c (requestToken req) (IfKID t) keys w1 = (Inr t, w2)"
    using load_with_keys [of sz w1 t m "requestToken req" keys] h1 use k(2,3) by blast
  have ne: "Peers t \<noteq> []" using assms(1) by (simp add: holds_def tree_ok_def)
  then have pk: "rPeer req = cpKID (hd (Peers t))" using assms(4) by (cases "Peers t") (auto simp: pickPeer_def split: if_splits)
  have "peerByKID t (rPeer req) = Inr (hd (Peers t))"
    using ne pk by (cases "Peers t") (auto simp: peerByKID_def)
  with w1 k l assms(2,3,5) show ?thesis
    by (simp add: openTunnel_def Let_def bindS_apply mapErrS_def)
qed

end

text \<open>
  C9: the component opens what the window checked.  On any device that behaves as a key store, when
  the window's \<open>Connect\<close> succeeds, the configuration it checked is held by the device, the request
  names its identity, and the component that gets the request on that device opens a tunnel on
  exactly this configuration and its first peer, with the one token the request carries and the
  public keys it hands over - no other token, and no passphrase.
\<close>

theorem component_opens_what_the_window_checked:
  assumes "window_store c tok K h dev ctl"
    and "Live_Connect n sz c dev ctl encode (ask, None) b (w, s) = (Inr (req, t), (w', s'))"
    and "newClient (lsHEM s) = c" and "length (K w') < 50 * m"
  shows "holds sz h (K w') t \<and> rIdentity req = IfKID t \<and> lsIfKID s' = IfKID t \<and> tunnelUp s' = (\<not> lsClosed s') \<and>
    (\<exists>d w2. openTunnel m sz newClient ex req w' = (Inr d, w2) \<and> dTree d = t \<and> dPeer d = hd (Peers t) \<and>
       oUseTok (dOpts d) = rToken req)"
proof -
  from window_store.Live_Connect_checked [OF assms(1,2)]
  have c: "holds sz h (K w') t" "rIdentity req = IfKID t" "rPubKeys req = publicKeys t" "pickPeer (Peers t) None = Inr (rPeer req)"
    "rHEMURL req = lsHEM s" "lsConn s' \<noteq> None" "lsIfKID s' = IfKID t" by auto
  with window_store.open_checked [OF assms(1) c(1-4) _ assms(4), of newClient ex] assms(3) show ?thesis
    by (simp add: tunnelUp_def)
qed

subsection \<open>A device that accepts a passphrase\<close>

definition windowClient :: "(string \<Rightarrow> bytes \<Rightarrow> bytes) \<Rightarrow> store Client" where
  "windowClient h = (memClient h)\<lparr>Checkin := returnS (), AuthPassword := (\<lambda>_ _ _. returnS ''t'')\<rparr>"

definition windowDevice :: "'d Device" where
  "windowDevice = \<lparr>devMobile = False, devExpSecs = 28800, Passphrase = Some (returnS [1])\<rparr>"

lemma windowToken: "Token (windowClient h) windowDevice scope (k, a) = (Inr ''t'', (k, a\<lparr>asked := True\<rparr>))"
  by (cases "asked a") (simp_all add: Token_def windowClient_def windowDevice_def)

interpretation pass: key_store "windowClient h" returnS memKeys "memTag h" for h
proof (unfold_locales, goal_cases)
  case (4 e pk d t)
  then show ?case using mem.gets [of e pk d h t] by (simp add: windowClient_def)
next
  case (10 t kid)
  from mem.macs [of h t kid] show ?case by (simp add: honest_hmac_def windowClient_def)
qed (use mem.updates [where h = h] mem.deletes [where h = h] mem.imports_ok [where h = h] mem.imports_fail [where h = h]
      mem.gets_keep [where h = h] mem.searches [where h = h] mem.macs_keep [where h = h] mem.wraps_keep [where h = h]
    in \<open>auto simp: windowClient_def\<close>)

lemma window_session: "key_store (liftClient (windowClient h)) (Token (windowClient h) windowDevice) (\<lambda>s. memKeys (fst s)) (memTag h)"
proof (rule key_store_lift [OF pass.key_store_axioms])
  fix scope and s :: "store \<times> Auth"
  show "\<exists>t s'. Token (windowClient h) windowDevice scope s = (Inr t, s') \<and> memKeys (fst s') = memKeys (fst s)"
    by (cases s) (simp add: windowToken)
qed

interpretation win: window_store "windowClient h" returnS memKeys "memTag h" windowDevice stillControl for h
  by (rule window_store.intro [OF pass.key_store_axioms window_store_axioms.intro [OF window_session]])
    (simp_all add: windowClient_def stillControl_def memClient_def deafClient_def)

lemma example_Connect:
  assumes "length tag = MACLen" and "holds size_descr64 (memTag h) (exampleStore tag) (exampleTree tag)"
  shows "\<exists>req w' s'. Live_Connect 1 size_descr64 (windowClient h) windowDevice stillControl (\<lambda>_. []) (None, None) b
    (exampleStore tag, newLiveSession ''hem'') = (Inr (req, exampleTree tag), (w', s')) \<and> length (memKeys w') < 50 * 1"
proof -
  let ?c = "windowClient h" and ?k = "exampleStore tag" and ?a = "\<lparr>asked = False, expSecs = 28800\<rparr>" and ?L = "liftClient (windowClient h)"
  let ?T = "Token ?c windowDevice" and ?s = "newLiveSession ''hem''"
  let ?s1 = "Live_emit (workingOut (lsHEM ?s)) (Live_emit (wEvent Connecting (lsHEM ?s)) ?s)"
  have k: "memKeys ?k = ?k" by simp
  have cn: "Connect ?c windowDevice ?k = (Inr ?a, ?k)"
    by (simp add: Connect_def windowClient_def windowDevice_def mapErrS_def bindS_apply)
  have n: "length (memKeys (fst (?k, ?a))) < 50 * 1" unfolding fst_conv k by (simp add: exampleStore_def)
  obtain d1 where se: "search 1 ?L ?T MagicInterface (?k, ?a) = (Inr (matching (bytes_of MagicInterface) ?k), d1)" "memKeys (fst d1) = ?k"
    using key_store.search_all [OF window_session [of h] n, where tok' = ?T and magic = MagicInterface] k by auto
  have "length (matching (bytes_of MagicInterface) ?k) = 1"
    using exampleIfRecord_magic [OF assms(1)] magics_differ [OF examplePeerRecord_magic] by (simp add: matching_def exampleStore_def)
  then obtain e where e: "matching (bytes_of MagicInterface) ?k = [e]" by (auto simp: length_Suc_conv)
  from assms(2) have "stored size_descr64 ?k MagicInterface (IfKID (exampleTree tag)) (IfLabel (exampleTree tag))
      (IfRaw (exampleTree tag)) (IfPubKey (exampleTree tag))" by (simp add: holds_def)
  then have "\<exists>x \<in> set (matching (bytes_of MagicInterface) ?k). keKID x = IfKID (exampleTree tag)"
    unfolding stored_def Bex_def set_matching by blast
  then have ek: "keKID e = IfKID (exampleTree tag)" by (simp add: e)
  have i: "Identities 1 size_descr64 ?L ?T (?k, ?a) = (Inr [describeOne size_descr64 e], d1)"
    by (simp add: Identities_def bindS_apply se e describe_def del: One_nat_def)
  have h1: "holds size_descr64 (memTag h) (memKeys (fst d1)) (exampleTree tag)" "length (memKeys (fst d1)) < 50 * 1"
    using assms(2) se(2) n by simp_all
  obtain d2 where ld: "LoadIdentity 1 size_descr64 ?L ?T (IfKID (exampleTree tag)) d1 = (Inr (exampleTree tag), d2)" "memKeys (fst d2) = ?k"
    using key_store.load_complete [OF window_session [of h] h1] se(2) by auto
  obtain w2 a2 where d2: "d2 = (w2, a2)" by (cases d2)
  have pi: "pickIdentity [describeOne size_descr64 e] None = Inr (IfKID (exampleTree tag))"
    by (simp add: pickIdentity_def describeOne_def ek)
  obtain pk where pp: "pickPeer (Peers (exampleTree tag)) None = Inr pk" by (simp add: pickPeer_def exampleTree_def)
  obtain req where rq: "liveRequest 1 size_descr64 ?L ?T (None, None) b (lsHEM ?s1) ((?k, ?a), ?s1)
      = (Inr (req, exampleTree tag), ((w2, a2\<lparr>asked := True\<rparr>), ?s1))"
    by (simp add: liveRequest_def bindS_apply orFailed_def orDeclined_def onDevice_apply i pi ld pp d2 windowToken del: One_nat_def)
  have st: "\<exists>s'. liveStart stillControl (\<lambda>_. []) req (w2, ?s1) = (Inr (), (w2, s'))"
    by (simp add: liveStart_def bindS_apply orFailed_def onDevice_apply stillControl_def mapErrS_def WriteMsg_def)
  from st obtain s' where st: "liveStart stillControl (\<lambda>_. []) req (w2, ?s1) = (Inr (), (w2, s'))" by blast
  have "Live_Connect 1 size_descr64 ?c windowDevice stillControl (\<lambda>_. []) (None, None) b (?k, ?s) = (Inr (req, exampleTree tag), (Wipe ?c w2, s'))"
    by (simp add: Live_Connect_def bindS_apply updS_def orFailed_def onDevice_apply cn rq [unfolded Live_emit_sel] st [unfolded Live_emit_sel] del: One_nat_def)
  moreover have "memKeys (Wipe ?c w2) = ?k" using ld(2) d2 by (simp add: Wipe_def windowClient_def memClient_def deafClient_def)
  ultimately show ?thesis using n by auto
qed

theorem component_opens_what_the_window_checked_witness:
  "\<exists>tag req s' w' d w2. Live_Connect 1 size_descr64 (windowClient (\<lambda>_. toyTag)) windowDevice stillControl (\<lambda>_. []) (None, None)
       \<lparr>Release = ''1'', bDescr = 64\<rparr> (exampleStore tag, newLiveSession ''hem'') = (Inr (req, exampleTree tag), (w', s')) \<and>
     openTunnel 1 size_descr64 (\<lambda>_. windowClient (\<lambda>_. toyTag)) (\<lambda>_. 0) req w' = (Inr d, w2) \<and> dTree d = exampleTree tag"
proof -
  let ?h = "\<lambda>_. toyTag"
  obtain tag where l: "length tag = MACLen" and hh: "holds size_descr64 (memTag ?h) (exampleStore tag) (exampleTree tag)"
    using example_mem_load by blast
  obtain req w' s' where c: "Live_Connect 1 size_descr64 (windowClient ?h) windowDevice stillControl (\<lambda>_. []) (None, None)
      \<lparr>Release = ''1'', bDescr = 64\<rparr> (exampleStore tag, newLiveSession ''hem'') = (Inr (req, exampleTree tag), (w', s'))"
    and n: "length (memKeys w') < 50 * 1" using example_Connect [OF l hh] by blast
  from component_opens_what_the_window_checked [OF win.window_store_axioms c refl n, of "\<lambda>_. 0"] c show ?thesis by blast
qed

end
