(* ===== verification/Window.thy ===== *)
theory Window
  imports Live
begin

text \<open>
  What the window decides without drawing it: the texts a profile is chosen by (\<open>gui/choose.go\<close>),
  the summary and the suggested name of an import (\<open>gui/import.go\<close>), and the state of the main
  screen (\<open>gui/main.go\<close>): its one action, the notice, the warning before a session ends, and the
  folded rows of the panel.  Widgets and notifications are left out.
\<close>

subsection \<open>Runes\<close>

text \<open>\<open>[]rune\<close> of a string: UTF-8, a byte that begins nothing valid being U+FFFD.\<close>

definition continues :: "nat \<Rightarrow> bool" where
  "continues x \<longleftrightarrow> 0x80 \<le> x \<and> x \<le> 0xBF"

definition second_ok :: "nat \<Rightarrow> nat \<Rightarrow> bool" where
  "second_ok b x \<longleftrightarrow> (if b = 0xE0 then 0xA0 else if b = 0xF0 then 0x90 else 0x80) \<le> x \<and>
     x \<le> (if b = 0xED then 0x9F else if b = 0xF4 then 0x8F else 0xBF)"

definition runeTail :: "nat \<Rightarrow> nat list \<Rightarrow> (nat \<times> nat) option" where
  "runeTail b xs =
     (if 0xC2 \<le> b \<and> b \<le> 0xDF then
        (case xs of x # _ \<Rightarrow> if continues x then Some ((b - 0xC0) * 64 + (x - 0x80), 1) else None | _ \<Rightarrow> None)
      else if 0xE0 \<le> b \<and> b \<le> 0xEF then
        (case xs of x # y # _ \<Rightarrow>
             if second_ok b x \<and> continues y then Some (((b - 0xE0) * 64 + (x - 0x80)) * 64 + (y - 0x80), 2) else None
         | _ \<Rightarrow> None)
      else if 0xF0 \<le> b \<and> b \<le> 0xF4 then
        (case xs of x # y # z # _ \<Rightarrow>
             if second_ok b x \<and> continues y \<and> continues z
             then Some ((((b - 0xF0) * 64 + (x - 0x80)) * 64 + (y - 0x80)) * 64 + (z - 0x80), 3) else None
         | _ \<Rightarrow> None)
      else None)"

function runesOf :: "nat list \<Rightarrow> nat list" where
  "runesOf [] = []"
| "runesOf (b # xs) =
     (if b < 0x80 then b # runesOf xs
      else case runeTail b xs of
          Some (r, n) \<Rightarrow> r # runesOf (drop n xs)
        | None \<Rightarrow> 0xFFFD # runesOf xs)"
  by pat_completeness auto
termination by (relation "measure length") auto

definition Runes :: "string \<Rightarrow> nat list" where
  "Runes s = runesOf (map of_char s)"

definition encodeRune :: "nat \<Rightarrow> nat list" where
  "encodeRune r =
     (let r = (if 0xD800 \<le> r \<and> r \<le> 0xDFFF \<or> r > 0x10FFFF then 0xFFFD else r) in
      if r < 0x80 then [r]
      else if r < 0x800 then [0xC0 + r div 64, 0x80 + r mod 64]
      else if r < 0x10000 then [0xE0 + r div 4096, 0x80 + r div 64 mod 64, 0x80 + r mod 64]
      else [0xF0 + r div 262144, 0x80 + r div 4096 mod 64, 0x80 + r div 64 mod 64, 0x80 + r mod 64])"

definition RuneString :: "nat list \<Rightarrow> string" where
  "RuneString rs = map char_of (concat (map encodeRune rs))"

lemma runesOf_ascii: "list_all (\<lambda>b. b < 0x80) xs \<Longrightarrow> runesOf xs = xs"
  by (induction xs) auto

definition truncate :: "string \<Rightarrow> nat \<Rightarrow> string" where
  "truncate s n = (if length (Runes s) \<le> n then s else RuneString (take (n - 1) (Runes s)) @ ''...'')"

lemma truncate_short: "list_all (\<lambda>c. of_char c < (0x80 :: nat)) s \<Longrightarrow> length s \<le> n \<Longrightarrow> truncate s n = s"
  by (simp add: truncate_def Runes_def runesOf_ascii list_all_iff)

subsection \<open>Choosing a profile\<close>

definition labelRunes :: nat where "labelRunes = 18"

definition addrSummary :: "Prefix list \<Rightarrow> string" where
  "addrSummary addrs =
     (case addrs of
        [] \<Rightarrow> ''unreadable record''
      | a # others \<Rightarrow> if others = [] then PrefixString a else PrefixString a @ ''  +'' @ Itoa (int (length others)))"

definition shortKID :: "string \<Rightarrow> string" where
  "shortKID kid = (if length kid \<le> 8 then kid else take 8 kid @ ''...'')"

definition identityLine :: "Identity \<Rightarrow> string \<Rightarrow> string" where
  "identityLine i instead =
     (let label = (if instead = [] then truncate (TrimSpace (idLabel i)) labelRunes else instead);
          label = (if label = [] then ''(unnamed)'' else label)
      in label @ ''  -  '' @ addrSummary (idAddrs i))"

definition ambiguous :: "Identity list \<Rightarrow> Identity \<Rightarrow> bool" where
  "ambiguous ids i \<longleftrightarrow> length (filter (\<lambda>j. identityLine j [] = identityLine i []) ids) > 1"

definition identityChoices :: "Identity list \<Rightarrow> string list" where
  "identityChoices ids =
     map (\<lambda>i. if ambiguous ids i then identityLine i (shortKID (idKID i)) else identityLine i []) ids"

definition kidFor :: "Identity list \<Rightarrow> string \<Rightarrow> string" where
  "kidFor ids line =
     (case find (\<lambda>(i, s). s = line) (zip ids (identityChoices ids)) of None \<Rightarrow> [] | Some (i, _) \<Rightarrow> idKID i)"

text \<open>The dialogue's answer: nothing when it is dismissed, else the line that is selected, if any.\<close>

definition askProfile :: "Identity list \<Rightarrow> string option \<Rightarrow> error + string" where
  "askProfile ids answer =
     (let kid = (case answer of None \<Rightarrow> [] | Some line \<Rightarrow> if line = [] then [] else kidFor ids line)
      in if kid = [] then Inl errNoProfileChosen else Inr kid)"

lemma length_identityChoices [simp]: "length (identityChoices ids) = length ids"
  by (simp add: identityChoices_def)

lemma identityLine_nonempty [simp]: "identityLine i s \<noteq> []"
  by (simp add: identityLine_def Let_def)

lemma find_zip_first:
  "i < length xs \<Longrightarrow> length ys = length xs \<Longrightarrow>
   \<exists>j \<le> i. ys ! j = ys ! i \<and> find (\<lambda>(x, s). s = ys ! i) (zip xs ys) = Some (xs ! j, ys ! j)"
proof (induction xs arbitrary: ys i)
  case (Cons x xs)
  then obtain y ys' where ys: "ys = y # ys'" by (cases ys) auto
  show ?case
  proof (cases "y = ys ! i")
    case True
    then show ?thesis by (intro exI [of _ 0]) (simp add: ys)
  next
    case False
    then obtain k where i: "i = Suc k" by (cases i) (auto simp: ys)
    with Cons.IH [of k ys'] Cons.prems ys obtain j where "j \<le> k" "ys' ! j = ys' ! k"
      "find (\<lambda>(x, s). s = ys' ! k) (zip xs ys') = Some (xs ! j, ys' ! j)" by auto
    with False show ?thesis by (intro exI [of _ "Suc j"]) (simp add: ys i)
  qed
qed simp

lemma two_of_filter: "i < length xs \<Longrightarrow> j < length xs \<Longrightarrow> i \<noteq> j \<Longrightarrow> P (xs ! i) \<Longrightarrow> P (xs ! j) \<Longrightarrow> length (filter P xs) > 1"
proof -
  assume a: "i < length xs" "j < length xs" "i \<noteq> j" "P (xs ! i)" "P (xs ! j)"
  then have "{i, j} \<subseteq> {k. k < length xs \<and> P (xs ! k)}" by auto
  then have "card {i, j} \<le> length (filter P xs)" unfolding length_filter_conv_card by (rule card_mono [rotated]) simp
  with a(3) show ?thesis by simp
qed

lemma identifier_lines:
  assumes "length (idKID x) = 32" and "length (idKID y) = 32"
    and "identityLine x (shortKID (idKID x)) = identityLine y (shortKID (idKID y))"
  shows "take 8 (idKID x) = take 8 (idKID y)"
proof -
  have "identityLine x (shortKID (idKID x)) = take 8 (idKID x) @ ''...'' @ ''  -  '' @ addrSummary (idAddrs x)"
    "identityLine y (shortKID (idKID y)) = take 8 (idKID y) @ ''...'' @ ''  -  '' @ addrSummary (idAddrs y)"
    using assms(1,2) by (simp_all add: identityLine_def shortKID_def Let_def)
  with assms show ?thesis by (simp add: append_eq_append_conv)
qed

text \<open>A label that spells another profile's identifier line, which nobody's does by accident.\<close>

definition impersonates :: "Identity list \<Rightarrow> Identity \<Rightarrow> Identity \<Rightarrow> bool" where
  "impersonates ids x y \<longleftrightarrow> \<not> ambiguous ids x \<and> ambiguous ids y \<and> identityLine x [] = identityLine y (shortKID (idKID y))"

text \<open>
  C39: every profile has a line of its own, and selecting it selects that profile.  This holds
  also of identities whose labels and addresses are the same, as \<open>provision\<close> leaves them, so
  long as the first eight digits of their identifiers tell them apart and no label spells
  another profile's identifier line.  Dismissing the question gives no identity.
\<close>

theorem profile_is_chosen_by_its_line:
  assumes "\<forall>x \<in> set ids. length (idKID x) = 32" and "distinct (map (\<lambda>x. take 8 (idKID x)) ids)"
    and "\<forall>x \<in> set ids. \<forall>y \<in> set ids. \<not> impersonates ids x y"
  shows "distinct (identityChoices ids) \<and>
    (\<forall>i < length ids. askProfile ids (Some (identityChoices ids ! i)) = Inr (idKID (ids ! i))) \<and>
    askProfile ids None = Inl errNoProfileChosen"
proof -
  have ne: "identityChoices ids ! i \<noteq> identityChoices ids ! j" if "i < length ids" "j < length ids" "i \<noteq> j" for i j
  proof
    assume eq: "identityChoices ids ! i = identityChoices ids ! j"
    let ?x = "ids ! i" and ?y = "ids ! j"
    have set: "?x \<in> set ids" "?y \<in> set ids" using that by auto
    have "ambiguous ids ?x \<longleftrightarrow> ambiguous ids ?y"
    proof -
      have "\<not> impersonates ids ?x ?y" "\<not> impersonates ids ?y ?x" using assms(3) set by blast+
      with eq that show ?thesis by (cases "ambiguous ids ?x"; cases "ambiguous ids ?y") (simp_all add: identityChoices_def impersonates_def)
    qed
    then consider "ambiguous ids ?x" "ambiguous ids ?y" | "\<not> ambiguous ids ?x" "\<not> ambiguous ids ?y" by blast
    then show False
    proof cases
      case 1
      with eq that have "identityLine ?x (shortKID (idKID ?x)) = identityLine ?y (shortKID (idKID ?y))"
        by (simp add: identityChoices_def)
      then have "take 8 (idKID ?x) = take 8 (idKID ?y)" using identifier_lines assms(1) set by blast
      with assms(2) that show False by (simp add: distinct_conv_nth)
    next
      case 2
      with eq that have "identityLine ?y [] = identityLine ?x []" by (simp add: identityChoices_def)
      with two_of_filter [OF that, of "\<lambda>k. identityLine k [] = identityLine ?x []"] 2(1) show False
        by (simp add: ambiguous_def)
    qed
  qed
  have "askProfile ids (Some (identityChoices ids ! i)) = Inr (idKID (ids ! i))" if i: "i < length ids" for i
  proof -
    obtain j where j: "j \<le> i" "identityChoices ids ! j = identityChoices ids ! i"
      "find (\<lambda>(x, s). s = identityChoices ids ! i) (zip ids (identityChoices ids)) = Some (ids ! j, identityChoices ids ! j)"
      using find_zip_first [OF i, of "identityChoices ids"] by auto
    then have "j = i" using ne i by (metis le_less_trans)
    moreover have "idKID (ids ! i) \<noteq> []" using assms(1) i nth_mem by fastforce
    moreover have "identityChoices ids ! i \<noteq> []" using i by (simp add: identityChoices_def)
    ultimately show ?thesis using j(3) by (simp add: askProfile_def kidFor_def)
  qed
  moreover have "distinct (identityChoices ids)" using ne by (simp add: distinct_conv_nth)
  ultimately show ?thesis by (simp add: askProfile_def)
qed

definition twins :: "Identity list" where
  "twins = map (\<lambda>n. \<lparr>idKID = ''0123456789abcdef0123456789abcde'' @ Itoa n, idLabel = ''wg-hem identity'', idAddrs = [], idCreated = n\<rparr>) [0, 1]"

text \<open>Two identities as \<open>provision\<close> names them, at the same address, and a third with a name of its own.\<close>

definition namesakes :: "Identity list" where
  "namesakes = [
     \<lparr>idKID = ''aaaa1111bbbb2222aaaa1111bbbb2222'', idLabel = ''wg-hem identity'', idAddrs = [], idCreated = 1\<rparr>,
     \<lparr>idKID = ''cccc3333dddd4444cccc3333dddd4444'', idLabel = ''wg-hem identity'', idAddrs = [], idCreated = 2\<rparr>,
     \<lparr>idKID = ''eeee5555ffff6666eeee5555ffff6666'', idLabel = ''head office'', idAddrs = [], idCreated = 3\<rparr>]"

lemma namesakes_line:
  "identityLine (namesakes ! 0) [] = ''wg-hem identity  -  unreadable record''"
  "identityLine (namesakes ! 1) [] = ''wg-hem identity  -  unreadable record''"
  "identityLine (namesakes ! 2) [] = ''head office  -  unreadable record''"
  by (simp_all add: namesakes_def identityLine_def addrSummary_def TrimSpace_def is_space_def truncate_short labelRunes_def)

lemma namesakes_ambiguous:
  "ambiguous namesakes (namesakes ! 0)" "ambiguous namesakes (namesakes ! 1)" "\<not> ambiguous namesakes (namesakes ! 2)"
proof -
  have n: "namesakes = [namesakes ! 0, namesakes ! 1, namesakes ! 2]" by (simp add: namesakes_def)
  show "ambiguous namesakes (namesakes ! 0)" "ambiguous namesakes (namesakes ! 1)" "\<not> ambiguous namesakes (namesakes ! 2)"
    unfolding ambiguous_def by (subst n, simp add: namesakes_line del: One_nat_def)+
qed

lemma namesakes_lines:
  "identityChoices namesakes = [''aaaa1111...  -  unreadable record'', ''cccc3333...  -  unreadable record'',
     ''head office  -  unreadable record'']"
proof -
  have n: "namesakes = [namesakes ! 0, namesakes ! 1, namesakes ! 2]" by (simp add: namesakes_def)
  have "identityChoices namesakes =
      [identityLine (namesakes ! 0) (shortKID (idKID (namesakes ! 0))), identityLine (namesakes ! 1) (shortKID (idKID (namesakes ! 1))),
       identityLine (namesakes ! 2) []]"
    unfolding identityChoices_def by (subst n) (simp add: namesakes_ambiguous del: One_nat_def)
  then show ?thesis unfolding namesakes_line by (simp add: namesakes_def identityLine_def shortKID_def addrSummary_def)
qed

theorem profile_is_chosen_by_its_line_witness:
  "distinct (identityChoices namesakes) \<and>
   askProfile namesakes (Some ''cccc3333...  -  unreadable record'') = Inr ''cccc3333dddd4444cccc3333dddd4444''"
proof -
  have a: "\<forall>x \<in> set namesakes. length (idKID x) = 32" "distinct (map (\<lambda>x. take 8 (idKID x)) namesakes)"
    by (simp_all add: namesakes_def)
  have n: "namesakes = [namesakes ! 0, namesakes ! 1, namesakes ! 2]" by (simp add: namesakes_def)
  have k: "identityLine (namesakes ! 0) (shortKID (idKID (namesakes ! 0))) = ''aaaa1111...  -  unreadable record''"
    "identityLine (namesakes ! 1) (shortKID (idKID (namesakes ! 1))) = ''cccc3333...  -  unreadable record''"
    by (simp_all add: namesakes_def identityLine_def shortKID_def addrSummary_def)
  have "\<not> impersonates namesakes x y" if "x \<in> set namesakes" "y \<in> set namesakes" for x y
  proof
    assume i: "impersonates namesakes x y"
    have "set namesakes = {namesakes ! 0, namesakes ! 1, namesakes ! 2}" by (subst n) simp
    with that have "x = namesakes ! 0 \<or> x = namesakes ! 1 \<or> x = namesakes ! 2" "y = namesakes ! 0 \<or> y = namesakes ! 1 \<or> y = namesakes ! 2"
      by blast+
    with i namesakes_ambiguous have "x = namesakes ! 2" "y = namesakes ! 0 \<or> y = namesakes ! 1"
      by (auto simp: impersonates_def)
    with i k namesakes_line show False by (auto simp: impersonates_def)
  qed
  then have "\<forall>x \<in> set namesakes. \<forall>y \<in> set namesakes. \<not> impersonates namesakes x y" by blast
  from profile_is_chosen_by_its_line [OF a this] have
    "distinct (identityChoices namesakes)" "\<forall>i < length namesakes. askProfile namesakes (Some (identityChoices namesakes ! i)) = Inr (idKID (namesakes ! i))"
    by blast+
  moreover have "1 < length namesakes" "identityChoices namesakes ! 1 = ''cccc3333...  -  unreadable record''"
    "idKID (namesakes ! 1) = ''cccc3333dddd4444cccc3333dddd4444''" by (simp_all add: namesakes_lines) (simp_all add: namesakes_def)
  ultimately show ?thesis by metis
qed

text \<open>Two identifiers with the same first eight digits are one line, and the second cannot be chosen.\<close>

lemma twins_are_one_line:
  "identityChoices twins ! 0 = identityChoices twins ! 1" "idKID (twins ! 0) \<noteq> idKID (twins ! 1)"
  by (simp_all add: twins_def identityChoices_def ambiguous_def identityLine_def shortKID_def Itoa_def digit_char_def)

subsection \<open>Importing a file\<close>

definition IsSingleIP :: "Prefix \<Rightarrow> bool" where
  "IsSingleIP p \<longleftrightarrow> PrefixIsValid p \<and> pfxBits p = int (BitLen (pfxAddr p))"

definition hostAddr :: "Prefix \<Rightarrow> string" where
  "hostAddr p = (if IsSingleIP p then AddrString (pfxAddr p) else PrefixString p)"

definition routesSentence :: "Prefix list \<Rightarrow> string" where
  "routesSentence allowed =
     (if list_ex (\<lambda>p. pfxBits p = 0) allowed then ''All your traffic goes through the tunnel.''
      else case map PrefixString allowed of
          [] \<Rightarrow> ''No traffic is routed through the tunnel - the file lists no networks.''
        | [a] \<Rightarrow> ''Only '' @ a @ '' goes through the tunnel.''
        | [a, b] \<Rightarrow> ''Only '' @ a @ '' and '' @ b @ '' goes through the tunnel.''
        | a # others \<Rightarrow> ''Only '' @ a @ '' and '' @ Itoa (int (length others)) @ '' more networks go through the tunnel.'')"

definition importSummary :: "Conf \<Rightarrow> string" where
  "importSummary c = Join lf
     ((if cPeerEndpoint c \<noteq> []
       then [''Connects to '' @ (case SplitHostPort (cPeerEndpoint c) of Some (host, _) \<Rightarrow> host | None \<Rightarrow> cPeerEndpoint c) @ ''.'']
       else [''Waits for the server to connect - the file names no address for it.'']) @
      (if cAddresses c \<noteq> [] then [''Your address in the tunnel: '' @ Join '', '' (map hostAddr (cAddresses c)) @ ''.''] else []) @
      [routesSentence (cPeerAllowed c)])"

definition importWarning :: "Conf \<Rightarrow> string" where
  "importWarning c = ''The server has to be given a new key - the next screen shows it.'' @
     (if cHadPrivateKey c
      then lf @ ''The private key in this file is not imported, but it still works: '' @ ''delete the file once the tunnel is up.''
      else [])"

definition peerNameFrom :: "string \<Rightarrow> string" where
  "peerNameFrom file =
     (let name = (case CutLast file (CHR ''.'') of Some (base, _) \<Rightarrow> if base \<noteq> [] then base else file | None \<Rightarrow> file);
          name = TrimSpace (map (\<lambda>c. if c \<in> set '',='' then CHR '' '' else c) name)
      in if name = [] then ''peer'' else name)"

definition validPeerName :: "string \<Rightarrow> error + unit" where
  "validPeerName s =
     (if TrimSpace s = [] then Inl (Msg ''the peer needs a name - it is what the tunnel screen will show'')
      else if ContainsAny (TrimSpace s) '',='' then Inl (Msg ''a name cannot contain a comma or an equals sign'')
      else Inr ())"

lemma set_TrimSpace: "set (TrimSpace s) \<subseteq> set s"
  unfolding TrimSpace_def by (metis set_dropWhileD set_rev subsetI)

lemma TrimSpace_ends: "TrimSpace s \<noteq> [] \<Longrightarrow> \<not> is_space (hd (TrimSpace s)) \<and> \<not> is_space (last (TrimSpace s))"
proof -
  let ?d = "dropWhile is_space s"
  assume "TrimSpace s \<noteq> []"
  then have ne: "dropWhile is_space (rev ?d) \<noteq> []" by (simp add: TrimSpace_def)
  then have l: "\<not> is_space (hd (dropWhile is_space (rev ?d)))" by (rule hd_dropWhile)
  obtain ys where "rev ?d = ys @ dropWhile is_space (rev ?d)" by (metis takeWhile_dropWhile_id)
  then have "?d = TrimSpace s @ rev ys" by (metis TrimSpace_def rev_append rev_rev_ident)
  moreover have "TrimSpace s \<noteq> []" using ne by (simp add: TrimSpace_def)
  ultimately have "hd ?d = hd (TrimSpace s)" "?d \<noteq> []" by (metis hd_append2, metis append_is_Nil_conv)
  then have "\<not> is_space (hd (TrimSpace s))" using hd_dropWhile [of is_space s] by metis
  with l ne show ?thesis by (simp add: TrimSpace_def last_rev)
qed

lemma TrimSpace_idem [simp]: "TrimSpace (TrimSpace s) = TrimSpace s"
  using TrimSpace_ends [of s] TrimSpace_id by blast

text \<open>
  C40: the name suggested for a file is one the window accepts.  Whatever the file is called, it is
  not empty, has no blanks around it and none of the punctuation of a peer specification, so that
  the label it becomes cannot add a field to the peer.
\<close>

theorem suggested_name_is_valid:
  "validPeerName (peerNameFrom file) = Inr () \<and> TrimSpace (peerNameFrom file) = peerNameFrom file \<and>
   CHR '','' \<notin> set (peerNameFrom file)"
proof -
  let ?name = "case CutLast file (CHR ''.'') of Some (base, _) \<Rightarrow> if base \<noteq> [] then base else file | None \<Rightarrow> file"
  let ?m = "map (\<lambda>c. if c \<in> set '',='' then CHR '' '' else c) ?name"
  have m: "c \<notin> set ?m" if "c \<in> set '',=''" for c using that by auto
  show ?thesis
  proof (cases "TrimSpace ?m = []")
    case True
    then have "peerNameFrom file = ''peer''" by (simp only: peerNameFrom_def Let_def if_True simp_thms)
    then show ?thesis by (simp add: validPeerName_def ContainsAny_def TrimSpace_def is_space_def)
  next
    case False
    then have p: "peerNameFrom file = TrimSpace ?m" by (simp only: peerNameFrom_def Let_def if_False simp_thms)
    have c: "c \<notin> set (peerNameFrom file)" if "c \<in> set '',=''" for c using m [OF that] set_TrimSpace [of ?m] p by auto
    have "\<not> ContainsAny (peerNameFrom file) '',=''" unfolding ContainsAny_def using c by blast
    moreover have "TrimSpace (peerNameFrom file) = peerNameFrom file" unfolding p by (rule TrimSpace_idem)
    ultimately show ?thesis using False p c by (simp add: validPeerName_def)
  qed
qed

text \<open>A default route of one family is announced as all the traffic.\<close>

lemma one_family_is_called_all:
  "routesSentence [PrefixFrom (Addr4 0) 0] = ''All your traffic goes through the tunnel.''"
  by (simp add: routesSentence_def PrefixFrom_def)

end
