(* ===== verification/NetSix.thy ===== *)
theory NetSix
  imports Wgconf
begin

text \<open>
  IPv6 text: what \<open>String\<close> of \<open>net/netip\<close> prints, \<open>::\<close> and the mapped form included, \<open>ParseAddr\<close>
  reads back, for every address and every prefix.  With it, whatever a file of
  \<open>internal/wgconf\<close> gave is printed as flags that mean the same.
\<close>

subsection \<open>Groups\<close>

lemma length_hextets [simp]: "length (hextets n) = 8"
  by (simp add: hextets_def)

lemma hextets_less: "g \<in> set (hextets n) \<Longrightarrow> g < 65536"
  by (auto simp: hextets_def)

lemma of_groups_snoc: "of_groups (gs @ [g]) = of_groups gs * 65536 + g"
  by (simp add: of_groups_def)

lemma of_groups_zero: "of_groups (replicate m 0) = 0"
  by (induction m) (simp_all add: of_groups_def)

lemma of_groups_hextets: "n < 2 ^ 128 \<Longrightarrow> of_groups (hextets n) = n"
proof -
  assume n: "n < 2 ^ 128"
  have step: "k \<le> 8 \<Longrightarrow> of_groups (map (\<lambda>i. n div 2 ^ (16 * (7 - i)) mod 65536) [0..<k]) = n div 2 ^ (16 * (8 - k))" for k
  proof (induction k)
    case 0
    then show ?case using n by (simp add: of_groups_def)
  next
    case (Suc k)
    then have "16 * (8 - k) = 16 * (7 - k) + 16" by simp
    then have "n div 2 ^ (16 * (8 - k)) = n div 2 ^ (16 * (7 - k)) div 65536" by (simp only: power_add div_mult2_eq) simp
    with Suc show ?case by (simp add: of_groups_snoc div_mult_mod_eq)
  qed
  from step [of 8] show ?thesis by (simp add: hextets_def)
qed

definition hexes :: "nat \<Rightarrow> nat list" where
  "hexes n = [n div 4096 mod 16, n div 256 mod 16, n div 16 mod 16, n mod 16]"

lemma hex_group_hexes: "hex_group n = (if dropWhile (\<lambda>d. d = 0) (hexes n) = [] then ''0'' else map hex_char (dropWhile (\<lambda>d. d = 0) (hexes n)))"
proof -
  have "map (\<lambda>i. n div 16 ^ (3 - i) mod 16) [0..<4] = hexes n" by (simp add: hexes_def upt_rec)
  then show ?thesis by (simp add: hex_group_def Let_def)
qed

lemma hex_field_map:
  "\<forall>d \<in> set ds. d < 16 \<Longrightarrow> k + length ds \<le> 4 \<Longrightarrow> rest = [] \<or> hex_val (hd rest) = None \<Longrightarrow>
   hex_field n k (map hex_char ds @ rest) = Some (foldl (\<lambda>m d. 16 * m + d) n ds, k + length ds, rest)"
proof (induction ds arbitrary: n k)
  case Nil
  then show ?case by (cases rest) auto
qed simp

lemma hexes_value: "n < 65536 \<Longrightarrow> foldl (\<lambda>m d. 16 * m + d) 0 (hexes n) = n"
proof -
  assume n: "n < 65536"
  have "n div 4096 mod 16 = n div 256 div 16" using n by (simp add: div_mult2_eq [symmetric])
  moreover have "n div 256 = n div 16 div 16" by (simp add: div_mult2_eq [symmetric])
  ultimately show ?thesis by (simp add: hexes_def mult_div_mod_eq)
qed

lemma foldl_leading: "foldl (\<lambda>m d. 16 * m + d) (0::nat) (dropWhile (\<lambda>d. d = 0) ds) = foldl (\<lambda>m d. 16 * m + d) 0 ds"
  by (induction ds) auto

lemma hex_char_0: "hex_char 0 = CHR ''0''"
  by (simp add: hex_char_def char_of_eq_iff)

lemma hexes_less: "d \<in> set (dropWhile (\<lambda>d. d = 0) (hexes n)) \<Longrightarrow> d < 16"
  by (drule set_dropWhileD) (auto simp: hexes_def)

lemma hex_group_field:
  assumes "n < 65536" and "rest = [] \<or> hex_val (hd rest) = None"
  shows "\<exists>k. hex_field 0 0 (hex_group n @ rest) = Some (n, Suc k, rest)"
proof (cases "dropWhile (\<lambda>d. d = 0) (hexes n) = []")
  case True
  with hexes_value [OF assms(1)] foldl_leading [of "hexes n"] have "n = 0" by simp
  then show ?thesis using hex_field_map [of "[0]" 0 rest 0] assms(2) by (simp add: hex_group_hexes hexes_def hex_char_0)
next
  case False
  let ?ds = "dropWhile (\<lambda>d. d = 0) (hexes n)"
  have ds: "\<forall>d \<in> set ?ds. d < 16" using hexes_less by blast
  have "length ?ds \<le> length (hexes n)" by (rule length_dropWhile_le)
  then have "length ?ds \<le> 4" by (simp add: hexes_def)
  with hex_field_map [of ?ds 0 rest 0] ds assms False foldl_leading [of "hexes n"] hexes_value [OF assms(1)]
  show ?thesis by (cases "length ?ds") (auto simp: hex_group_hexes)
qed

lemma hex_group_set: "c \<in> set (hex_group n) \<Longrightarrow> \<exists>d < 16. c = hex_char d"
proof (cases "dropWhile (\<lambda>d. d = 0) (hexes n) = []")
  case True
  then show "c \<in> set (hex_group n) \<Longrightarrow> \<exists>d < 16. c = hex_char d"
    by (intro exI [of _ 0]) (simp add: hex_group_hexes hex_char_0)
next
  case False
  then show "c \<in> set (hex_group n) \<Longrightarrow> \<exists>d < 16. c = hex_char d"
    using hexes_less [of _ n] by (auto simp: hex_group_hexes simp del: dropWhile_eq_Nil_conv)
qed

lemma hex_group_nonempty [simp]: "hex_group n \<noteq> []"
  by (simp add: hex_group_hexes)

lemma hex_char_special: "d < 16 \<Longrightarrow> hex_char d \<notin> {CHR '':'', CHR ''.'', CHR ''%'', CHR ''/'', CHR '','', CHR ''-''}"
  by (auto simp: hex_char_def char_of_eq_iff take_bit_nat_eq_self)

lemma hex_group_plain [simp]:
  "CHR '':'' \<notin> set (hex_group n)" "CHR ''.'' \<notin> set (hex_group n)" "CHR ''%'' \<notin> set (hex_group n)"
  "CHR ''/'' \<notin> set (hex_group n)" "CHR '','' \<notin> set (hex_group n)"
  by (metis hex_char_special hex_group_set insertCI)+

lemma separator_val [simp]: "hex_val (CHR '':'') = None" "hex_val (CHR ''.'') = None"
  by (simp_all add: hex_val_def less_eq_char_def)

subsection \<open>The groups of an address\<close>

definition groupText :: "nat list \<Rightarrow> string" where
  "groupText gs = Join '':'' (map hex_group gs)"

lemma groupText_Cons: "groupText (g # gs) = hex_group g @ (if gs = [] then [] else CHR '':'' # groupText gs)"
  by (cases gs) (simp_all add: groupText_def)

lemma groupText_start:
  "gs \<noteq> [] \<Longrightarrow> groupText gs \<noteq> [] \<and> hd (groupText gs) \<noteq> CHR '':'' \<and> hd (groupText gs @ t) \<noteq> CHR '':''"
proof (cases gs)
  case (Cons g hs)
  moreover have "hd (hex_group g) \<noteq> CHR '':''" by (metis hd_in_set hex_group_nonempty hex_group_plain(1))
  ultimately show ?thesis by (simp add: groupText_Cons)
qed simp

lemma groups6_text:
  "gs \<noteq> [] \<Longrightarrow> \<forall>g \<in> set gs. g < 65536 \<Longrightarrow> length gs \<le> k \<Longrightarrow> groups6 k ip ell (groupText gs) = Some (ip @ gs, ell, [])"
proof (induction gs arbitrary: k ip)
  case (Cons g gs)
  then obtain k' where k: "k = Suc k'" by (cases k) auto
  let ?rest = "if gs = [] then [] else CHR '':'' # groupText gs"
  have "?rest = [] \<or> hex_val (hd ?rest) = None" by simp
  then obtain j where "hex_field 0 0 (hex_group g @ ?rest) = Some (g, Suc j, ?rest)"
    using hex_group_field [of g ?rest] Cons.prems(2) by (metis list.set_intros(1))
  moreover have "gs \<noteq> [] \<Longrightarrow> groups6 k' (ip @ [g]) ell (groupText gs) = Some ((ip @ [g]) @ gs, ell, [])"
    using Cons.prems k by (intro Cons.IH) auto
  ultimately show ?case using groupText_start [of gs "[]"] by (auto simp: k groupText_Cons Let_def)
qed simp

lemma groups6_ellipsis:
  "gs \<noteq> [] \<Longrightarrow> \<forall>g \<in> set gs. g < 65536 \<Longrightarrow> length gs \<le> k \<Longrightarrow>
   groups6 k ip None (groupText gs @ '':'' @ '':'' @ rest) =
     (if rest = [] then Some (ip @ gs, Some (length ip + length gs), [])
      else groups6 (k - length gs) (ip @ gs) (Some (length ip + length gs)) rest)"
proof (induction gs arbitrary: k ip)
  case (Cons g gs)
  then obtain k' where k: "k = Suc k'" by (cases k) auto
  let ?rest = "(if gs = [] then [] else CHR '':'' # groupText gs) @ '':'' @ '':'' @ rest"
  have "?rest = [] \<or> hex_val (hd ?rest) = None" by simp
  then obtain j where "hex_field 0 0 (hex_group g @ ?rest) = Some (g, Suc j, ?rest)"
    using hex_group_field [of g ?rest] Cons.prems(2) by (metis list.set_intros(1))
  moreover have "gs \<noteq> [] \<Longrightarrow> groups6 k' (ip @ [g]) None (groupText gs @ '':'' @ '':'' @ rest) =
     (if rest = [] then Some ((ip @ [g]) @ gs, Some (length (ip @ [g]) + length gs), [])
      else groups6 (k' - length gs) ((ip @ [g]) @ gs) (Some (length (ip @ [g]) + length gs)) rest)"
    using Cons.prems k by (intro Cons.IH) auto
  ultimately show ?case using groupText_start [of gs "'':'' @ '':'' @ rest"] by (auto simp: k groupText_Cons Let_def)
qed simp

subsection \<open>The run of zeros\<close>

definition zeroRun :: "nat list \<Rightarrow> nat \<times> nat \<Rightarrow> bool" where
  "zeroRun gs r \<longleftrightarrow> snd r = 0 \<or> snd r \<ge> 2 \<and> fst r + snd r \<le> length gs \<and> take (snd r) (drop (fst r) gs) = replicate (snd r) 0"

lemma zero_run_zero:
  assumes "i < length gs" and "zero_run gs i \<ge> 2"
  shows "zeroRun gs (i, zero_run gs i)"
proof -
  have "takeWhile (\<lambda>g. g = 0) (drop i gs) = replicate (zero_run gs i) 0"
    by (rule replicate_eqI) (auto simp: zero_run_def dest: set_takeWhileD)
  moreover have "take (zero_run gs i) (drop i gs) = takeWhile (\<lambda>g. g = 0) (drop i gs)"
    unfolding zero_run_def by (rule takeWhile_eq_take [symmetric])
  moreover have "zero_run gs i \<le> length gs - i" unfolding zero_run_def by (metis length_drop length_takeWhile_le)
  ultimately show ?thesis using assms by (simp add: zeroRun_def)
qed

lemma best_run_zero: "zeroRun gs (best_run gs)"
proof -
  have "zeroRun gs (fold (\<lambda>i (s, n). if zero_run gs i \<ge> 2 \<and> zero_run gs i > n then (i, zero_run gs i) else (s, n)) is r)"
    if "zeroRun gs r" "\<forall>i \<in> set is. i < length gs" for "is" r
    using that
  proof (induction "is" arbitrary: r)
    case (Cons i js)
    obtain s n where r: "r = (s, n)" by (cases r)
    have "zeroRun gs (if zero_run gs i \<ge> 2 \<and> zero_run gs i > n then (i, zero_run gs i) else (s, n))"
      using Cons.prems r zero_run_zero [of i gs] by simp
    with Cons.IH Cons.prems(2) show ?case by (simp add: r)
  qed simp
  from this [of "(0, 0)" "[0..<length gs]"] show ?thesis by (simp add: best_run_def zeroRun_def)
qed

subsection \<open>Reading an address back\<close>

lemma groupText_set: "c \<in> set (groupText gs) \<Longrightarrow> c = CHR '':'' \<or> (\<exists>g. c \<in> set (hex_group g))"
  by (induction gs) (auto simp: groupText_Cons groupText_def [of "[]"] split: if_splits)

lemma String6_set: "c \<in> set (String6 n) \<Longrightarrow> c = CHR '':'' \<or> (\<exists>g. c \<in> set (hex_group g))"
  by (auto simp: String6_def Let_def groupText_def [symmetric] dest: groupText_set split: prod.splits if_splits)

lemma String6_plain [simp]: "CHR ''.'' \<notin> set (String6 n)" "CHR ''%'' \<notin> set (String6 n)"
    "CHR ''/'' \<notin> set (String6 n)" "CHR '','' \<notin> set (String6 n)"
  by (auto dest: String6_set)

lemma HasPrefix_ellipsis: "s \<noteq> [] \<Longrightarrow> hd s \<noteq> CHR '':'' \<Longrightarrow> \<not> HasPrefix s ''::''"
  by (cases s) (auto simp: HasPrefix_def)

lemma HasPrefix_ellipsis2 [simp]: "HasPrefix (CHR '':'' # CHR '':'' # s) ''::''"
  by (simp add: HasPrefix_def)

definition bodyValue :: "string \<Rightarrow> nat option" where
  "bodyValue body =
     (let lead = HasPrefix body ''::''; body' = (if lead then drop 2 body else body) in
      if lead \<and> body' = [] then Some 0
      else case groups6 8 [] (if lead then Some 0 else None) body' of
          Some (ip, ell, []) \<Rightarrow>
            (if length ip < 8 then map_option (\<lambda>e. of_groups (take e ip @ replicate (8 - length ip) 0 @ drop e ip)) ell
             else if ell \<noteq> None then None else Some (of_groups ip))
        | _ \<Rightarrow> None)"

lemma parse6_body:
  assumes "CHR ''%'' \<notin> set body" and "bodyValue body = Some n"
  shows "parse6 (body @ zoneSuffix z) = Some (Addr6 (word_of_nat n) z)"
proof -
  have t: "takeWhile (\<lambda>c. c \<noteq> CHR ''%'') (body @ zoneSuffix z) = body"
      "dropWhile (\<lambda>c. c \<noteq> CHR ''%'') (body @ zoneSuffix z) = zoneSuffix z"
    using assms(1) by (auto simp: zoneSuffix_def takeWhile_append dropWhile_append)
  have z: "tl (zoneSuffix z) = z" "(zoneSuffix z \<noteq> [] \<and> z = []) = False" by (simp_all add: zoneSuffix_def)
  from assms(2) show ?thesis
    unfolding parse6_def t z Let_def by (auto simp: bodyValue_def Let_def split: if_splits option.splits prod.splits list.splits)
qed

lemma bodyValue_String6:
  assumes "n < 2 ^ 128"
  shows "bodyValue (String6 n) = Some n"
proof -
  define gs where "gs = hextets n"
  obtain s k where r: "best_run gs = (s, k)" by (cases "best_run gs")
  have zr: "zeroRun gs (s, k)" using best_run_zero [of gs] r by simp
  have gs: "length gs = 8" "\<forall>g \<in> set gs. g < 65536" "of_groups gs = n"
    using of_groups_hextets [OF assms] hextets_less by (simp_all add: gs_def)
  then have ne: "gs \<noteq> []" by auto
  show ?thesis
  proof (cases "k = 0")
    case True
    then have "String6 n = groupText gs" by (simp add: String6_def r flip: gs_def groupText_def)
    with groups6_text [OF ne gs(2), of 8 "[]" None] groupText_start [OF ne, of "[]"] gs show ?thesis
      by (simp add: bodyValue_def HasPrefix_ellipsis)
  next
    case False
    with zr gs(1) have k: "k \<ge> 2" "s + k \<le> 8" "take k (drop s gs) = replicate k 0" by (auto simp: zeroRun_def)
    define a b where "a = take s gs" and "b = drop (s + k) gs"
    have ab: "gs = a @ replicate k 0 @ b" "length a = s" "length b = 8 - (s + k)"
      using k gs(1) by (simp_all add: a_def b_def flip: k(3) drop_drop)
        (metis add.commute append_take_drop_id drop_drop)
    have small: "\<forall>g \<in> set a. g < 65536" "\<forall>g \<in> set b. g < 65536" using gs(2) ab(1) by auto
    have str: "String6 n = groupText a @ '':'' @ '':'' @ groupText b"
      using False by (simp add: String6_def r a_def b_def flip: gs_def groupText_def)
    have nil: "groupText [] = []" by (simp add: groupText_def)
    have rest: "groups6 (8 - s) a (Some s) (groupText b) = Some (a @ b, Some s, [])" if "b \<noteq> []"
      using groups6_text [OF that small(2), of "8 - s" a "Some s"] ab by simp
    have g: "groups6 8 [] (if a = [] then Some 0 else None) (if a = [] then groupText b else String6 n) =
        Some (a @ b, Some s, [])" if "\<not> (a = [] \<and> b = [])"
    proof (cases "a = []")
      case True
      with that rest ab show ?thesis by simp
    next
      case False
      then have "groups6 8 [] None (groupText a @ '':'' @ '':'' @ groupText b) = Some (a @ b, Some s, [])"
        using groups6_ellipsis [OF False small(1), of 8 "[]" "groupText b"] rest ab k(2) groupText_start [of b "[]"]
        by (cases "b = []") (simp_all add: nil)
      with False show ?thesis by (simp add: str)
    qed
    have len: "length (a @ b) = 8 - k" "length (a @ b) < 8" using ab k by auto
    have val: "of_groups (take s (a @ b) @ replicate (8 - length (a @ b)) 0 @ drop s (a @ b)) = n"
      using ab k gs(3) by simp
    show ?thesis
    proof (cases "a = [] \<and> b = []")
      case True
      with ab k have "k = 8" by simp
      with True gs(3) ab have "n = of_groups (replicate 8 0)" by simp
      then have n: "n = 0" by (simp add: of_groups_zero)
      from True have "String6 n = '':'' @ '':''" by (simp add: str nil)
      then show ?thesis by (simp add: n bodyValue_def HasPrefix_def)
    next
      case nab: False
      have lead: "HasPrefix (String6 n) ''::'' \<longleftrightarrow> a = []"
        using groupText_start [of a "'':'' @ '':'' @ groupText b"]
          HasPrefix_ellipsis [of "groupText a @ '':'' @ '':'' @ groupText b"] by (cases "a = []") (auto simp: str nil)
      have body: "(if a = [] then drop 2 (String6 n) else String6 n) = (if a = [] then groupText b else String6 n)"
        by (simp add: str nil)
      have "\<not> (a = [] \<and> groupText b = [])" using nab groupText_start [of b "[]"] by auto
      with g [OF nab] len val show ?thesis unfolding bodyValue_def lead Let_def body by simp
    qed
  qed
qed

lemma ParseAddr_colon:
  assumes "CHR '':'' \<in> set t" and "CHR ''.'' \<notin> set t" "CHR ''%'' \<notin> set t"
  shows "ParseAddr (t @ u) = parse6 (t @ u)"
proof -
  from assms(1) obtain a b where t: "t = a @ CHR '':'' # b" "CHR '':'' \<notin> set a" by (meson split_list_first)
  then have "dropWhile (\<lambda>c. c \<notin> {CHR ''.'', CHR '':'', CHR ''%''}) (t @ u) = CHR '':'' # b @ u"
    using assms(2,3) by (auto simp: dropWhile_append)
  then show ?thesis by (simp add: ParseAddr_def)
qed

lemma String6_colon: "CHR '':'' \<in> set (String6 n)"
proof -
  have "length (hextets n) = Suc (Suc 6)" by simp
  then obtain g h gs where g: "hextets n = g # h # gs" by (metis length_Suc_conv)
  have "CHR '':'' \<in> set (groupText (g # h # gs))" by (simp add: groupText_Cons)
  then show ?thesis unfolding String6_def Let_def g groupText_def [symmetric]
    by (cases "best_run (g # h # gs)") simp
qed

lemma digit_char_hex: "d < 10 \<Longrightarrow> digit_char d = hex_char d"
  by (simp add: digit_char_def hex_char_def)

lemma FormatUint_hexes: "\<exists>ds. FormatUint n = map hex_char ds \<and> (\<forall>d \<in> set ds. d < 16)"
proof -
  have "\<forall>c \<in> set s. \<exists>d < 10. c = digit_char d \<Longrightarrow> \<exists>ds. s = map hex_char ds \<and> (\<forall>d \<in> set ds. d < 16)" for s
  proof (induction s)
    case (Cons c s)
    then obtain ds d where "s = map hex_char ds" "\<forall>d \<in> set ds. d < 16" "d < 10" "c = hex_char d"
      using digit_char_hex by auto
    then show ?case by (intro exI [of _ "d # ds"]) auto
  qed simp
  then show ?thesis using FormatUint_digits by blast
qed

lemma length_octet: "n \<le> 255 \<Longrightarrow> length (FormatUint n) \<le> 3"
  by (subst FormatUint.simps, simp, subst FormatUint.simps, simp, subst FormatUint.simps, simp)

lemma groups6_String4:
  assumes "v < 2 ^ 32"
  shows "groups6 7 [g] (Some 0) (String4 v) = Some ([g, v div 65536, v mod 65536], Some 0, [])"
proof -
  obtain b where s: "String4 v = FormatUint (v div 16777216 mod 256) @ CHR ''.'' # b" by (simp add: String4_def octets_def)
  obtain ds where ds: "FormatUint (v div 16777216 mod 256) = map hex_char ds" "\<forall>d \<in> set ds. d < 16"
    using FormatUint_hexes by blast
  have "length ds \<le> 3" using length_octet [of "v div 16777216 mod 256"] ds(1) by simp
  moreover have "ds \<noteq> []" using ds(1) FormatUint_nonempty by (metis list.map_disc_iff)
  ultimately have f: "\<exists>m j. hex_field 0 0 (String4 v) = Some (m, Suc j, CHR ''.'' # b)"
    using hex_field_map [of ds 0 "CHR ''.'' # b" 0] ds by (cases "length ds") (auto simp: s)
  have p: "parse4 (String4 v) = Some v" by (rule parse4_String4 [OF assms])
  from f p have "groups6 (Suc 6) [g] (Some 0) (String4 v) = Some ([g, v div 65536, v mod 65536], Some 0, [])"
    by (simp only: groups6.simps) auto
  then show ?thesis by simp
qed

lemma five_zeros: "replicate 5 (0::nat) = [0, 0, 0, 0, 0]"
  by (simp add: eval_nat_numeral)

lemma bodyValue_mapped:
  assumes "v < 2 ^ 32"
  shows "bodyValue (''::ffff:'' @ String4 v) = Some (0xffff * 2 ^ 32 + v)"
proof -
  have ne: "String4 v \<noteq> []" "hd (String4 v) \<noteq> CHR '':''"
  proof -
    obtain b where s: "String4 v = FormatUint (v div 16777216 mod 256) @ CHR ''.'' # b" by (simp add: String4_def octets_def)
    have "hd (FormatUint (v div 16777216 mod 256)) \<in> set (FormatUint (v div 16777216 mod 256))" by simp
    then have "hd (FormatUint (v div 16777216 mod 256)) \<noteq> CHR '':''" by (metis FormatUint_notin(3))
    then show "String4 v \<noteq> []" "hd (String4 v) \<noteq> CHR '':''" by (simp_all add: s)
  qed
  have f: "hex_field 0 0 (''ffff:'' @ String4 v) = Some (0xffff, 4, CHR '':'' # String4 v)"
    using hex_field_map [where ds = "[15, 15, 15, 15]" and k = 0 and rest = "CHR '':'' # String4 v" and n = 0] by (simp add: hex_char_def char_of_eq_iff hex_val_def less_eq_char_def)
  have "groups6 (Suc 7) [] (Some 0) (''ffff:'' @ String4 v) = Some ([0xffff, v div 65536, v mod 65536], Some 0, [])"
    using ne groups6_String4 [OF assms, where g = "0xffff"] by (simp only: groups6.simps f) simp
  then have "groups6 8 [] (Some 0) (''ffff:'' @ String4 v) = Some ([0xffff, v div 65536, v mod 65536], Some 0, [])"
    by (simp del: groups6.simps append.simps)
  moreover have "of_groups ([0, 0, 0, 0, 0] @ [0xffff, v div 65536, v mod 65536]) = 0xffff * 2 ^ 32 + v"
    by (simp add: of_groups_def)
  ultimately show ?thesis by (simp add: bodyValue_def Let_def five_zeros del: groups6.simps)
qed

theorem ParseAddr_String: "AddrIsValid a \<Longrightarrow> ParseAddr (AddrString a) = Some a"
proof (cases a)
  case (Addr6 w z)
  have w: "unat w < 2 ^ 128" using unsigned_less [of w, where 'a = nat] by simp
  show ?thesis
  proof (cases "Is4In6 a")
    case True
    then have "drop_bit 32 (unat w) = 0xffff" by (simp add: Addr6 Is4In6_def)
    then have v: "unat w = 0xffff * 2 ^ 32 + unat w mod 2 ^ 32"
      by (metis drop_bit_eq_div div_mult_mod_eq)
    let ?t = "''::ffff:'' @ String4 (unat w mod 2 ^ 32)"
    have p: "CHR ''%'' \<notin> set ?t" by (auto simp: String4_def octets_def)
    have "parse6 (?t @ zoneSuffix z) = Some (Addr6 (word_of_nat (unat w)) z)"
      by (rule parse6_body [OF p]) (subst v, rule bodyValue_mapped, simp)
    moreover have "ParseAddr (?t @ zoneSuffix z) = parse6 (?t @ zoneSuffix z)" by (simp add: ParseAddr_def)
    ultimately show ?thesis using True by (simp add: Addr6 AddrString_def)
  next
    case False
    have "parse6 (String6 (unat w) @ zoneSuffix z) = Some (Addr6 (word_of_nat (unat w)) z)"
      by (rule parse6_body [OF _ bodyValue_String6 [OF w]]) simp
    with False show ?thesis by (simp add: Addr6 AddrString_def ParseAddr_colon String6_colon)
  qed
qed simp_all

lemma AddrString_plain: "Zone a = [] \<Longrightarrow> CHR ''/'' \<notin> set (AddrString a) \<and> CHR '','' \<notin> set (AddrString a)"
  by (cases a) (auto simp: AddrString_def zoneSuffix_def String4_def octets_def)

definition plainPrefix :: "Prefix \<Rightarrow> bool" where
  "plainPrefix p \<longleftrightarrow> wf_Prefix p \<and> PrefixIsValid p \<and> Zone (pfxAddr p) = []"

lemma Zone_WithoutZone [simp]: "Zone (WithoutZone a) = []"
  by (cases a) auto

lemma ParsePrefix_plain: "ParsePrefix s = Some p \<Longrightarrow> plainPrefix p"
proof -
  assume p: "ParsePrefix s = Some p"
  then obtain a n where "p = PrefixFrom a n" by (auto simp: ParsePrefix_def split: option.splits if_splits)
  moreover have "Zone (pfxAddr (PrefixFrom a n)) = []" by (simp add: PrefixFrom_def)
  ultimately show ?thesis using ParsePrefix_valid [OF p] wf_PrefixFrom by (simp add: plainPrefix_def)
qed

theorem ParsePrefix_String:
  assumes "plainPrefix p"
  shows "ParsePrefix (PrefixString p) = Some p"
proof -
  have v: "PrefixIsValid p" "Zone (pfxAddr p) = []" "wf_Prefix p" using assms by (simp_all add: plainPrefix_def)
  then have a: "AddrIsValid (pfxAddr p)" "0 \<le> pfxBits p" "pfxBits p \<le> int (BitLen (pfxAddr p))"
      "WithoutZone (pfxAddr p) = pfxAddr p"
    by (auto simp: PrefixIsValid_def wf_Prefix_def)
  have b: "BitLen (pfxAddr p) \<le> 128" by (cases "pfxAddr p") auto
  obtain n where n0: "pfxBits p = int n" using a(2) by (rule nonneg_int_cases)
  then have n: "pfxBits p = int n" "n \<le> BitLen (pfxAddr p)" "n \<le> 128" using a(3) b by auto
  have "CutLast (AddrString (pfxAddr p) @ CHR ''/'' # FormatUint n) (CHR ''/'') = Some (AddrString (pfxAddr p), FormatUint n)"
    by (rule CutLast_append) simp
  moreover have "PrefixString p = AddrString (pfxAddr p) @ CHR ''/'' # FormatUint n"
    using v n by (simp add: PrefixString_def Itoa_def)
  moreover have "Atoi (FormatUint n) = Some (int n)" using n by (intro Atoi_FormatUint) simp
  moreover have "PrefixFrom (pfxAddr p) (int n) = p"
    using a n by (cases p) (simp add: PrefixFrom_def)
  ultimately show ?thesis
    using v n prefix_bits_text [of n] by (auto simp: ParsePrefix_def ParseAddr_String [OF a(1)])
qed

subsection \<open>What a file gave\<close>

definition plainConf :: "Conf \<Rightarrow> bool" where
  "plainConf c \<longleftrightarrow> (\<forall>p \<in> set (cAddresses c) \<union> set (cPeerAllowed c). plainPrefix p) \<and> (\<forall>d \<in> set (cDNS c). AddrIsValid d) \<and>
     (\<forall>n \<in> {cMTU c, cListenPort c, cPeerKeepalive c}. - (2 ^ 63) \<le> n \<and> n < 2 ^ 63)"

lemma Atoi_range: "Atoi s = Some n \<Longrightarrow> - (2 ^ 63) \<le> n \<and> n < 2 ^ 63"
  by (auto simp: Atoi_def Let_def split: option.splits if_splits)

lemma setInterface_plain: "setInterface k v c = Inr c' \<Longrightarrow> plainConf c \<Longrightarrow> plainConf c'"
  using parseAll_valid [of ParsePrefix "''Address %q: %w''" "splitList v" _ plainPrefix]
    parseAll_valid [of ParseAddr "''DNS %q is not an address; search domains are not supported''" "splitList v" _ AddrIsValid]
    ParsePrefix_plain ParseAddr_valid Atoi_range
  unfolding setInterface_def by (auto simp: plainConf_def result_inv split: if_splits option.splits)

lemma setPeer_plain: "setPeer k v c = Inr c' \<Longrightarrow> plainConf c \<Longrightarrow> plainConf c'"
  using parseAll_valid [of ParsePrefix "''AllowedIPs %q: %w''" "splitList v" _ plainPrefix] ParsePrefix_plain Atoi_range
  unfolding setPeer_def by (auto simp: plainConf_def result_inv split: if_splits option.splits)

lemma Conf_set_plain: "Conf_set sec k v c = Inr c' \<Longrightarrow> plainConf c \<Longrightarrow> plainConf c'"
  by (auto simp: Conf_set_def dest: setInterface_plain setPeer_plain split: if_splits)

lemma parseLines_plain: "parseLines ls sec n c = Inr (c', n') \<Longrightarrow> plainConf c \<Longrightarrow> plainConf c'"
proof (induction ls arbitrary: sec n c)
  case (Cons line lines)
  from Cons.prems(1) consider sec' m where "parseLines lines sec' m c = Inr (c', n')"
    | k v c1 where "Conf_set sec k v c = Inr c1" "parseLines lines sec n c1 = Inr (c', n')"
    by (auto simp: Let_def result_inv split: if_splits option.splits)
  then show ?case using Cons.IH Cons.prems(2) Conf_set_plain by cases blast+
qed simp

lemma Parse_plain: "Parse lines = Inr c \<Longrightarrow> plainConf c"
proof -
  have "plainConf emptyConf" by (simp add: plainConf_def emptyConf_def)
  then show "Parse lines = Inr c \<Longrightarrow> plainConf c"
    by (auto simp: Parse_def result_inv dest: parseLines_plain split: if_splits)
qed

end
