(* ===== verification/SpecText.thy ===== *)
theory SpecText
  imports PeerSpecs NetSix
begin

text \<open>
  \<open>ParsePeerSpec\<close> on a text that is put together from fields, as \<open>FromConf\<close> and the \<open>import\<close>
  command put it together: what a comma inside one of the fields does.
\<close>

subsection \<open>Fields in sequence\<close>

lemma Split_append_any: "Split c (s @ c # t) = Split c s @ Split c t"
proof (induction s)
  case (Cons x s)
  obtain y ys where "Split c s = y # ys" by (metis Split_nonempty list.exhaust)
  with Cons show ?case by simp
qed simp

lemma Split_Join_any: "xs \<noteq> [] \<Longrightarrow> Split c (Join [c] xs) = concat (map (Split c) xs)"
  by (induction xs rule: induct_list012) (simp_all add: Split_append_any)

lemma specFields_append:
  "specFields sz (fs @ gs) st = bindE (specFields sz fs st) (\<lambda>st. specFields sz gs st)"
proof (induction fs arbitrary: st)
  case (Cons f fs)
  show ?case by (auto simp: Let_def Cons result_inv bindE_def split: option.splits sum.splits)
qed (simp add: bindE_def)

text \<open>The routes are collected in order, and nothing else depends on them.\<close>

lemma specField_frame:
  assumes "specField sz k v (p, seen) = Inr (p', seen')"
  shows "\<exists>bs. psAllowedIPs p' = psAllowedIPs p @ bs \<and>
    (\<forall>as. specField sz k v (p\<lparr>psAllowedIPs := as\<rparr>, seen) = Inr (p'\<lparr>psAllowedIPs := as @ bs\<rparr>, seen'))"
proof -
  consider "k = ''pubkey''" | "k = ''label''" | "k = ''endpoint''" | "k = ''allowed-ips'' \<or> k = ''allowed-ip''"
    | "k = ''keepalive''"
    using assms unfolding specField_def by (auto split: if_splits)
  then show ?thesis
  proof cases
    case 1
    with assms show ?thesis
      by (intro exI [of _ "[]"]) (auto simp: specField_def split: option.splits if_splits)
  next
    case 2
    with assms show ?thesis by (intro exI [of _ "[]"]) (auto simp: specField_def)
  next
    case 3
    with assms show ?thesis by (intro exI [of _ "[]"]) (auto simp: specField_def result_inv)
  next
    case 4
    then have "specField sz k v (q, seen) = (case ParsePrefix v of None \<Rightarrow> Inl ''allowed-ips %q: %w''
        | Some prefix \<Rightarrow> Inr (q\<lparr>psAllowedIPs := psAllowedIPs q @ [Masked prefix]\<rparr>, seen))" for q
      by (auto simp: specField_def)
    with assms show ?thesis by (cases "ParsePrefix v") auto
  next
    case 5
    with assms show ?thesis
      by (intro exI [of _ "[]"]) (auto simp: specField_def split: option.splits if_splits)
  qed
qed

lemma specFields_frame:
  "specFields sz fs (p, seen) = Inr (p', seen') \<Longrightarrow> \<exists>bs. psAllowedIPs p' = psAllowedIPs p @ bs \<and>
    (\<forall>as. specFields sz fs (p\<lparr>psAllowedIPs := as\<rparr>, seen) = Inr (p'\<lparr>psAllowedIPs := as @ bs\<rparr>, seen'))"
proof (induction fs arbitrary: p seen)
  case (Cons f fs)
  show ?case
  proof (cases "TrimSpace f = []")
    case True
    with Cons.IH [of p seen] Cons.prems show ?thesis by simp
  next
    case False
    with Cons.prems obtain k v p1 seen1 where f: "Cut (TrimSpace f) (CHR ''='') = Some (k, v)"
      "specField sz (TrimSpace (ToLower k)) (TrimSpace v) (p, seen) = Inr (p1, seen1)"
      "specFields sz fs (p1, seen1) = Inr (p', seen')"
      by (auto simp: Let_def result_inv split: option.splits)
    from specField_frame [OF f(2)] obtain bs where bs: "psAllowedIPs p1 = psAllowedIPs p @ bs"
      "\<And>as. specField sz (TrimSpace (ToLower k)) (TrimSpace v) (p\<lparr>psAllowedIPs := as\<rparr>, seen) = Inr (p1\<lparr>psAllowedIPs := as @ bs\<rparr>, seen1)"
      by blast
    from Cons.IH [OF f(3)] obtain cs where cs: "psAllowedIPs p' = psAllowedIPs p1 @ cs"
      "\<And>as. specFields sz fs (p1\<lparr>psAllowedIPs := as\<rparr>, seen1) = Inr (p'\<lparr>psAllowedIPs := as @ cs\<rparr>, seen')" by blast
    show ?thesis using False f(1) bs cs by (intro exI [of _ "bs @ cs"]) simp
  qed
qed auto

subsection \<open>A printed prefix as a field\<close>

definition routeField :: "Prefix \<Rightarrow> string" where
  "routeField r = ''allowed-ips='' @ PrefixString r"

lemma digit_char_space [simp]: "d < 10 \<Longrightarrow> \<not> is_space (digit_char d)"
  by (auto simp: is_space_def digit_char_def char_of_eq_iff take_bit_nat_eq_self)

lemma hex_char_space: "d < 16 \<Longrightarrow> \<not> is_space (hex_char d)"
  by (auto simp: is_space_def hex_char_def char_of_eq_iff take_bit_nat_eq_self)

lemma FormatUint_space: "c \<in> set (FormatUint n) \<Longrightarrow> \<not> is_space c"
  by (auto dest!: FormatUint_digits)

lemma AddrString_space: "AddrIsValid a \<Longrightarrow> Zone a = [] \<Longrightarrow> c \<in> set (AddrString a) \<Longrightarrow> \<not> is_space c"
proof -
  have dot: "\<not> is_space CHR ''.''" "\<not> is_space CHR '':''" "\<not> is_space CHR ''f''" by (simp_all add: is_space_def)
  have four: "\<not> is_space c" if "c \<in> set (String4 n)" for n
    using that dot by (auto simp: String4_def octets_def dest: FormatUint_space)
  have six: "\<not> is_space c" if "c \<in> set (String6 n)" for n
    using String6_set [OF that] hex_group_set hex_char_space dot by metis
  show "AddrIsValid a \<Longrightarrow> Zone a = [] \<Longrightarrow> c \<in> set (AddrString a) \<Longrightarrow> \<not> is_space c"
    using four six dot by (cases a) (auto simp: AddrString_def zoneSuffix_def split: if_splits)
qed

lemma PrefixString_chars:
  assumes "plainPrefix r"
  shows "CHR '','' \<notin> set (PrefixString r)" and "TrimSpace (PrefixString r) = PrefixString r" and "TrimSpace (routeField r) = routeField r"
proof -
  have v: "PrefixIsValid r" "Zone (pfxAddr r) = []" "AddrIsValid (pfxAddr r)"
    using assms by (auto simp: plainPrefix_def PrefixIsValid_def wf_Prefix_def)
  then obtain n where "pfxBits r = int n" by (auto simp: PrefixIsValid_def elim: nonneg_int_cases)
  then have s: "PrefixString r = AddrString (pfxAddr r) @ ''/'' @ FormatUint n" using v by (simp add: PrefixString_def Itoa_def)
  then show "CHR '','' \<notin> set (PrefixString r)" using AddrString_plain [OF v(2)] by simp
  have "\<not> is_space c" if "c \<in> set (PrefixString r)" for c
    using that AddrString_space [OF v(3,2)] FormatUint_space by (auto simp: s) (simp add: is_space_def)
  moreover have "PrefixString r \<noteq> []" by (simp add: s)
  ultimately have "\<not> is_space (hd (PrefixString r))" "\<not> is_space (last (PrefixString r))" by simp_all
  then show "TrimSpace (PrefixString r) = PrefixString r" "TrimSpace (routeField r) = routeField r"
    using \<open>PrefixString r \<noteq> []\<close> by (auto intro!: TrimSpace_id simp: routeField_def is_space_def)
qed

lemma specFields_route:
  assumes "plainPrefix r"
  shows "specFields sz [routeField r] (p, seen) = Inr (p\<lparr>psAllowedIPs := psAllowedIPs p @ [Masked r]\<rparr>, seen)"
proof -
  have "Cut (routeField r) (CHR ''='') = Some (''allowed-ips'', PrefixString r)"
    using Cut_append [of "CHR ''=''" "''allowed-ips''" "PrefixString r"] by (simp add: routeField_def)
  moreover have "TrimSpace (ToLower ''allowed-ips'') = ''allowed-ips''"
    by (simp add: ToLower_def to_lower_def less_eq_char_def TrimSpace_def is_space_def)
  moreover have "routeField r \<noteq> []" by (simp add: routeField_def)
  ultimately show ?thesis
    by (simp add: PrefixString_chars [OF assms] specField_def ParsePrefix_String [OF assms])
qed

text \<open>A route put between two runs of fields is put between their routes.\<close>

lemma specFields_insert:
  assumes "specFields sz (fs @ gs) (p, seen) = Inr (p', seen')" and "plainPrefix r"
  shows "\<exists>as bs. psAllowedIPs p' = as @ bs \<and>
    specFields sz (fs @ routeField r # gs) (p, seen) = Inr (p'\<lparr>psAllowedIPs := as @ Masked r # bs\<rparr>, seen')"
proof -
  from assms(1) obtain p1 seen1 where fs: "specFields sz fs (p, seen) = Inr (p1, seen1)" "specFields sz gs (p1, seen1) = Inr (p', seen')"
    by (auto simp: specFields_append result_inv)
  from specFields_frame [OF fs(2)] obtain bs where bs: "psAllowedIPs p' = psAllowedIPs p1 @ bs"
    "\<And>as. specFields sz gs (p1\<lparr>psAllowedIPs := as\<rparr>, seen1) = Inr (p'\<lparr>psAllowedIPs := as @ bs\<rparr>, seen')" by blast
  have "specFields sz (fs @ [routeField r] @ gs) (p, seen) = Inr (p'\<lparr>psAllowedIPs := psAllowedIPs p1 @ Masked r # bs\<rparr>, seen')"
    unfolding specFields_append fs(1) using specFields_route [OF assms(2), of sz p1 seen1] bs(2) [of "psAllowedIPs p1 @ [Masked r]"]
    by (simp add: bindE_def del: specFields.simps)
  with bs(1) show ?thesis by auto
qed

subsection \<open>A comma in a field\<close>

lemma TrimSpace_nonempty: "c \<in> set s \<Longrightarrow> \<not> is_space c \<Longrightarrow> TrimSpace s \<noteq> []"
proof
  assume c: "c \<in> set s" "\<not> is_space c" and "TrimSpace s = []"
  then have all: "\<forall>x \<in> set (dropWhile is_space s). is_space x" by (simp add: TrimSpace_def)
  have "dropWhile is_space s \<noteq> []" using c by auto
  from hd_dropWhile [OF this] list.set_sel(1) [OF this] all show False by blast
qed

lemma set_Join: "y \<in> set xs \<Longrightarrow> c \<in> set y \<Longrightarrow> c \<in> set (Join sep xs)"
  by (induction xs rule: induct_list012) auto

text \<open>What a comma and a route behind one of the joined fields make of the peer.\<close>

lemma ParsePeerSpec_comma:
  assumes "ParsePeerSpec sz (Join '','' (A @ x # B)) = Inr q" and "plainPrefix r"
  shows "\<exists>as bs. psAllowedIPs q = as @ bs \<and>
    ParsePeerSpec sz (Join '','' (A @ (x @ '','' @ routeField r) # B)) = Inr (q\<lparr>psAllowedIPs := as @ Masked r # bs\<rparr>)"
proof -
  let ?split = "Split (CHR '','')" and ?new = "Join '','' (A @ (x @ '','' @ routeField r) # B)"
  let ?fs = "concat (map ?split A) @ ?split x" and ?gs = "concat (map ?split B)"
  from ParsePeerSpec_Inr [OF assms(1)] obtain q0 where
    "specFields sz (?split (Join '','' (A @ x # B))) (emptySpec, False) = Inr (q0, True)"
    and ne: "psPubKey q0 \<noteq> []" "psAllowedIPs q0 \<noteq> []"
    and q: "q = (if psLabel q0 = [] then q0\<lparr>psLabel := ''wg peer '' @ take 8 (b64Encode (psPubKey q0))\<rparr> else q0)" by blast
  then have "specFields sz (?fs @ ?gs) (emptySpec, False) = Inr (q0, True)" by (simp add: Split_Join_any)
  from specFields_insert [OF this assms(2)] obtain as bs where ab: "psAllowedIPs q0 = as @ bs"
    "specFields sz (?fs @ routeField r # ?gs) (emptySpec, False) = Inr (q0\<lparr>psAllowedIPs := as @ Masked r # bs\<rparr>, True)" by blast
  have "CHR '','' \<notin> set (routeField r)" using PrefixString_chars [OF assms(2)] by (simp add: routeField_def)
  then have "?split ?new = ?fs @ routeField r # ?gs"
    using Split_append_any [of "CHR '',''" x "routeField r"] by (simp add: Split_Join_any Split_no_sep)
  moreover have "TrimSpace ?new \<noteq> []"
  proof -
    have "CHR ''a'' \<in> set ?new" by (rule set_Join [of "x @ '','' @ routeField r"]) (simp_all add: routeField_def)
    then show ?thesis by (rule TrimSpace_nonempty) (simp add: is_space_def)
  qed
  ultimately have "ParsePeerSpec sz ?new = Inr (q\<lparr>psAllowedIPs := as @ Masked r # bs\<rparr>)"
    using ab(2) ne by (simp add: ParsePeerSpec_def q)
  moreover have "psAllowedIPs q = as @ bs" using ab(1) by (simp add: q)
  ultimately show ?thesis by blast
qed

text \<open>The parameters \<open>FromConf\<close> makes of a file and the peer it read.\<close>

definition fileParams :: "Conf \<Rightarrow> string \<Rightarrow> PeerSpec \<Rightarrow> Params" where
  "fileParams c label peer = \<lparr>pAddrs = cAddresses c, pDNS = cDNS c, pMTU = cMTU c, pListenPort = cListenPort c,
     pLabel = label, pPeers = [peer], pKID = [], pPSK = None, pPSKGenerated = False, pAdopt = False\<rparr>"

definition validated :: "size_tags \<Rightarrow> Params \<Rightarrow> error + Params" where
  "validated sz p = bindE (Validate sz p) (\<lambda>_. Inr p)"

lemma FromConf_eq: "TrimSpace l \<noteq> [] \<Longrightarrow> FromConf sz c l =
    bindE (mapErr (\<lambda>e. Fail KindUsage ''%w'' [Msg e]) (ParsePeerSpec sz (Join '','' (peerFields c l)))) (\<lambda>peer. validated sz (fileParams c l peer))"
  by (simp add: FromConf_def fileParams_def validated_def Let_def)

lemma FromConf_Inr:
  assumes "FromConf sz c l = Inr p"
  shows "TrimSpace l \<noteq> [] \<and> (\<exists>q. ParsePeerSpec sz (Join '','' (peerFields c l)) = Inr q \<and> p = fileParams c l q)"
proof -
  have l: "TrimSpace l \<noteq> []" using assms by (auto simp: FromConf_def split: if_splits)
  with assms show ?thesis by (auto simp: FromConf_eq validated_def result_inv)
qed

definition withRoute :: "string \<Rightarrow> Prefix \<Rightarrow> string" where
  "withRoute s r = s @ '','' @ routeField r"

lemma withRoute_nonempty: "TrimSpace (withRoute s r) \<noteq> []"
  by (rule TrimSpace_nonempty [of "CHR ''a''"]) (simp_all add: withRoute_def routeField_def is_space_def)

text \<open>
  C30: neither a label nor an endpoint is escaped.  \<open>FromConf\<close> joins the fields of the peer with
  commas and reads the result back, so a comma in the name somebody types, or in the endpoint
  a file gives, ends that field and starts another: whatever is imported, with
  \<open>,allowed-ips=\<close> and any prefix behind its name or its endpoint, the same peer is read with
  that route among the ones the file lists, and is refused only if it no longer fits.
\<close>

theorem label_comma_injects_route:
  assumes "FromConf sz c l = Inr p" and "plainPrefix r"
  shows "(\<exists>q as bs. pPeers p = [q] \<and> psAllowedIPs q = as @ bs \<and> FromConf sz c (withRoute l r) =
      validated sz (p\<lparr>pLabel := withRoute l r, pPeers := [q\<lparr>psAllowedIPs := as @ Masked r # bs\<rparr>]\<rparr>)) \<and>
    (cPeerEndpoint c \<noteq> [] \<longrightarrow> (\<exists>q as bs. pPeers p = [q] \<and> psAllowedIPs q = as @ bs \<and>
      FromConf sz (c\<lparr>cPeerEndpoint := withRoute (cPeerEndpoint c) r\<rparr>) l =
        validated sz (p\<lparr>pPeers := [q\<lparr>psAllowedIPs := as @ Masked r # bs\<rparr>]\<rparr>)))"
proof -
  from FromConf_Inr [OF assms(1)] obtain q where l: "TrimSpace l \<noteq> []"
    and q: "ParsePeerSpec sz (Join '','' (peerFields c l)) = Inr q" and p: "p = fileParams c l q" by blast
  let ?rest = "map (\<lambda>p. ''allowed-ips='' @ PrefixString p) (cPeerAllowed c) @
     (if cPeerKeepalive c \<noteq> 0 then [''keepalive='' @ Itoa (cPeerKeepalive c)] else [])"
  let ?ep = "if cPeerEndpoint c \<noteq> [] then [''endpoint='' @ cPeerEndpoint c] else []"
  have f: "peerFields c l = [] @ (''label='' @ l) # (''pubkey='' @ cPeerPubKey c) # ?ep @ ?rest"
    and f': "peerFields c (withRoute l r) = [] @ ((''label='' @ l) @ '','' @ routeField r) # (''pubkey='' @ cPeerPubKey c) # ?ep @ ?rest"
    by (simp_all add: peerFields_def withRoute_def)
  from ParsePeerSpec_comma [OF q [unfolded f] assms(2)] obtain as bs where ab: "psAllowedIPs q = as @ bs"
    "ParsePeerSpec sz (Join '','' (peerFields c (withRoute l r))) = Inr (q\<lparr>psAllowedIPs := as @ Masked r # bs\<rparr>)"
    unfolding f' by blast
  then have 1: "\<exists>q as bs. pPeers p = [q] \<and> psAllowedIPs q = as @ bs \<and> FromConf sz c (withRoute l r) =
      validated sz (p\<lparr>pLabel := withRoute l r, pPeers := [q\<lparr>psAllowedIPs := as @ Masked r # bs\<rparr>]\<rparr>)"
    by (intro exI [of _ q] exI [of _ as] exI [of _ bs]) (simp add: FromConf_eq withRoute_nonempty p fileParams_def)
  have "\<exists>q as bs. pPeers p = [q] \<and> psAllowedIPs q = as @ bs \<and>
      FromConf sz (c\<lparr>cPeerEndpoint := withRoute (cPeerEndpoint c) r\<rparr>) l =
        validated sz (p\<lparr>pPeers := [q\<lparr>psAllowedIPs := as @ Masked r # bs\<rparr>]\<rparr>)" if e: "cPeerEndpoint c \<noteq> []"
  proof -
    have f: "peerFields c l = [''label='' @ l, ''pubkey='' @ cPeerPubKey c] @ (''endpoint='' @ cPeerEndpoint c) # ?rest"
      and f': "peerFields (c\<lparr>cPeerEndpoint := withRoute (cPeerEndpoint c) r\<rparr>) l =
        [''label='' @ l, ''pubkey='' @ cPeerPubKey c] @ ((''endpoint='' @ cPeerEndpoint c) @ '','' @ routeField r) # ?rest"
      using e by (simp_all add: peerFields_def withRoute_def)
    from ParsePeerSpec_comma [OF q [unfolded f] assms(2)] obtain as bs where "psAllowedIPs q = as @ bs"
      "ParsePeerSpec sz (Join '','' (peerFields (c\<lparr>cPeerEndpoint := withRoute (cPeerEndpoint c) r\<rparr>) l)) =
         Inr (q\<lparr>psAllowedIPs := as @ Masked r # bs\<rparr>)"
      unfolding f' by blast
    then show ?thesis
      by (intro exI [of _ q] exI [of _ as] exI [of _ bs]) (simp add: FromConf_eq l p fileParams_def)
  qed
  with 1 show ?thesis by blast
qed

text \<open>A file that routes 10.0.0.0/8, imported under a name that routes everything.\<close>

lemma exampleConf_params: "fileParams exampleConf l q = exampleParams l q"
  by (simp add: fileParams_def exampleParams_def) (simp add: exampleConf_def)

lemma exampleConf_home:
  "FromConf size_default exampleConf ''home'' =
     Inr (exampleParams ''home'' (exampleSpec ''home'' [PrefixFrom (Addr4 0x0A000000) 8]))"
proof -
  have "TrimSpace ''home'' \<noteq> []" by (simp add: TrimSpace_def is_space_def)
  then show ?thesis
    by (simp add: FromConf_eq validated_def exampleSpec_parse [unfolded exampleSpecText_def] exampleConf_params exampleParams_Validate)
qed

theorem label_comma_injects_route_witness:
  "\<exists>as bs. [PrefixFrom (Addr4 0x0A000000) 8] = as @ bs \<and>
     FromConf size_default exampleConf ''home,allowed-ips=0.0.0.0/0'' =
       Inr (exampleParams ''home,allowed-ips=0.0.0.0/0'' (exampleSpec ''home'' (as @ PrefixFrom (Addr4 0) 0 # bs)))"
proof -
  let ?r = "PrefixFrom (Addr4 0) 0" and ?l = "''home,allowed-ips=0.0.0.0/0''"
  have "wf_Prefix ?r" by simp
  then have r: "plainPrefix ?r" "Masked ?r = ?r" by (simp_all add: plainPrefix_def PrefixIsValid_def PrefixFrom_def Masked_def)
  have w: "withRoute ''home'' ?r = ?l" by (simp add: withRoute_def routeField_def spec_eval PrefixFrom_def char_of_eq_iff)
  from conjunct1 [OF label_comma_injects_route [OF exampleConf_home r(1)]] obtain as bs where
    ab: "[PrefixFrom (Addr4 0x0A000000) 8] = as @ bs"
    "FromConf size_default exampleConf ?l = validated size_default (exampleParams ?l (exampleSpec ''home'' (as @ ?r # bs)))"
    unfolding w by (auto simp: exampleParams_def exampleSpec_def r(2))
  have "set (as @ ?r # bs) = insert ?r (set [PrefixFrom (Addr4 0x0A000000) 8])" "length (as @ ?r # bs) = Suc (length [PrefixFrom (Addr4 0x0A000000) 8])"
    unfolding ab(1) by auto
  then have "Validate size_default (exampleParams ?l (exampleSpec ''home'' (as @ ?r # bs))) = Inr ()"
    by (intro exampleParams_Validate) auto
  with ab show ?thesis by (intro exI [of _ as] exI [of _ bs]) (simp add: validated_def)
qed

end
