(* ===== verification/FlagSet.thy ===== *)
theory FlagSet
  imports NetText
begin

text \<open>
  Package \<open>flag\<close> as the commands use it: a set of named flags that are boolean or take a value,
  and the loop of \<open>Parse\<close> over the arguments.  What setting a flag does is a function on the
  command's own record; \<open>ParseInt(s, 0, 64)\<close> and \<open>ParseBool\<close> are what \<open>flag\<close> reads numbers and
  switches with.
\<close>

subsection \<open>Numbers and switches\<close>

definition ParseBool :: "string \<Rightarrow> bool option" where
  "ParseBool s =
     (if s \<in> {''1'', ''t'', ''T'', ''true'', ''TRUE'', ''True''} then Some True
      else if s \<in> {''0'', ''f'', ''F'', ''false'', ''FALSE'', ''False''} then Some False else None)"

definition any_digit :: "char \<Rightarrow> nat option" where
  "any_digit c =
     (case digit_val c of
        Some d \<Rightarrow> Some d
      | None \<Rightarrow> if CHR ''a'' \<le> to_lower c \<and> to_lower c \<le> CHR ''z'' then Some (of_char (to_lower c) - 87) else None)"

fun digits_in :: "nat \<Rightarrow> nat \<Rightarrow> string \<Rightarrow> nat option" where
  "digits_in b n [] = Some n"
| "digits_in b n (c # cs) =
     (if c = CHR ''_'' then digits_in b n cs
      else case any_digit c of None \<Rightarrow> None | Some d \<Rightarrow> if d < b then digits_in b (b * n + d) cs else None)"

text \<open>\<open>underscoreOK\<close>: an underscore stands between digits, a base prefix counting as one.\<close>

fun underscores :: "bool \<Rightarrow> char \<Rightarrow> string \<Rightarrow> bool" where
  "underscores hex saw [] \<longleftrightarrow> saw \<noteq> CHR ''_''"
| "underscores hex saw (c # cs) \<longleftrightarrow>
     (if digit_val c \<noteq> None \<or> (hex \<and> CHR ''a'' \<le> to_lower c \<and> to_lower c \<le> CHR ''f'') then underscores hex (CHR ''0'') cs
      else if c = CHR ''_'' then saw = CHR ''0'' \<and> underscores hex c cs
      else saw \<noteq> CHR ''_'' \<and> underscores hex (CHR ''!'') cs)"

definition underscoreOK :: "string \<Rightarrow> bool" where
  "underscoreOK s =
     (if length s \<ge> 2 \<and> hd s = CHR ''0'' \<and> to_lower (s ! 1) \<in> {CHR ''b'', CHR ''o'', CHR ''x''}
      then underscores (to_lower (s ! 1) = CHR ''x'') (CHR ''0'') (drop 2 s)
      else underscores False (CHR ''^'') s)"

definition baseOf :: "string \<Rightarrow> nat \<times> string" where
  "baseOf s =
     (if hd s \<noteq> CHR ''0'' then (10, s)
      else if length s \<ge> 3 \<and> to_lower (s ! 1) = CHR ''b'' then (2, drop 2 s)
      else if length s \<ge> 3 \<and> to_lower (s ! 1) = CHR ''o'' then (8, drop 2 s)
      else if length s \<ge> 3 \<and> to_lower (s ! 1) = CHR ''x'' then (16, drop 2 s)
      else (8, tl s))"

definition ParseInt0 :: "string \<Rightarrow> int option" where
  "ParseInt0 s =
     (let neg = (s \<noteq> [] \<and> hd s = CHR ''-'');
          body = (if s \<noteq> [] \<and> (hd s = CHR ''-'' \<or> hd s = CHR ''+'') then tl s else s)
      in if body = [] \<or> \<not> underscoreOK body then None
         else case digits_in (fst (baseOf body)) 0 (snd (baseOf body)) of
             None \<Rightarrow> None
           | Some n \<Rightarrow> if neg then (if n \<le> 2 ^ 63 then Some (- int n) else None)
                      else (if n < 2 ^ 63 then Some (int n) else None))"

subsection \<open>Parsing arguments\<close>

datatype 's flag = Switch "bool \<Rightarrow> 's \<Rightarrow> 's" | Value "string \<Rightarrow> 's \<Rightarrow> 's option"

definition flagName :: "string \<Rightarrow> string" where
  "flagName a = (if HasPrefix a ''--'' then drop 2 a else tl a)"

text \<open>The result is the record and the arguments that are left; an error is its format string.\<close>

fun parseFlags :: "(string \<Rightarrow> 's flag option) \<Rightarrow> string list \<Rightarrow> 's \<Rightarrow> string + 's \<times> string list" where
  "parseFlags fl [] s = Inr (s, [])"
| "parseFlags fl (a # args) s =
     (if length a < 2 \<or> hd a \<noteq> CHR ''-'' then Inr (s, a # args)
      else if a = ''--'' then Inr (s, args)
      else if flagName a = [] \<or> hd (flagName a) = CHR ''-'' \<or> hd (flagName a) = CHR ''='' then Inl ''bad flag syntax: %s''
      else
        (let name = (case Cut (flagName a) (CHR ''='') of None \<Rightarrow> flagName a | Some (n, _) \<Rightarrow> n);
             value = map_option snd (Cut (flagName a) (CHR ''='')) in
         case fl name of
           None \<Rightarrow> Inl (if name = ''help'' \<or> name = ''h'' then ''flag: help requested'' else ''flag provided but not defined: -%s'')
         | Some (Switch f) \<Rightarrow>
             (case (case value of None \<Rightarrow> Some True | Some v \<Rightarrow> ParseBool v) of
                None \<Rightarrow> Inl ''invalid boolean value %q for -%s: %v''
              | Some b \<Rightarrow> parseFlags fl args (f b s))
         | Some (Value f) \<Rightarrow>
             (case value of
                Some v \<Rightarrow> (case f v s of None \<Rightarrow> Inl ''invalid value %q for flag -%s: %v'' | Some s \<Rightarrow> parseFlags fl args s)
              | None \<Rightarrow>
                  (case args of
                     [] \<Rightarrow> Inl ''flag needs an argument: -%s''
                   | v # args \<Rightarrow>
                       (case f v s of None \<Rightarrow> Inl ''invalid value %q for flag -%s: %v'' | Some s \<Rightarrow> parseFlags fl args s)))))"

lemma Cut_None: "c \<notin> set s \<Longrightarrow> Cut s c = None"
proof -
  assume "c \<notin> set s"
  then have "dropWhile (\<lambda>x. x \<noteq> c) s = []" by (auto simp: dropWhile_eq_Nil_conv)
  then show ?thesis by (simp only: Cut_def list.case)
qed

lemma parseFlags_value:
  assumes "flagName a = name" and "name \<noteq> []" "hd name \<noteq> CHR ''-''" "CHR ''='' \<notin> set name" and "length a \<ge> 2" "hd a = CHR ''-''"
    and "fl name = Some (Value f)" and "f v s = Some s'"
  shows "parseFlags fl (a # v # args) s = parseFlags fl args s'"
proof -
  have c: "Cut (flagName a) (CHR ''='') = None"
    using assms(1,4) by (simp add: Cut_None)
  moreover have "hd name \<noteq> CHR ''=''" using assms(2,4) by (metis hd_in_set)
  moreover have "a \<noteq> ''--''" using assms(1,2) by (auto simp: flagName_def HasPrefix_def)
  ultimately show ?thesis using assms by simp
qed

subsection \<open>A printed number is read back\<close>

lemma any_digit_char [simp]: "d < 10 \<Longrightarrow> any_digit (digit_char d) = Some d"
  by (simp add: any_digit_def)

lemma digit_char_underscore [simp]: "d < 10 \<Longrightarrow> digit_char d \<noteq> CHR ''_''"
  by (auto simp: digit_char_def char_of_eq_iff take_bit_nat_eq_self)

lemma digits_in_append: "digits_in b n (s @ t) = (case digits_in b n s of None \<Rightarrow> None | Some m \<Rightarrow> digits_in b m t)"
  by (induction s arbitrary: n) (auto split: option.splits)

lemma digits_in_FormatUint: "digits_in 10 0 (FormatUint n) = Some n"
proof (induction n rule: FormatUint.induct)
  case (1 n)
  show ?case
  proof (cases "n < 10")
    case True
    then show ?thesis by (subst FormatUint.simps) simp
  next
    case False
    then have "digits_in 10 0 (FormatUint (n div 10)) = Some (n div 10)" by (rule 1)
    with False show ?thesis by (subst FormatUint.simps) (simp add: digits_in_append mult_div_mod_eq)
  qed
qed

lemma underscores_digits: "\<forall>c \<in> set s. \<exists>d < 10. c = digit_char d \<Longrightarrow> saw \<noteq> CHR ''_'' \<Longrightarrow> underscores False saw s"
proof (induction s arbitrary: saw)
  case (Cons c s)
  then obtain d where "digit_val c = Some d" by (metis digit_val_char list.set_intros(1))
  with Cons.IH [of "CHR ''0''"] Cons.prems(1) show ?case by simp
qed simp

lemma to_lower_digit: "d < 10 \<Longrightarrow> to_lower (digit_char d) = digit_char d"
  by (auto simp: to_lower_def digit_char_def less_eq_char_def)

lemma digit_char_letter: "d < 10 \<Longrightarrow> digit_char d \<notin> {CHR ''b'', CHR ''o'', CHR ''x''}"
  by (auto simp: digit_char_def char_of_eq_iff take_bit_nat_eq_self)

lemma underscoreOK_FormatUint: "underscoreOK (FormatUint n)"
proof -
  have ds: "\<forall>c \<in> set (FormatUint n). \<exists>d < 10. c = digit_char d" using FormatUint_digits by blast
  have "to_lower (FormatUint n ! 1) \<notin> {CHR ''b'', CHR ''o'', CHR ''x''}" if "length (FormatUint n) \<ge> 2"
  proof -
    from that have "FormatUint n ! 1 \<in> set (FormatUint n)" by (intro nth_mem) simp
    then obtain d where "d < 10" "FormatUint n ! 1 = digit_char d" using ds by blast
    then show ?thesis using to_lower_digit digit_char_letter by metis
  qed
  then show ?thesis using underscores_digits [OF ds] by (auto simp: underscoreOK_def)
qed

lemma digit_char_0: "digit_char 0 = CHR ''0''"
  by (simp add: digit_char_def char_of_eq_iff)

lemma ParseInt0_body:
  assumes "hd (FormatUint n) \<noteq> CHR ''0'' \<or> n = 0"
  shows "digits_in (fst (baseOf (FormatUint n))) 0 (snd (baseOf (FormatUint n))) = Some n"
proof (cases "n = 0")
  case True
  have "FormatUint 0 = ''0''" by (simp add: FormatUint.simps [of 0] digit_char_0)
  then show ?thesis by (simp add: True baseOf_def)
next
  case False
  with assms show ?thesis by (simp add: baseOf_def digits_in_FormatUint)
qed

lemma ParseInt0_Itoa:
  assumes "- (2 ^ 63) \<le> n" and "n < 2 ^ 63"
  shows "ParseInt0 (Itoa n) = Some n"
proof -
  have start: "hd (FormatUint k) \<noteq> CHR ''-''" "hd (FormatUint k) \<noteq> CHR ''+''" for k
  proof -
    have "hd (FormatUint k) \<in> set (FormatUint k)" by simp
    then obtain d where "d < 10" "hd (FormatUint k) = digit_char d" using FormatUint_digits by blast
    then show "hd (FormatUint k) \<noteq> CHR ''-''" "hd (FormatUint k) \<noteq> CHR ''+''"
      by (auto simp: digit_char_def char_of_eq_iff take_bit_nat_eq_self)
  qed
  have zero: "hd (FormatUint k) \<noteq> CHR ''0'' \<or> k = 0" for k
    using FormatUint_hd [of k] by (auto simp: digit_char_0)
  note body = ParseInt0_body [OF zero]
  show ?thesis
  proof (cases "n < 0")
    case True
    with assms have "nat (- n) \<le> 2 ^ 63" by simp
    with True show ?thesis by (simp add: ParseInt0_def Itoa_def underscoreOK_FormatUint body)
  next
    case False
    with assms have "nat n < 2 ^ 63" by simp
    with False show ?thesis by (simp add: ParseInt0_def Itoa_def underscoreOK_FormatUint body start)
  qed
qed

end
