(* ===== verification/ImportCmd.thy ===== *)
theory ImportCmd
  imports PeerCmd SpecText FlagSet
begin

text \<open>
  \<open>cmd/wg-hem/provision.go\<close> and \<open>import.go\<close>: the \<open>provision\<close> command from its arguments to the
  device, and \<open>import\<close>, which turns a WireGuard file into arguments of \<open>provision\<close>.  Only what goes
  to standard output is kept of what they print; opening the file and reading a line from the
  terminal are inputs.
\<close>

subsection \<open>The flags of provision\<close>

record provisionFlags =
  flAddress :: "string list"
  flDNS :: "string list"
  flPeer :: "string list"
  flMTU :: int
  flListenPort :: int
  flHEM :: string
  flBroker :: string
  flLabel :: string
  flKID :: string
  flPSK :: string
  flAdopt :: bool
  flMobile :: bool
  flInsecure :: bool
  flSession :: int

definition defaultSessionHours :: int where "defaultSessionHours = 8"

definition noFlags :: provisionFlags where
  "noFlags = \<lparr>flAddress = [], flDNS = [], flPeer = [], flMTU = 0, flListenPort = 0, flHEM = [], flBroker = [],
     flLabel = ''wg-hem identity'', flKID = [], flPSK = [], flAdopt = False, flMobile = False, flInsecure = False,
     flSession = defaultSessionHours\<rparr>"

definition provisionFlag :: "string \<Rightarrow> provisionFlags flag option" where
  "provisionFlag name =
     (if name = ''address'' then Some (Value (\<lambda>v s. Some (s\<lparr>flAddress := flAddress s @ [v]\<rparr>)))
      else if name = ''dns'' then Some (Value (\<lambda>v s. Some (s\<lparr>flDNS := flDNS s @ [v]\<rparr>)))
      else if name = ''peer'' then Some (Value (\<lambda>v s. Some (s\<lparr>flPeer := flPeer s @ [v]\<rparr>)))
      else if name = ''mtu'' then Some (Value (\<lambda>v s. map_option (\<lambda>n. s\<lparr>flMTU := n\<rparr>) (ParseInt0 v)))
      else if name = ''listen-port'' then Some (Value (\<lambda>v s. map_option (\<lambda>n. s\<lparr>flListenPort := n\<rparr>) (ParseInt0 v)))
      else if name = ''hem'' then Some (Value (\<lambda>v s. Some (s\<lparr>flHEM := v\<rparr>)))
      else if name = ''broker'' then Some (Value (\<lambda>v s. Some (s\<lparr>flBroker := v\<rparr>)))
      else if name = ''label'' then Some (Value (\<lambda>v s. Some (s\<lparr>flLabel := v\<rparr>)))
      else if name = ''kid'' then Some (Value (\<lambda>v s. Some (s\<lparr>flKID := v\<rparr>)))
      else if name = ''psk'' then Some (Value (\<lambda>v s. Some (s\<lparr>flPSK := v\<rparr>)))
      else if name = ''adopt'' then Some (Switch (\<lambda>b s. s\<lparr>flAdopt := b\<rparr>))
      else if name = ''mobile'' then Some (Switch (\<lambda>b s. s\<lparr>flMobile := b\<rparr>))
      else if name = ''insecure'' then Some (Switch (\<lambda>b s. s\<lparr>flInsecure := b\<rparr>))
      else if name = ''session'' then Some (Value (\<lambda>v s. map_option (\<lambda>n. s\<lparr>flSession := n\<rparr>) (ParseInt0 v)))
      else None)"

fun parseSpecs :: "size_tags \<Rightarrow> string list \<Rightarrow> error + PeerSpec list" where
  "parseSpecs sz [] = Inr []"
| "parseSpecs sz (s # ss) =
     bindE (mapErr (\<lambda>e. failf exitUsage ''-peer #%d: %w'' [Msg e]) (ParsePeerSpec sz s)) (\<lambda>p.
     bindE (parseSpecs sz ss) (\<lambda>ps. Inr (p # ps)))"

text \<open>Everything before the device is reached.\<close>

definition provisionParams :: "size_tags \<Rightarrow> string list \<Rightarrow> bytes option \<Rightarrow> string option \<Rightarrow> error + Params \<times> provisionFlags" where
  "provisionParams sz args random stdin =
     bindE (mapErr (\<lambda>e. ExitError exitUsage (Msg e)) (parseFlags provisionFlag args noFlags)) (\<lambda>(fl, _).
     if flAddress fl = [] then Inl (failf exitUsage ''at least one -address is required'' [])
     else
     bindE (mapErr (\<lambda>e. failf exitUsage e []) (parseAll ParsePrefix ''-address %q: %w'' (flAddress fl))) (\<lambda>addrs.
     bindE (mapErr (\<lambda>e. failf exitUsage e []) (parseAll ParseAddr ''-dns %q: %w'' (flDNS fl))) (\<lambda>dns.
     if flPeer fl = [] then Inl (failf exitUsage ''at least one -peer is required'' [])
     else
     bindE (parseSpecs sz (flPeer fl)) (\<lambda>peers.
     bindE (readPSK (flPSK fl) random stdin) (\<lambda>psk.
       let p = \<lparr>pAddrs = addrs, pDNS = dns, pMTU = flMTU fl, pListenPort = flListenPort fl, pLabel = flLabel fl,
                pPeers = peers, pKID = flKID fl, pPSK = psk, pPSKGenerated = (flPSK fl = ''generate''), pAdopt = flAdopt fl\<rparr>
       in bindE (mapErr exitFrom (Validate sz p)) (\<lambda>_. Inr (p, fl)))))))"

definition defaultHEM :: string where "defaultHEM = ''https://my.ence.do''"

definition hemFrom :: "string \<Rightarrow> string \<Rightarrow> string" where
  "hemFrom flg env = (if flg \<noteq> [] then flg else if env \<noteq> [] then env else defaultHEM)"

text \<open>
  \<open>cmdProvision\<close>: the client for an address, a broker and a certificate check that may be off, and
  the passphrase prompt, are parameters.  The result is what stands on standard output.
\<close>

record 'd Host =
  hNewClient :: "string \<Rightarrow> string \<Rightarrow> bool \<Rightarrow> 'd Client"
  hPassphrase :: "('d, error, bytes) io"
  hEnvURL :: string
  hRandom :: "bytes option"
  hStdin :: "string option"

definition cmdProvision :: "nat \<Rightarrow> size_tags \<Rightarrow> 'd Host \<Rightarrow> string list \<Rightarrow> ('d, error, Result \<times> string list) io" where
  "cmdProvision fuel sz h args =
     bindS (liftE (provisionParams sz args (hRandom h) (hStdin h))) (\<lambda>(p, fl).
     (let c = hNewClient h (hemFrom (flHEM fl) (hEnvURL h)) (flBroker fl) (flInsecure fl);
          dev = \<lparr>devMobile = flMobile fl, devExpSecs = wrap64 (flSession fl * 3600), Passphrase = Some (hPassphrase h)\<rparr> in
      bindS (mapErrS exitFrom (Connect c dev)) (\<lambda>auth d.
        case Run fuel sz (liftClient c) (Token c dev) p (d, auth) of
          ((Inl e, cl), (d', _)) \<Rightarrow> (Inl (exitFrom e), Wipe c d')
        | ((Inr res, _), (d', _)) \<Rightarrow>
            (Inr (res, resPublicKey res # (if resPSK res \<noteq> [] then [''psk='' @ resPSK res] else [])), Wipe c d'))))"

subsection \<open>Import\<close>

record importFlags =
  ifName :: string
  ifDryRun :: bool

definition importFlag :: "string \<Rightarrow> importFlags flag option" where
  "importFlag name =
     (if name = ''name'' then Some (Value (\<lambda>v s. Some (s\<lparr>ifName := v\<rparr>)))
      else if name = ''dry-run'' then Some (Switch (\<lambda>b s. s\<lparr>ifDryRun := b\<rparr>))
      else None)"

definition splitAtDoubleDash :: "string list \<Rightarrow> string list \<times> string list" where
  "splitAtDoubleDash args = (takeWhile (\<lambda>a. a \<noteq> ''--'') args, tl (dropWhile (\<lambda>a. a \<noteq> ''--'') args))"

text \<open>The loop of \<open>takeFirstBareArg\<close>; \<open>found\<close> is empty until a file was seen.\<close>

fun bareLoop :: "string \<Rightarrow> string list \<Rightarrow> string \<times> string list" where
  "bareLoop found [] = (found, [])"
| "bareLoop found (a # args) =
     (if found = [] \<and> \<not> HasPrefix a ''-'' then bareLoop a args
      else if a = ''-name'' \<or> a = ''--name'' then
        (case args of
           [] \<Rightarrow> (found, [a])
         | v # args \<Rightarrow> (case bareLoop found args of (f, rest) \<Rightarrow> (f, a # v # rest)))
      else (case bareLoop found args of (f, rest) \<Rightarrow> (f, a # rest)))"

definition takeFirstBareArg :: "string list \<Rightarrow> string \<times> string list" where
  "takeFirstBareArg args = bareLoop [] args"

text \<open>The answer is the line read, nothing at the end of the input, or a read error.\<close>

definition askPeerName :: "(error + string) option \<Rightarrow> error + string" where
  "askPeerName answer =
     (case answer of
        None \<Rightarrow> Inl (Msg ''no name given'')
      | Some (Inl e) \<Rightarrow> Inl e
      | Some (Inr line) \<Rightarrow>
          if TrimSpace line = [] then Inl (Msg ''no name given; pass -name to supply one without being asked'')
          else if ContainsAny (TrimSpace line) '',='' then Inl (Msg ''a name cannot contain a comma or an equals sign'')
          else Inr (TrimSpace line))"

definition quoteAll :: "(string \<Rightarrow> string) \<Rightarrow> string list \<Rightarrow> string list" where
  "quoteAll Quote argv = map (\<lambda>a. if ContainsAny a [CHR '' '', CHR 0x09, CHR 0x22, CHR 0x27] then Quote a else a) argv"

text \<open>The arguments for \<open>provision\<close>, and whether they are only to be shown.\<close>

definition importArgs :: "(string \<Rightarrow> error + string list) \<Rightarrow> (error + string) option \<Rightarrow> string list \<Rightarrow> error + bool \<times> string list" where
  "importArgs openFile answer args =
     (let (ours, passthrough) = splitAtDoubleDash args; (path, ours) = takeFirstBareArg ours in
      if path = [] then Inl (failf exitUsage ''which file?'' [])
      else
      bindE (mapErr (\<lambda>e. ExitError exitUsage (Msg e)) (parseFlags importFlag ours \<lparr>ifName = [], ifDryRun = False\<rparr>)) (\<lambda>(fl, extra).
      if extra \<noteq> [] then Inl (failf exitUsage ''unexpected argument %q; flags for provision go after --'' [])
      else
      bindE (mapErr (\<lambda>e. failf exitUsage ''%s: %w'' [e])
              (bindE (openFile path) (\<lambda>lines. mapErr Msg (Parse lines)))) (\<lambda>conf.
      bindE (if TrimSpace (ifName fl) = [] then mapErr (\<lambda>e. failf exitUsage ''%w'' [e]) (askPeerName answer)
             else Inr (TrimSpace (ifName fl))) (\<lambda>label.
        Inr (ifDryRun fl, ProvisionArgs conf label @ passthrough)))))"

text \<open>A dry run prints the command; otherwise the output is that of \<open>provision\<close>.\<close>

definition cmdImport :: "nat \<Rightarrow> size_tags \<Rightarrow> 'd Host \<Rightarrow> (string \<Rightarrow> error + string list) \<Rightarrow> (error + string) option \<Rightarrow>
    (string \<Rightarrow> string) \<Rightarrow> string list \<Rightarrow> ('d, error, Result option \<times> string list) io" where
  "cmdImport fuel sz h openFile answer Quote args =
     bindS (liftE (importArgs openFile answer args)) (\<lambda>(dry, argv).
       if dry then returnS (None, [''wg-hem provision '' @ Join '' '' (quoteAll Quote argv)])
       else bindS (cmdProvision fuel sz h argv) (\<lambda>(res, out). returnS (Some res, out)))"

subsection \<open>The two ways to import a file agree\<close>

lemma Validate_label [simp]: "Validate sz (p\<lparr>pLabel := l\<rparr>) = Validate sz p"
  by (simp add: Validate_def)

lemma flag_names: "flagName ''-address'' = ''address''" "flagName ''-dns'' = ''dns''" "flagName ''-mtu'' = ''mtu''"
    "flagName ''-listen-port'' = ''listen-port''" "flagName ''-peer'' = ''peer''" "flagName ''-label'' = ''label''"
  by (simp_all add: flagName_def HasPrefix_def)

lemma parse_addresses:
  "parseFlags provisionFlag (concat (map (\<lambda>a. [''-address'', f a]) as) @ rest) s =
   parseFlags provisionFlag rest (s\<lparr>flAddress := flAddress s @ map f as\<rparr>)"
proof (induction as arbitrary: s)
  case (Cons a as)
  have "parseFlags provisionFlag (''-address'' # f a # args) s = parseFlags provisionFlag args (s\<lparr>flAddress := flAddress s @ [f a]\<rparr>)" for args
    by (rule parseFlags_value [OF flag_names(1)]) (simp_all add: provisionFlag_def)
  then show ?case by (simp add: Cons.IH del: parseFlags.simps)
qed simp

lemma parse_dns:
  "parseFlags provisionFlag (concat (map (\<lambda>a. [''-dns'', f a]) as) @ rest) s =
   parseFlags provisionFlag rest (s\<lparr>flDNS := flDNS s @ map f as\<rparr>)"
proof (induction as arbitrary: s)
  case (Cons a as)
  have "parseFlags provisionFlag (''-dns'' # f a # args) s = parseFlags provisionFlag args (s\<lparr>flDNS := flDNS s @ [f a]\<rparr>)" for args
    by (rule parseFlags_value [OF flag_names(2)]) (simp_all add: provisionFlag_def)
  then show ?case by (simp add: Cons.IH del: parseFlags.simps)
qed simp

lemma parse_numbers:
  assumes "- (2 ^ 63) \<le> n" and "n < 2 ^ 63"
  shows "parseFlags provisionFlag ((if n \<noteq> 0 then [''-mtu'', Itoa n] else []) @ rest) (s\<lparr>flMTU := 0\<rparr>) = parseFlags provisionFlag rest (s\<lparr>flMTU := n\<rparr>)"
    and "parseFlags provisionFlag ((if n \<noteq> 0 then [''-listen-port'', Itoa n] else []) @ rest) (s\<lparr>flListenPort := 0\<rparr>) =
      parseFlags provisionFlag rest (s\<lparr>flListenPort := n\<rparr>)"
proof -
  have "parseFlags provisionFlag (''-mtu'' # Itoa n # rest) (s\<lparr>flMTU := 0\<rparr>) = parseFlags provisionFlag rest (s\<lparr>flMTU := n\<rparr>)"
    by (rule parseFlags_value [OF flag_names(3), where f = "\<lambda>v s. map_option (\<lambda>n. s\<lparr>flMTU := n\<rparr>) (ParseInt0 v)"]) (simp_all add: provisionFlag_def ParseInt0_Itoa [OF assms])
  then show "parseFlags provisionFlag ((if n \<noteq> 0 then [''-mtu'', Itoa n] else []) @ rest) (s\<lparr>flMTU := 0\<rparr>) = parseFlags provisionFlag rest (s\<lparr>flMTU := n\<rparr>)"
    by (cases "n = 0") (simp_all del: parseFlags.simps)
  have "parseFlags provisionFlag (''-listen-port'' # Itoa n # rest) (s\<lparr>flListenPort := 0\<rparr>) = parseFlags provisionFlag rest (s\<lparr>flListenPort := n\<rparr>)"
    by (rule parseFlags_value [OF flag_names(4), where f = "\<lambda>v s. map_option (\<lambda>n. s\<lparr>flListenPort := n\<rparr>) (ParseInt0 v)"]) (simp_all add: provisionFlag_def ParseInt0_Itoa [OF assms])
  then show "parseFlags provisionFlag ((if n \<noteq> 0 then [''-listen-port'', Itoa n] else []) @ rest) (s\<lparr>flListenPort := 0\<rparr>) =
      parseFlags provisionFlag rest (s\<lparr>flListenPort := n\<rparr>)"
    by (cases "n = 0") (simp_all del: parseFlags.simps)
qed

definition fileFlags :: "Conf \<Rightarrow> string \<Rightarrow> provisionFlags" where
  "fileFlags c label = noFlags\<lparr>flAddress := map PrefixString (cAddresses c), flDNS := map AddrString (cDNS c),
     flPeer := [Join '','' (peerFields c label)], flMTU := cMTU c, flListenPort := cListenPort c\<rparr>"

lemma parse_ProvisionArgs:
  assumes "plainConf c"
  shows "parseFlags provisionFlag (ProvisionArgs c label @ rest) noFlags = parseFlags provisionFlag rest (fileFlags c label)"
proof -
  have n: "- (2 ^ 63) \<le> cMTU c" "cMTU c < 2 ^ 63" "- (2 ^ 63) \<le> cListenPort c" "cListenPort c < 2 ^ 63"
    using assms by (simp_all add: plainConf_def)
  have peer: "parseFlags provisionFlag (''-peer'' # v # rest) s = parseFlags provisionFlag rest (s\<lparr>flPeer := flPeer s @ [v]\<rparr>)" for v s
    by (rule parseFlags_value [OF flag_names(5)]) (simp_all add: provisionFlag_def)
  define s where "s = noFlags\<lparr>flAddress := map PrefixString (cAddresses c), flDNS := map AddrString (cDNS c)\<rparr>"
  have z: "s = s\<lparr>flMTU := 0\<rparr>" "s\<lparr>flMTU := cMTU c\<rparr> = s\<lparr>flMTU := cMTU c\<rparr>\<lparr>flListenPort := 0\<rparr>" by (simp_all add: s_def noFlags_def)
  have "parseFlags provisionFlag (ProvisionArgs c label @ rest) noFlags =
      parseFlags provisionFlag ((if cMTU c \<noteq> 0 then [''-mtu'', Itoa (cMTU c)] else []) @
        (if cListenPort c \<noteq> 0 then [''-listen-port'', Itoa (cListenPort c)] else []) @
        ''-peer'' # Join '','' (peerFields c label) # rest) s"
    by (simp add: ProvisionArgs_def parse_addresses parse_dns s_def noFlags_def del: parseFlags.simps)
  also have "\<dots> = parseFlags provisionFlag (''-peer'' # Join '','' (peerFields c label) # rest)
      (s\<lparr>flMTU := cMTU c\<rparr>\<lparr>flListenPort := cListenPort c\<rparr>)"
    by (subst z(1), subst parse_numbers(1) [OF n(1,2)], subst z(2), rule parse_numbers(2) [OF n(3,4)])
  finally show ?thesis by (simp add: peer fileFlags_def s_def noFlags_def del: parseFlags.simps)
qed

lemma parse_label:
  "parseFlags provisionFlag [''-label'', v] s = Inr (s\<lparr>flLabel := v\<rparr>, [])"
  by (subst parseFlags_value [OF flag_names(6), where f = "\<lambda>v s. Some (s\<lparr>flLabel := v\<rparr>)"]) (simp_all add: provisionFlag_def)

lemma parseAll_map: "\<forall>x \<in> set xs. f (g x) = Some x \<Longrightarrow> parseAll f msg (map g xs) = Inr xs"
  by (induction xs) simp_all

lemma exit_usage [simp]: "exitCode (Inl (failf exitUsage fmt ws)) = exitUsage"
  by (simp add: exitCode_def failf_def)

text \<open>What \<open>FromConf\<close> builds before it validates.\<close>

lemma provisionParams_file:
  assumes "plainConf c" and "cAddresses c \<noteq> []"
    and "parseFlags provisionFlag (ProvisionArgs c label @ rest) noFlags = Inr ((fileFlags c label)\<lparr>flLabel := l\<rparr>, extra)"
  shows "provisionParams sz (ProvisionArgs c label @ rest) random stdin =
    bindE (mapErr (\<lambda>e. failf exitUsage ''-peer #%d: %w'' [Msg e]) (ParsePeerSpec sz (Join '','' (peerFields c label)))) (\<lambda>peer.
    bindE (mapErr exitFrom (Validate sz (fileParams c label peer))) (\<lambda>_.
      Inr ((fileParams c label peer)\<lparr>pLabel := l\<rparr>, (fileFlags c label)\<lparr>flLabel := l\<rparr>)))"
proof -
  have a: "parseAll ParsePrefix msg (map PrefixString (cAddresses c)) = Inr (cAddresses c)" for msg
    using assms(1) ParsePrefix_String by (intro parseAll_map) (auto simp: plainConf_def)
  have d: "parseAll ParseAddr msg (map AddrString (cDNS c)) = Inr (cDNS c)" for msg
    using assms(1) ParseAddr_String by (intro parseAll_map) (auto simp: plainConf_def)
  have p: "\<lparr>pAddrs = cAddresses c, pDNS = cDNS c, pMTU = cMTU c, pListenPort = cListenPort c,
     pLabel = l, pPeers = [peer], pKID = [], pPSK = None, pPSKGenerated = False, pAdopt = False\<rparr> = (fileParams c label peer)\<lparr>pLabel := l\<rparr>" for peer
    by (simp add: fileParams_def)
  show ?thesis
    using assms(2) unfolding provisionParams_def assms(3)
    by (cases "ParsePeerSpec sz (Join '','' (peerFields c label))")
      (simp_all add: fileFlags_def noFlags_def a d readPSK_def p flip: One_nat_def)
qed

text \<open>
  Importing a file through the command line and through the window is the same.  For every
  file that parses and every name, the flags that \<open>import\<close> hands to \<open>provision\<close> are read back as
  exactly the parameters the window would write - every address, IPv6 included, every number -
  except that the identity is labelled as \<open>provision\<close> labels it unless \<open>-label\<close> is added, and where
  the window refuses, the command ends with a usage error.
\<close>

lemma imports_agree:
  assumes "Parse lines = Inr c" and "TrimSpace label \<noteq> []"
  shows "(case FromConf sz c label of
      Inr p \<Rightarrow> (\<exists>fl fl'. provisionParams sz (ProvisionArgs c label @ [''-label'', label]) random stdin = Inr (p, fl) \<and>
                provisionParams sz (ProvisionArgs c label) random stdin = Inr (p\<lparr>pLabel := ''wg-hem identity''\<rparr>, fl'))
    | Inl e \<Rightarrow> (\<exists>e'. provisionParams sz (ProvisionArgs c label) random stdin = Inl e' \<and>
                exitCode (Inl e' :: error + unit) = exitCode (Inl (exitFrom e) :: error + unit)))"
proof -
  have c: "plainConf c" "cAddresses c \<noteq> []" using Parse_plain [OF assms(1)] parse_accepts_usable [OF assms(1)] by auto
  have w: "FromConf sz c label = bindE (mapErr (\<lambda>e. Fail KindUsage ''%w'' [Msg e]) (ParsePeerSpec sz (Join '','' (peerFields c label))))
      (\<lambda>peer. bindE (Validate sz (fileParams c label peer)) (\<lambda>_. Inr (fileParams c label peer)))"
    using assms(2) by (simp add: FromConf_def fileParams_def Let_def)
  have "parseFlags provisionFlag (ProvisionArgs c label @ [''-label'', label]) noFlags = Inr ((fileFlags c label)\<lparr>flLabel := label\<rparr>, [])"
    by (simp only: parse_ProvisionArgs [OF c(1)] parse_label)
  note l = provisionParams_file [OF c this, of sz random stdin]
  have "parseFlags provisionFlag (ProvisionArgs c label @ []) noFlags = Inr ((fileFlags c label)\<lparr>flLabel := ''wg-hem identity''\<rparr>, [])"
    by (simp only: parse_ProvisionArgs [OF c(1)]) (simp add: fileFlags_def noFlags_def)
  note n = provisionParams_file [OF c this, of sz random stdin, unfolded append_Nil2]
  show ?thesis
  proof (cases "ParsePeerSpec sz (Join '','' (peerFields c label))")
    case (Inl e)
    then show ?thesis unfolding w n by (simp add: exitFrom_def Fail_def)
  next
    case (Inr peer)
    then show ?thesis unfolding w l n by (cases "Validate sz (fileParams c label peer)") (simp_all add: fileParams_def)
  qed
qed

end
