(* ===== verification/Spec2Isabelle.thy ===== *)
theory Spec2Isabelle
  imports DaemonTunnel WipeCmd UpDown Quick LiveStore Window ImportCmd
begin

text \<open>
  A verification library of the config-free WireGuard client: a WireGuard whose private key
  and whose whole configuration live in a hardware security module, the HEM, behind a network
  API.  One key of the device is an identity; the configuration is a record of at most 128 (or
  64) bytes attached to it and one record attached to each peer's key, tied together by a MAC
  the device computes.  \<open>wg-hem\<close> provisions such a tree, reads and checks it, edits it, and runs
  a tunnel; a daemon runs tunnels for a window that has no privileges; \<open>wg-quick-encedo\<close> is an
  older front end that keeps its configuration in a file and its key in the device.

  \<^bold>\<open>How the code is modelled.\<close>  Pure functions are HOL functions.  Code that talks to the device,
  to the operating system or keeps state is a function from a state to a result and a new
  state (\<open>io\<close> in \<open>Prelude\<close>), in which every error return is a value; errors are trees of wrapped
  causes, as \<open>errors.Is\<close> and \<open>errors.As\<close> see them (\<open>Errors\<close>).  The HEM's client is a record of
  functions over an arbitrary device state (\<open>Client\<close> in \<open>Hem\<close>), the operating system's calls
  another (\<open>Platform\<close> in \<open>Routing\<close>); what a theorem relies on of them is a named hypothesis
  (\<open>honest_hmac\<close>, \<open>honest_wrap\<close>, \<open>pages\<close>, \<open>key_store\<close>, a resolver that answers consistently), and
  each is met by a concrete client in a witness.  The two record sizes are the type \<open>size_tags\<close>.

  \<^bold>\<open>The ground.\<close>

  \<^item> \<open>Prelude\<close>, \<open>GoText\<close>, \<open>Netip\<close>, \<open>NetText\<close>, \<open>NetSix\<close>, \<open>GoUrl\<close>, \<open>FlagSet\<close>, \<open>Sha1\<close>, \<open>Sha1Eval\<close>: results and
    computations with the collections of facts about them (\<open>result_inv\<close>, \<open>keeps_intros\<close>), and
    what the code uses of \<open>strings\<close>, \<open>strconv\<close>, \<open>encoding/hex\<close>, \<open>encoding/base64\<close>, \<open>net/netip\<close>, \<open>net/url\<close>,
    \<open>flag\<close> and \<open>crypto/sha1\<close>.  Printed addresses and prefixes of both families are read back as
    they were; \<open>Sha1Eval\<close> computes the digests of the keys the examples use.
  \<^item> \<open>Errors\<close>, \<open>Hem\<close> (\<open>internal/session\<close>, \<open>cmd/wg-hem/auth.go\<close>): kinds, exit codes, tokens; the
    passphrase is read at most once.

  \<^bold>\<open>The configuration.\<close>

  \<^item> \<open>Descr\<close>, \<open>DescrCodec\<close>, \<open>DescrPeer\<close> (\<open>internal/descr\<close>): the records.  The accepted records are
    exactly the canonical encodings: decoding and encoding are inverse in both directions, for
    interface and peer records through one locale \<open>record_codec\<close>; the outcomes of encoding are
    given with the budget in bytes.
  \<^item> \<open>Mac\<close> (\<open>internal/mac\<close>): the message that is authenticated determines the configuration; what
    is signed verifies; two accepted configurations that carry one tag are the same or a
    collision of the device's MAC.  An older configuration with its own tag still verifies.
  \<^item> \<open>Config\<close> (\<open>internal/config\<close>): every tree that is returned is authentic, of the identity that
    was asked for, and reading it changes nothing (locale \<open>same_reads\<close>); paging returns
    everything.
  \<^item> \<open>Provision\<close>, \<open>ProvisionRun\<close>, \<open>Handoff\<close> (\<open>internal/provision\<close>, \<open>internal/handoff\<close>): writing a
    tree.  A run deletes no key but its own (locale \<open>same_writes\<close>), a run that succeeds has
    written and verified what was asked for, a pre-shared key survives; the server is handed
    single hosts.
  \<^item> \<open>Wgconf\<close>, \<open>PeerSpecs\<close>, \<open>SpecText\<close>, \<open>ImportCmd\<close> (\<open>internal/wgconf\<close>, \<open>internal/provision\<close>, the \<open>provision\<close>
    and \<open>import\<close> commands): what is read from text.  Parsed specifications encode or overflow;
    the private key of an imported file is not kept; the command line and the window import
    the same file the same way (\<open>imports_agree\<close>); a comma in a name or an endpoint is not escaped.

  \<^bold>\<open>The device as a key store, and edits.\<close>

  \<^item> \<open>Store\<close>: the locale \<open>key_store\<close> states what the HEM documents of its calls over a list of
    keys, and \<open>holds\<close> what it means that such a store contains a configuration.  The loader
    decides it: it returns a tree exactly when the store holds the tree.
  \<^item> \<open>PeerCmd\<close>, \<open>PeerEdits\<close>, \<open>PeerAdd\<close>, \<open>Edits\<close> (\<open>cmd/wg-hem/peer.go\<close>): adding, removing and updating a
    peer, refined by abstract edits of a list of peers.  The one exception, an added peer
    whose reference is taken, is part of the statement: it makes every load fail.
  \<^item> \<open>WipeCmd\<close> (\<open>cmd/wg-hem/wipe.go\<close>): whatever happens on the way, only records of this client
    go, identities last.
  \<^item> \<open>MemStore\<close>: a device in memory that satisfies \<open>key_store\<close>, on which the theorems are applied;
    a session over a key store is a key store again.

  \<^bold>\<open>Tunnels.\<close>

  \<^item> \<open>Routing\<close>, \<open>Hsm\<close>, \<open>Uapi\<close>, \<open>Session\<close> (\<open>internal/runtime\<close>, \<open>internal/session\<close>, \<open>internal/tunnel/uapi.go\<close>):
    the routes pinned around the tunnel, the exchanges with the device and their retries, the
    text interface of wireguard-go and its status, the files that say what is running.
  \<^item> \<open>Tunnel\<close>, \<open>Failover\<close>, \<open>Teardown\<close> (\<open>internal/tunnel\<close>, \<open>cmd/wg-hem/failover.go\<close>): a tunnel's life.
    What happens while it is up is a list of events in any order.  It never leaves the
    configuration (locale \<open>peer_selector\<close>, met by the walk and by the prompt), and the walk over
    the peers ends.  Once \<open>openDevice\<close> has succeeded, every way a run ends takes back what it
    gave the host; when \<open>openDevice\<close> fails nothing is taken back, and a device that was made
    and did not come up stays open.
  \<^item> \<open>UpDown\<close> (\<open>up.go\<close>, \<open>down.go\<close>, \<open>session.go\<close>): the \<open>up\<close> and \<open>down\<close> commands, from the choice of an identity
    and a peer to the tunnel, and stopping another process.
  \<^item> \<open>Quick\<close> (\<open>cmd/wg-quick-encedo\<close>): what its reader accepts is well formed; once its device is
    configured, every way \<open>up\<close> ends takes back what it gave.
  \<^item> \<open>Ipc\<close>, \<open>Daemon\<close>, \<open>DaemonTunnel\<close> (\<open>internal/ipc\<close>, \<open>internal/daemon\<close>, \<open>cmd/wg-hem/daemon.go\<close>): the
    daemon as a step relation with one step per critical section, so that every interleaving
    of connections is covered; the invariant (locale \<open>preserved\<close>) gives one tunnel at a time,
    no tunnel without its window, and only the owner's hand on it; what it opens is authentic.
  \<^item> \<open>Live\<close>, \<open>LiveStore\<close>, \<open>Window\<close> (\<open>gui\<close>): the window's session, its presence check, and what the
    window decides without drawing.  On a key store whose person says yes (locale
    \<open>window_store\<close>) the component opens exactly what the window checked.  Every profile has a
    line of its own in the chooser, under what that needs of the identifiers and labels.

  \<^bold>\<open>Locales.\<close>  \<open>record_codec\<close> is interpreted by the two record codecs, \<open>same_reads\<close> and \<open>same_writes\<close> by
  clients that differ in the calls concerned, \<open>peer_selector\<close> by \<open>WalkPeers\<close> and \<open>repromptPeer\<close>,
  \<open>preserved\<close> by the daemon's step relation, \<open>key_store\<close> by the device in memory, directly and
  under a session, and \<open>window_store\<close> by that device with a person and a control connection.

  \<^bold>\<open>Termination and fuel.\<close>  All functions are total.  \<open>hold\<close> and \<open>awaitHandshake\<close> recurse on the events
  still to come, so a tunnel that stays up is the value \<open>None\<close>.  The loops over the pages of a
  search (\<open>search\<close>, \<open>readLoop\<close>, \<open>listRecords\<close>) take fuel, a page being at most fifty entries: fuel above
  a fiftieth of the number of keys is enough (\<open>search_complete\<close>, \<open>load_decides_holds\<close>).  \<open>waitGone\<close> takes
  the number of times the clock is still before its deadline.

  \<^bold>\<open>Not modelled.\<close>  The HEM client library, wireguard-go and the operating system are parameters.
  Identification of a caller on a socket, netlink and Windows calls, service control and
  socket permissions are calls into the operating system.  Progress messages (\<open>Notify\<close>), log
  lines, debug traces, printing and drawing carry no state the rest depends on; the flags of
  the commands other than \<open>provision\<close> and \<open>import\<close> are left out with their printing.  The closing of
  the local status socket at the end of a run (the deferred \<open>uapi.Close\<close> of \<open>Tunnel.Run\<close> and
  \<open>uapiListener.Close\<close> of \<open>wg-quick-encedo\<close>) is not in the log of a run.  \<open>TrimSpace\<close> and \<open>ToLower\<close> know the
  blanks and letters of ASCII only, not those of Unicode.
\<close>

end
